(* ===== verification/Prelude.thy ===== *)
theory Prelude
  imports Main "HOL-Library.Word" "HOL-Library.AList" "HOL-Library.List_Lexorder"
    "HOL-Library.Product_Lexorder" "HOL-Library.Multiset"
begin

text \<open>
  What every component of the development shares.

  Machine integers: \<open>u64\<close> and \<open>usize\<close> are 64-bit words. The program is built in release
  mode (Makefile, target build), so \<open>+\<close> and \<open>*\<close> wrap around; the saturating operations
  of the Rust standard library are written out below. Byte arrays and byte vectors are lists
  of 8-bit words, ordered lexicographically as the arrays of the source are. A string is the
  list of its UTF-8 bytes, one character per byte.

  Hash maps: a \<open>HashMap\<close> is an association list with distinct keys. The order of the list
  stands for the iteration order of the hash map, which the source does not control; where an
  order can be observed, the development proves that the result does not depend on it, or says
  so.

  Errors: a fallible operation on the state returns the error or the value together with the
  state, because an early return of the source keeps the changes made before it. The
  combinators \<open>on_ok\<close> and \<open>and_then\<close> are the question mark operator of the source.
\<close>

section \<open>Types of the source language\<close>

type_synonym u8 = "8 word"
type_synonym u64 = "64 word"
type_synonym usize = "64 word"
type_synonym bytes = "u8 list"

text \<open>A 32-byte array of the source (hashes and keys); the length is an invariant.\<close>

type_synonym bytes32 = "bytes"

definition zero32 :: bytes32 where
  "zero32 = replicate 32 0"

definition usize_of :: "nat \<Rightarrow> usize" where
  "usize_of n = word_of_nat n"

subsection \<open>Saturating arithmetic\<close>

definition sat_add :: "u64 \<Rightarrow> u64 \<Rightarrow> u64" where
  "sat_add a b = (if unat a + unat b < 2 ^ 64 then a + b else - 1)"

definition sat_sub :: "u64 \<Rightarrow> u64 \<Rightarrow> u64" where
  "sat_sub a b = (if b \<le> a then a - b else 0)"

definition sat_mul :: "u64 \<Rightarrow> u64 \<Rightarrow> u64" where
  "sat_mul a b = (if unat a * unat b < 2 ^ 64 then a * b else - 1)"

definition div_ceil :: "u64 \<Rightarrow> u64 \<Rightarrow> u64" where
  "div_ceil a b = (if a mod b = 0 then a div b else a div b + 1)"

text \<open>Evaluation compares binary integers.\<close>

lemma int_two_64: "int (2 ^ 64) = 18446744073709551616"
  by simp

lemma sat_add_code [code]:
  "sat_add a b = (if uint a + uint b < 18446744073709551616 then a + b else - 1)"
proof -
  have "int (unat a + unat b) = uint a + uint b"
    by simp
  then have "unat a + unat b < 2 ^ 64 \<longleftrightarrow> uint a + uint b < 18446744073709551616"
    by (metis int_two_64 of_nat_less_iff)
  then show ?thesis
    by (simp only: sat_add_def)
qed

lemma sat_mul_code [code]:
  "sat_mul a b = (if uint a * uint b < 18446744073709551616 then a * b else - 1)"
proof -
  have "int (unat a * unat b) = uint a * uint b"
    by simp
  then have "unat a * unat b < 2 ^ 64 \<longleftrightarrow> uint a * uint b < 18446744073709551616"
    by (metis int_two_64 of_nat_less_iff)
  then show ?thesis
    by (simp only: sat_mul_def)
qed

lemma unat_minus_one_64: "unat (- 1 :: u64) = 2 ^ 64 - 1"
  by (simp add: unsigned_minus_1_eq_mask mask_eq_exp_minus_1)

lemma unat_less_64 [simp]: "unat (a :: u64) < 18446744073709551616"
  using unsigned_less [of a, where ?'a = nat] by simp

lemma unat_sat_add: "unat (sat_add a b) = min (unat a + unat b) (2 ^ 64 - 1)"
  by (auto simp: sat_add_def unat_word_ariths unat_minus_one_64 min_def)

lemma unat_sat_sub: "unat (sat_sub a b) = unat a - unat b"
  by (auto simp: sat_sub_def unat_sub word_le_nat_alt)

lemma unat_sat_mul: "unat (sat_mul a b) = min (unat a * unat b) (2 ^ 64 - 1)"
  by (auto simp: sat_mul_def unat_word_ariths unat_minus_one_64 min_def)

lemma unat_add_no_wrap:
  fixes a b :: u64
  assumes "unat a + unat b < 2 ^ 64"
  shows "unat (a + b) = unat a + unat b"
  using assms by (simp add: unat_word_ariths)

lemma unat_word_of_nat: "n < 2 ^ 64 \<Longrightarrow> unat (word_of_nat n :: u64) = n"
  by (simp add: unsigned_of_nat take_bit_nat_eq_self)

lemma less_succ: "(a :: u64) \<noteq> - 1 \<Longrightarrow> a < a + 1"
proof -
  assume "a \<noteq> - 1"
  then have "unat a \<noteq> unat (- 1 :: u64)"
    by (simp only: word_unat_eq_iff not_False_eq_True)
  then have "unat a + 1 < 2 ^ 64"
    using unat_less_64 [of a] by (simp add: unat_minus_one_64 del: unat_less_64)
  then show "a < a + 1"
    by (simp add: word_less_nat_alt unat_add_no_wrap)
qed

lemma unat_sub_le: "(b :: u64) \<le> a \<Longrightarrow> unat (a - b) = unat a - unat b"
  by (simp add: unat_sub)

lemma unat_max_u64: "unat (max a b :: u64) = max (unat a) (unat b)"
  by (simp add: max_def word_le_nat_alt)

lemma unat_min_u64: "unat (min a b :: u64) = min (unat a) (unat b)"
  by (simp add: min_def word_le_nat_alt)

subsection \<open>Bytes\<close>

definition le_bytes :: "u64 \<Rightarrow> bytes" where
  "le_bytes w = map (\<lambda>i. ucast (drop_bit (8 * i) w)) [0..<8]"

definition str_bytes :: "string \<Rightarrow> bytes" where
  "str_bytes s = map of_char s"

lemma length_le_bytes [simp]: "length (le_bytes w) = 8"
  by (simp add: le_bytes_def)

lemma le_bytes_inj: "le_bytes a = le_bytes b \<longleftrightarrow> a = b"
proof
  assume eq: "le_bytes a = le_bytes b"
  show "a = b"
  proof (rule bit_word_eqI)
    fix n
    assume n: "n < LENGTH(64)"
    define i where "i = n div 8"
    define j where "j = n mod 8"
    have i: "i < 8" and j: "j < 8" and nij: "n = 8 * i + j"
      using n by (auto simp: i_def j_def)
    from eq i have "(ucast (drop_bit (8 * i) a) :: u8) = ucast (drop_bit (8 * i) b)"
      unfolding le_bytes_def by (auto dest: map_eq_conv [THEN iffD1])
    then have "bit (ucast (drop_bit (8 * i) a) :: u8) j = bit (ucast (drop_bit (8 * i) b) :: u8) j"
      by simp
    with j n nij show "bit a n = bit b n"
      by (simp add: bit_ucast_iff bit_drop_bit_eq add.commute)
  qed
qed simp

lemma str_bytes_inj: "str_bytes a = str_bytes b \<longleftrightarrow> a = b"
proof -
  have "unat (of_char c :: u8) = of_char c" for c :: char
    by (simp add: unsigned_of_nat take_bit_eq_mod flip: of_nat_of_char [of c, where ?'a = u8])
  then have "inj (of_char :: char \<Rightarrow> u8)"
    by (metis injI of_char_eq_iff)
  then show ?thesis
    by (simp add: str_bytes_def)
qed

subsection \<open>Strings\<close>

text \<open>\<open>str::contains\<close>.\<close>

fun str_contains :: "string \<Rightarrow> string \<Rightarrow> bool" where
  "str_contains pat [] = (pat = [])"
| "str_contains pat (c # cs) = (take (length pat) (c # cs) = pat \<or> str_contains pat cs)"

lemma str_contains_iff: "str_contains pat s \<longleftrightarrow> (\<exists>u v. s = u @ pat @ v)"
proof
  show "str_contains pat s \<Longrightarrow> \<exists>u v. s = u @ pat @ v"
  proof (induction s)
    case (Cons c cs)
    then show ?case
    proof (cases "take (length pat) (c # cs) = pat")
      case True
      then have "c # cs = [] @ pat @ drop (length pat) (c # cs)"
        by (metis append_Nil append_take_drop_id)
      then show ?thesis
        by blast
    next
      case False
      with Cons show ?thesis
        by (metis append_Cons str_contains.simps(2))
    qed
  qed simp
next
  have "str_contains pat (pat @ v)" for v
    using append_eq_conv_conj [of pat v "pat @ v"] by (cases "pat @ v") auto
  moreover have "str_contains pat s \<Longrightarrow> str_contains pat (u @ s)" for u s
    by (induction u) auto
  ultimately show "\<exists>u v. s = u @ pat @ v \<Longrightarrow> str_contains pat s"
    by blast
qed

subsection \<open>Printing numbers\<close>

fun digits_of :: "nat \<Rightarrow> nat \<Rightarrow> string" where
  "digits_of b n =
     (if b < 2 \<or> n < b then [''0123456789abcdef'' ! n]
      else digits_of b (n div b) @ [''0123456789abcdef'' ! (n mod b)])"

declare digits_of.simps [simp del]

definition show_u64 :: "u64 \<Rightarrow> string" where
  "show_u64 w = digits_of 10 (unat w)"

definition hex_u64 :: "u64 \<Rightarrow> string" where
  "hex_u64 w = digits_of 16 (unat w)"

section \<open>Early returns\<close>

text \<open>\<open>on_ok r s k\<close>: the question mark on a computation that only reads the state \<open>s\<close>.\<close>

definition on_ok ::
  "'e + 'a \<Rightarrow> 's \<Rightarrow> ('a \<Rightarrow> ('e + 'b) \<times> 's) \<Rightarrow> ('e + 'b) \<times> 's" where
  "on_ok r s k = (case r of Inl e \<Rightarrow> (Inl e, s) | Inr x \<Rightarrow> k x)"

text \<open>\<open>and_then m k\<close>: the question mark on a computation that has changed the state.\<close>

definition and_then ::
  "('e + 'a) \<times> 's \<Rightarrow> ('a \<Rightarrow> 's \<Rightarrow> ('e + 'b) \<times> 's) \<Rightarrow> ('e + 'b) \<times> 's" where
  "and_then m k = (case m of (Inl e, s) \<Rightarrow> (Inl e, s) | (Inr x, s) \<Rightarrow> k x s)"

lemma on_ok_simps [simp]:
  "on_ok (Inl e) s k = (Inl e, s)"
  "on_ok (Inr x) s k = k x"
  by (simp_all add: on_ok_def)

lemma and_then_simps [simp]:
  "and_then (Inl e, s) k = (Inl e, s)"
  "and_then (Inr x, s) k = k x s"
  by (simp_all add: and_then_def)

lemma on_ok_split:
  "P (on_ok r s k) \<longleftrightarrow> (\<forall>e. r = Inl e \<longrightarrow> P (Inl e, s)) \<and> (\<forall>x. r = Inr x \<longrightarrow> P (k x))"
  by (cases r) auto

lemma and_then_split:
  "P (and_then m k) \<longleftrightarrow>
     (\<forall>e s. m = (Inl e, s) \<longrightarrow> P (Inl e, s)) \<and> (\<forall>x s. m = (Inr x, s) \<longrightarrow> P (k x s))"
  by (cases m; cases "fst m") auto

lemma on_ok_Inr_iff:
  "on_ok r s k = (Inr y, t) \<longleftrightarrow> (\<exists>x. r = Inr x \<and> k x = (Inr y, t))"
  by (cases r) auto

lemma and_then_Inr_iff:
  "and_then m k = (Inr y, t) \<longleftrightarrow> (\<exists>x s. m = (Inr x, s) \<and> k x s = (Inr y, t))"
  by (cases m; cases "fst m") auto

text \<open>A predicate on states that every path keeps, early returns included.\<close>

lemma on_ok_keeps [intro]:
  "P s \<Longrightarrow> (\<And>x. r = Inr x \<Longrightarrow> P (snd (k x))) \<Longrightarrow> P (snd (on_ok r s k))"
  by (cases r) auto

lemma and_then_keeps:
  "P (snd m) \<Longrightarrow> (\<And>x s. m = (Inr x, s) \<Longrightarrow> P s \<Longrightarrow> P (snd (k x s))) \<Longrightarrow> P (snd (and_then m k))"
  by (cases m; cases "fst m") auto

section \<open>Hash maps\<close>

type_synonym ('k, 'v) hmap = "('k \<times> 'v) list"

abbreviation hm_get :: "('k, 'v) hmap \<Rightarrow> 'k \<Rightarrow> 'v option" where
  "hm_get \<equiv> map_of"

abbreviation hm_insert :: "'k \<Rightarrow> 'v \<Rightarrow> ('k, 'v) hmap \<Rightarrow> ('k, 'v) hmap" where
  "hm_insert \<equiv> AList.update"

abbreviation hm_remove :: "'k \<Rightarrow> ('k, 'v) hmap \<Rightarrow> ('k, 'v) hmap" where
  "hm_remove \<equiv> AList.delete"

text \<open>In-place update of the value of a key, if the key is there (\<open>get_mut\<close>).\<close>

abbreviation hm_modify :: "'k \<Rightarrow> ('v \<Rightarrow> 'v) \<Rightarrow> ('k, 'v) hmap \<Rightarrow> ('k, 'v) hmap" where
  "hm_modify \<equiv> AList.map_entry"

abbreviation hm_ok :: "('k, 'v) hmap \<Rightarrow> bool" where
  "hm_ok m \<equiv> distinct (map fst m)"

abbreviation hm_has :: "('k, 'v) hmap \<Rightarrow> 'k \<Rightarrow> bool" where
  "hm_has m k \<equiv> map_of m k \<noteq> None"

lemma hm_get_modify [simp]:
  "hm_get (hm_modify k f m) = (hm_get m)(k := map_option f (hm_get m k))"
  by (auto simp: map_of_map_entry fun_eq_iff split: option.splits)

lemmas hm_get_insert [simp] = update_conv'
lemmas hm_get_remove [simp] = delete_conv'

lemma hm_ok_insert [simp]: "hm_ok m \<Longrightarrow> hm_ok (hm_insert k v m)"
  by (rule distinct_update)

lemma hm_ok_remove [simp]: "hm_ok m \<Longrightarrow> hm_ok (hm_remove k m)"
  by (rule distinct_delete)

lemma hm_ok_modify [simp]: "hm_ok m \<Longrightarrow> hm_ok (hm_modify k f m)"
  by (rule distinct_map_entry)

declare map_of_eq_Some_iff [simp del]

subsection \<open>The interface of a hash map, and what follows from it\<close>

text \<open>
  What the components rely on: lookups after an insertion or a removal, and that the entries
  an iteration yields are those a lookup finds, once each. Nothing is said about their order.
\<close>

locale hash_map =
  fixes get :: "'m \<Rightarrow> 'k \<Rightarrow> 'v option"
    and put :: "'k \<Rightarrow> 'v \<Rightarrow> 'm \<Rightarrow> 'm"
    and del :: "'k \<Rightarrow> 'm \<Rightarrow> 'm"
    and entries :: "'m \<Rightarrow> ('k \<times> 'v) list"
    and ok :: "'m \<Rightarrow> bool"
  assumes get_put: "get (put k v m) = (get m)(k := Some v)"
    and get_del: "get (del k m) = (get m)(k := None)"
    and ok_put: "ok m \<Longrightarrow> ok (put k v m)"
    and ok_del: "ok m \<Longrightarrow> ok (del k m)"
    and entries_get: "ok m \<Longrightarrow> (k, v) \<in> set (entries m) \<longleftrightarrow> get m k = Some v"
    and entries_once: "ok m \<Longrightarrow> distinct (map fst (entries m))"
begin

lemma entries_agree:
  assumes "ok m" and "ok m'" and "get m = get m'"
  shows "mset (entries m) = mset (entries m')"
proof -
  have "p \<in> set (entries m) \<longleftrightarrow> p \<in> set (entries m')" for p
    using assms by (cases p) (simp add: entries_get)
  then have "set (entries m) = set (entries m')"
    by blast
  then show ?thesis
    using assms by (metis distinct_map entries_once set_eq_iff_mset_eq_distinct)
qed

lemma dom_entries: "ok m \<Longrightarrow> dom (get m) = set (map fst (entries m))"
proof -
  assume ok: "ok m"
  have "dom (get m) = {k. \<exists>v. get m k = Some v}"
    by (simp add: dom_def)
  also have "\<dots> = {k. \<exists>v. (k, v) \<in> set (entries m)}"
    by (simp only: entries_get [OF ok])
  also have "\<dots> = set (map fst (entries m))"
    by (simp add: fst_eq_Domain Domain_unfold)
  finally show ?thesis .
qed

lemma finite_dom: "ok m \<Longrightarrow> finite (dom (get m))"
  by (simp add: dom_entries)

lemma sum_entries:
  fixes f :: "'k \<Rightarrow> 'v \<Rightarrow> 'n::comm_monoid_add"
  assumes "ok m"
  shows "(\<Sum>(k, v)\<leftarrow>entries m. f k v) = (\<Sum>k\<in>dom (get m). f k (the (get m k)))"
proof -
  have d: "distinct (map fst (entries m))" and inj: "inj_on fst (set (entries m))"
    using entries_once [OF assms] by (auto simp: distinct_map)
  have "(\<Sum>(k, v)\<leftarrow>entries m. f k v) = (\<Sum>p\<in>set (entries m). f (fst p) (snd p))"
    using d by (simp add: distinct_map sum_list_distinct_conv_sum_set case_prod_unfold)
  also have "\<dots> = (\<Sum>p\<in>set (entries m). f (fst p) (the (get m (fst p))))"
    by (rule sum.cong) (auto dest: entries_get [OF assms, THEN iffD1])
  also have "\<dots> = (\<Sum>k\<in>fst ` set (entries m). f k (the (get m k)))"
    by (simp add: sum.reindex [OF inj])
  finally show ?thesis
    by (simp add: dom_entries [OF assms])
qed

lemma sum_put_new:
  fixes f :: "'v \<Rightarrow> 'n::comm_monoid_add"
  assumes "ok m" and "get m k = None"
  shows "(\<Sum>(k, v)\<leftarrow>entries (put k v m). f v) = (\<Sum>(k, v)\<leftarrow>entries m. f v) + f v"
proof -
  have k: "k \<notin> dom (get m)"
    using assms(2) by auto
  then have "(\<Sum>j\<in>dom (get m). f (the (get (put k v m) j))) = (\<Sum>j\<in>dom (get m). f (the (get m j)))"
    by (intro sum.cong) (auto simp: get_put)
  with k show ?thesis
    using sum_entries [OF assms(1), of "\<lambda>_. f"]
      sum_entries [OF ok_put [OF assms(1)], of "\<lambda>_. f" k v] finite_dom [OF assms(1)]
    by (simp add: get_put add.commute)
qed

lemma sum_put_old:
  fixes f :: "'v \<Rightarrow> 'n::comm_monoid_add"
  assumes "ok m" and "get m k = Some w"
  shows "(\<Sum>(k, v)\<leftarrow>entries (put k v m). f v) + f w = (\<Sum>(k, v)\<leftarrow>entries m. f v) + f v"
proof -
  define D where "D = dom (get m) - {k}"
  define g where "g = (\<lambda>j. f (the (get m j)))"
  have dom: "dom (get m) = insert k D" "finite D" "k \<notin> D"
    using assms finite_dom [OF assms(1)] by (auto simp: D_def)
  have "(\<Sum>j\<in>D. f (the (get (put k v m) j))) = sum g D"
    using dom(3) by (intro sum.cong) (auto simp: get_put g_def)
  then have new: "(\<Sum>j\<in>dom (get (put k v m)). f (the (get (put k v m) j))) = f v + sum g D"
    using dom by (simp add: get_put)
  have old: "sum g (dom (get m)) = f w + sum g D"
    using dom assms(2) by (simp add: g_def)
  show ?thesis
    using new old unfolding sum_entries [OF assms(1), of "\<lambda>_. f"]
      sum_entries [OF ok_put [OF assms(1)], of "\<lambda>_. f" k v] g_def
    by (simp add: add_ac)
qed

end

interpretation hm: hash_map map_of AList.update AList.delete id "\<lambda>m. distinct (map fst m)"
proof unfold_locales
  fix m :: "('k \<times> 'v) list" and k :: 'k and v :: 'v
  assume "distinct (map fst m)"
  then show "(k, v) \<in> set (id m) \<longleftrightarrow> map_of m k = Some v"
    by (simp add: map_of_eq_Some_iff)
qed simp_all

text \<open>The iteration order is the only freedom: same lookups, same entries up to order.\<close>

definition hm_eq :: "('k, 'v) hmap \<Rightarrow> ('k, 'v) hmap \<Rightarrow> bool" where
  "hm_eq m m' \<longleftrightarrow> hm_ok m \<and> hm_ok m' \<and> hm_get m = hm_get m'"

lemma hm_eq_mset: "hm_eq m m' \<Longrightarrow> mset m = mset m'"
  using hm.entries_agree [of m m'] by (simp add: hm_eq_def)

lemma hm_eq_length: "hm_eq m m' \<Longrightarrow> length m = length m'"
  by (metis hm_eq_mset size_mset)

lemma hm_eq_refl: "hm_ok m \<Longrightarrow> hm_eq m m"
  by (simp add: hm_eq_def)

lemma hm_eq_sym: "hm_eq m m' \<Longrightarrow> hm_eq m' m"
  by (simp add: hm_eq_def)

lemma hm_eq_trans: "hm_eq m m' \<Longrightarrow> hm_eq m' m'' \<Longrightarrow> hm_eq m m''"
  by (simp add: hm_eq_def)

lemma hm_eq_get: "hm_eq m m' \<Longrightarrow> hm_get m k = hm_get m' k"
  by (simp add: hm_eq_def)

lemma hm_eq_insert [intro]: "hm_eq m m' \<Longrightarrow> hm_eq (hm_insert k v m) (hm_insert k v m')"
  by (simp add: hm_eq_def)

lemma hm_eq_remove [intro]: "hm_eq m m' \<Longrightarrow> hm_eq (hm_remove k m) (hm_remove k m')"
  by (simp add: hm_eq_def)

lemma hm_eq_modify [intro]: "hm_eq m m' \<Longrightarrow> hm_eq (hm_modify k f m) (hm_modify k f m')"
  by (simp add: hm_eq_def)

lemma hm_modify_modify: "hm_modify k f (hm_modify k g m) = hm_modify k (f \<circ> g) m"
  by (induction m) auto

lemma hm_modify_insert: "hm_get m k = Some v \<Longrightarrow> hm_modify k f m = hm_insert k (f v) m"
  by (induction m) (auto split: if_splits)

lemma hm_modify_absent: "hm_get m k = None \<Longrightarrow> hm_modify k f m = m"
  by (induction m) (auto split: if_splits)

lemma dom_hm_modify: "dom (hm_get (hm_modify k f m)) = dom (hm_get m)"
  by (auto split: if_splits)

text \<open>Sums over the values of a map, and how an update moves them.\<close>

definition hm_sum :: "('v \<Rightarrow> 'n::comm_monoid_add) \<Rightarrow> ('k, 'v) hmap \<Rightarrow> 'n" where
  "hm_sum f m = (\<Sum>(k, v)\<leftarrow>m. f v)"

lemma hm_sum_insert_new:
  "hm_ok m \<Longrightarrow> hm_get m k = None \<Longrightarrow> hm_sum f (hm_insert k v m) = hm_sum f m + f v"
  using hm.sum_put_new [of m k f v] by (simp add: hm_sum_def)

lemma hm_sum_modify:
  "hm_ok m \<Longrightarrow> hm_get m k = Some v \<Longrightarrow> hm_sum f (hm_modify k g m) + f v = hm_sum f m + f (g v)"
  using hm.sum_put_old [of m k v f "g v"] by (simp add: hm_sum_def hm_modify_insert)

lemma hm_sum_member:
  fixes f :: "'v \<Rightarrow> nat"
  shows "hm_get m k = Some v \<Longrightarrow> f v \<le> hm_sum f m"
  by (induction m) (auto simp: hm_sum_def split: if_splits)

text \<open>Facts the proofs about the components share.\<close>

named_theorems net_steps \<open>record updates that the state changes of the network unfold to\<close>

section \<open>Iterators\<close>

text \<open>\<open>std::cmp::Reverse\<close>: the same value, ordered the other way round.\<close>

datatype 'a reverse = Reverse (unrev: 'a)

instantiation reverse :: (linorder) linorder
begin

definition less_eq_reverse :: "'a reverse \<Rightarrow> 'a reverse \<Rightarrow> bool" where
  "less_eq_reverse a b \<longleftrightarrow> unrev b \<le> unrev a"

definition less_reverse :: "'a reverse \<Rightarrow> 'a reverse \<Rightarrow> bool" where
  "less_reverse a b \<longleftrightarrow> unrev b < unrev a"

instance
  by standard (auto simp: less_eq_reverse_def less_reverse_def intro: reverse.expand)

end

lemma Reverse_le [simp]: "Reverse a \<le> Reverse b \<longleftrightarrow> b \<le> a"
  by (simp add: less_eq_reverse_def)

lemma Reverse_less [simp]: "Reverse a < Reverse b \<longleftrightarrow> b < a"
  by (simp add: less_reverse_def)

text \<open>\<open>Iterator::max_by_key\<close> returns the last of several maximal elements.\<close>

fun max_from :: "('a \<Rightarrow> 'k::linorder) \<Rightarrow> 'a \<Rightarrow> 'a list \<Rightarrow> 'a" where
  "max_from f best [] = best"
| "max_from f best (x # xs) = max_from f (if f best \<le> f x then x else best) xs"

fun max_by_key :: "('a \<Rightarrow> 'k::linorder) \<Rightarrow> 'a list \<Rightarrow> 'a option" where
  "max_by_key f [] = None"
| "max_by_key f (x # xs) = Some (max_from f x xs)"

lemma max_from_max:
  "max_from f b xs \<in> set (b # xs) \<and> (\<forall>y\<in>set (b # xs). f y \<le> f (max_from f b xs))"
proof (induction f b xs rule: max_from.induct)
  case (2 f best x xs)
  then show ?case
    by (auto split: if_splits)
qed simp

lemma max_by_key_Some:
  "max_by_key f xs = Some m \<Longrightarrow> m \<in> set xs \<and> (\<forall>y\<in>set xs. f y \<le> f m)"
  using max_from_max [of f "hd xs" "tl xs"] by (cases xs) auto

lemma max_by_key_None_iff: "max_by_key f xs = None \<longleftrightarrow> xs = []"
  by (cases xs) auto

end
