(* ===== verification/Model.thy ===== *)
theory Model
  imports Prelude
begin

text \<open>
  The domain data: participants, projects, tasks with their status and reports
  (src/src/model.rs), the encrypted blob a report may carry (src/src/identity.rs) and the
  operations of the replicated log (src/src/ops.rs). Structs are records, enums datatypes with
  the constructors of the source; a record field carries a short prefix where several structs
  share a field name.
\<close>

type_synonym participant_id = u64
type_synonym project_id = u64
type_synonym task_id = u64

section \<open>Encrypted results\<close>

record encrypted_blob =
  ephemeral_pubkey :: bytes32
  blob_nonce :: bytes
  ciphertext :: bytes

section \<open>Participants\<close>

record participant =
  p_id :: participant_id
  p_name :: string
  reputation :: u64
  public_key :: "bytes32 option"

definition participant_new :: "participant_id \<Rightarrow> string \<Rightarrow> participant" where
  "participant_new i nm = \<lparr>p_id = i, p_name = nm, reputation = 1, public_key = None\<rparr>"

definition with_public_key :: "bytes32 \<Rightarrow> participant \<Rightarrow> participant" where
  "with_public_key key p = p\<lparr>public_key := Some key\<rparr>"

section \<open>Projects\<close>

record project =
  pr_id :: project_id
  owner_id :: participant_id
  pr_name :: string
  quota_available :: u64
  quota_locked :: u64
  owner_encryption_pubkey :: "bytes32 option"

definition project_new :: "project_id \<Rightarrow> participant_id \<Rightarrow> string \<Rightarrow> project" where
  "project_new i owner nm =
     \<lparr>pr_id = i, owner_id = owner, pr_name = nm, quota_available = 0, quota_locked = 0,
      owner_encryption_pubkey = None\<rparr>"

definition with_encryption_pubkey :: "bytes32 \<Rightarrow> project \<Rightarrow> project" where
  "with_encryption_pubkey key p = p\<lparr>owner_encryption_pubkey := Some key\<rparr>"

definition priority_score :: "project \<Rightarrow> u64" where
  "priority_score p = quota_available p + quota_locked p"

section \<open>Tasks\<close>

datatype task_status =
    Pending
  | Assigned participant_id u64 \<comment> \<open>worker, tick at which the lease expires\<close>
  | Completed string "participant_id list" \<comment> \<open>accepted digest, rewarded workers\<close>
  | QuotaExhausted string "participant_id list" \<comment> \<open>accepted digest, reporting workers\<close>
  | Rejected

record task_report =
  report_worker :: participant_id
  result_digest :: string
  actual_cost :: u64
  report_encrypted :: "encrypted_blob option"

record task =
  t_id :: task_id
  t_project :: project_id
  t_reward :: u64
  t_payload :: string
  weight_required :: u64
  max_reports :: usize
  t_reports :: "task_report list"
  t_status :: task_status
  t_encrypted :: "encrypted_blob option"

definition task_new ::
  "task_id \<Rightarrow> project_id \<Rightarrow> u64 \<Rightarrow> string \<Rightarrow> u64 \<Rightarrow> usize \<Rightarrow> task" where
  "task_new i pid rew payload weight reps =
     \<lparr>t_id = i, t_project = pid, t_reward = rew, t_payload = payload,
      weight_required = weight, max_reports = reps, t_reports = [], t_status = Pending,
      t_encrypted = None\<rparr>"

definition is_assigned :: "task_status \<Rightarrow> bool" where
  "is_assigned st = (case st of Assigned _ _ \<Rightarrow> True | _ \<Rightarrow> False)"

lemma is_assigned_simps [simp]:
  "\<not> is_assigned Pending" "is_assigned (Assigned w e)" "\<not> is_assigned (Completed d ws)"
  "\<not> is_assigned (QuotaExhausted d ws)" "\<not> is_assigned Rejected"
  by (simp_all add: is_assigned_def)

lemma is_assigned_iff: "is_assigned st \<longleftrightarrow> (\<exists>w e. st = Assigned w e)"
  by (cases st) auto

section \<open>The operations of the replicated log\<close>

datatype ledger_op =
    RegisterParticipant participant_id string bytes32 u64
      \<comment> \<open>id, name, public key, initial balance\<close>
  | CreateProject participant_id string "bytes32 option"
  | TransferOp participant_id participant_id u64 string \<comment> \<open>from, to, amount, memo\<close>
  | FundProject participant_id project_id u64
  | DonateToProject participant_id project_id u64
  | SubmitTask participant_id project_id u64 string \<comment> \<open>owner, project, reward, payload\<close>
  | RequestTask participant_id u64 \<comment> \<open>worker, nonce\<close>
  | SubmitResult participant_id task_id string u64 "encrypted_blob option"
      \<comment> \<open>worker, task, digest, actual cost, encrypted result\<close>
  | Tick u64

end
