(* ===== verification/Blockchain.thy ===== *)
theory Blockchain
  imports Model
begin

text \<open>
  The token ledger (src/src/blockchain.rs): transactions and their byte encoding, blocks that
  commit to everything but their vote certificate, the chain with its two ways of appending,
  balances and the integrity check.

  SHA-256 is the crate sha2: a parameter \<open>H\<close> from bytes to bytes, of which nothing is assumed
  except where a theorem says so. Feeding a hasher piece by piece hashes the concatenation.
\<close>

type_synonym address = u64
type_synonym hash_fun = "bytes \<Rightarrow> bytes"

section \<open>Transactions\<close>

datatype transaction =
    Mint address u64 \<comment> \<open>to, amount\<close>
  | Transfer address address u64 string \<comment> \<open>from, to, amount, memo\<close>
  | Burn address u64 \<comment> \<open>from, amount\<close>

fun tx_serialize :: "transaction \<Rightarrow> bytes" where
  "tx_serialize (Mint to amount) = [0] @ le_bytes to @ le_bytes amount"
| "tx_serialize (Transfer from to amount memo) =
     [1] @ le_bytes from @ le_bytes to @ le_bytes amount @ str_bytes memo"
| "tx_serialize (Burn from amount) = [2] @ le_bytes from @ le_bytes amount"

section \<open>Blocks\<close>

record block_vote =
  voter :: bytes32
  signature :: bytes

record block =
  b_index :: u64
  b_tick :: u64
  b_prev_hash :: bytes32
  b_transactions :: "transaction list"
  b_proposer :: bytes32
  b_hash :: bytes32
  b_votes :: "block_vote list"

text \<open>The bytes a block hash is computed from.\<close>

definition block_preimage ::
  "u64 \<Rightarrow> u64 \<Rightarrow> bytes32 \<Rightarrow> transaction list \<Rightarrow> bytes32 \<Rightarrow> bytes" where
  "block_preimage index tick prev txs proposer =
     le_bytes index @ le_bytes tick @ prev @ concat (map tx_serialize txs) @ proposer"

definition compute_hash ::
  "hash_fun \<Rightarrow> u64 \<Rightarrow> u64 \<Rightarrow> bytes32 \<Rightarrow> transaction list \<Rightarrow> bytes32 \<Rightarrow> bytes32" where
  "compute_hash H index tick prev txs proposer = H (block_preimage index tick prev txs proposer)"

definition block_proposed ::
  "hash_fun \<Rightarrow> u64 \<Rightarrow> u64 \<Rightarrow> bytes32 \<Rightarrow> transaction list \<Rightarrow> bytes32 \<Rightarrow> block" where
  "block_proposed H index tick prev txs proposer =
     \<lparr>b_index = index, b_tick = tick, b_prev_hash = prev, b_transactions = txs,
      b_proposer = proposer, b_hash = compute_hash H index tick prev txs proposer,
      b_votes = []\<rparr>"

definition block_new ::
  "hash_fun \<Rightarrow> u64 \<Rightarrow> u64 \<Rightarrow> bytes32 \<Rightarrow> transaction list \<Rightarrow> block" where
  "block_new H index tick prev txs = block_proposed H index tick prev txs zero32"

section \<open>The chain\<close>

type_synonym blockchain = "block list"

definition blockchain_new :: "hash_fun \<Rightarrow> blockchain" where
  "blockchain_new H = [block_new H 0 0 zero32 []]"

definition head_hash :: "blockchain \<Rightarrow> bytes32" where
  "head_hash bc = (if bc = [] then zero32 else b_hash (last bc))"

definition next_index :: "blockchain \<Rightarrow> u64" where
  "next_index bc = usize_of (length bc)"

definition commit_block ::
  "hash_fun \<Rightarrow> u64 \<Rightarrow> transaction list \<Rightarrow> blockchain \<Rightarrow> blockchain" where
  "commit_block H tick txs bc =
     bc @ [block_new H (usize_of (length bc)) tick
             (if bc = [] then zero32 else b_hash (last bc)) txs]"

text \<open>The error is the message of the source.\<close>

definition append_committed ::
  "hash_fun \<Rightarrow> block \<Rightarrow> blockchain \<Rightarrow> (string + unit) \<times> blockchain" where
  "append_committed H b bc =
     (if b_index b \<noteq> next_index bc then (Inl ''unexpected block index'', bc)
      else if b_prev_hash b \<noteq> head_hash bc
        then (Inl ''prev_hash does not match chain head'', bc)
      else if b_hash b \<noteq> compute_hash H (b_index b) (b_tick b) (b_prev_hash b)
                           (b_transactions b) (b_proposer b)
        then (Inl ''block hash mismatch'', bc)
      else (Inr (), bc @ [b]))"

section \<open>Balances\<close>

text \<open>
  One arm of the match in \<open>balance_of\<close>. The accumulator of the source is an i128: the sum of
  fewer than \<open>2 ^ 63\<close> amounts of 64 bits, which no i128 overflows, hence an integer here.
\<close>

fun tx_balance :: "address \<Rightarrow> int \<Rightarrow> transaction \<Rightarrow> int" where
  "tx_balance a bal (Mint to amount) = (if to = a then bal + uint amount else bal)"
| "tx_balance a bal (Transfer from to amount memo) =
     (let bal = (if from = a then bal - uint amount else bal)
      in if to = a then bal + uint amount else bal)"
| "tx_balance a bal (Burn from amount) = (if from = a then bal - uint amount else bal)"

definition raw_balance :: "blockchain \<Rightarrow> address \<Rightarrow> int" where
  "raw_balance bc a = foldl (\<lambda>bal b. foldl (tx_balance a) bal (b_transactions b)) 0 bc"

definition balance_of :: "blockchain \<Rightarrow> address \<Rightarrow> u64" where
  "balance_of bc a = word_of_int (max (raw_balance bc a) 0)"

section \<open>Integrity and history\<close>

definition block_sound :: "hash_fun \<Rightarrow> bytes32 \<Rightarrow> block \<Rightarrow> bool" where
  "block_sound H expected_prev b \<longleftrightarrow>
     b_hash b = compute_hash H (b_index b) (b_tick b) (b_prev_hash b) (b_transactions b)
                  (b_proposer b)
     \<and> b_prev_hash b = expected_prev"

fun verify_from :: "hash_fun \<Rightarrow> bytes32 \<Rightarrow> block list \<Rightarrow> bool" where
  "verify_from H expected_prev [] = True"
| "verify_from H expected_prev (b # bs) =
     (block_sound H expected_prev b \<and> verify_from H (b_hash b) bs)"

definition verify_integrity :: "hash_fun \<Rightarrow> blockchain \<Rightarrow> bool" where
  "verify_integrity H bc = verify_from H zero32 bc"

fun tx_concerns :: "address \<Rightarrow> transaction \<Rightarrow> bool" where
  "tx_concerns a (Mint to _) = (to = a)"
| "tx_concerns a (Transfer from to _ _) = (from = a \<or> to = a)"
| "tx_concerns a (Burn from _) = (from = a)"

definition history_for :: "blockchain \<Rightarrow> address \<Rightarrow> transaction list" where
  "history_for bc a = filter (tx_concerns a) (concat (map b_transactions bc))"

section \<open>Lemmas: encoding\<close>

text \<open>The encoding of one transaction determines it; that of a list need not, see below.\<close>

text \<open>The byte encoding of a single transaction is injective: the tag byte separates the
  kinds and the fields have fixed widths, so two different transactions never encode to the
  same bytes.\<close>

theorem tx_serialize_inj: "tx_serialize a = tx_serialize b \<longleftrightarrow> a = b"
  by (cases a; cases b) (auto simp: le_bytes_inj str_bytes_inj)

text \<open>A block hash does not commit to where one transaction ends and the next begins: the
  memo of a transfer is the only variable-length field and carries no length, so a transfer
  whose memo ends in the bytes of another transaction hashes like the two transactions, for
  every hash function. The two transaction lists move different amounts.\<close>

theorem memo_swallows_transaction:
  assumes "str_bytes suffix = tx_serialize tx"
  shows "compute_hash H i t prev [Transfer f to amount (memo @ suffix)] q =
         compute_hash H i t prev [Transfer f to amount memo, tx] q"
  using assms by (simp add: compute_hash_def block_preimage_def str_bytes_def)

theorem memo_swallows_transaction_witness:
  "let suffix = map char_of (0 # [5, 0, 0, 0, 0, 0, 0, 0] @ [7, 0, 0, 0, 0, 0, 0, 0 :: nat])
   in compute_hash id 1 0 zero32 [Transfer 1 2 3 (''pay'' @ suffix)] zero32 =
      compute_hash id 1 0 zero32 [Transfer 1 2 3 ''pay'', Mint 5 7] zero32"
  unfolding Let_def
  by (rule memo_swallows_transaction) code_simp

lemma block_preimage_eqD:
  assumes "block_preimage i t p txs q = block_preimage i' t' p' txs' q'"
    and "length p = 32" "length p' = 32" "length q = 32" "length q' = 32"
  shows "i = i' \<and> t = t' \<and> p = p' \<and> q = q'
           \<and> concat (map tx_serialize txs) = concat (map tx_serialize txs')"
  using assms by (auto simp: block_preimage_def le_bytes_inj)

section \<open>Lemmas: integrity\<close>

lemma block_new_fields [simp]:
  "b_index (block_new H i t p txs) = i" "b_tick (block_new H i t p txs) = t"
  "b_prev_hash (block_new H i t p txs) = p" "b_transactions (block_new H i t p txs) = txs"
  by (simp_all add: block_new_def block_proposed_def)

lemma block_sound_new [simp]: "block_sound H p (block_new H i t q txs) \<longleftrightarrow> q = p"
  by (auto simp: block_sound_def block_new_def block_proposed_def)

lemma verify_from_append:
  "verify_from H p (xs @ ys) \<longleftrightarrow>
     verify_from H p xs \<and> verify_from H (if xs = [] then p else b_hash (last xs)) ys"
  by (induction xs arbitrary: p) auto

lemma commit_block_eq:
  "commit_block H t txs bc = bc @ [block_new H (next_index bc) t (head_hash bc) txs]"
  by (simp add: commit_block_def next_index_def head_hash_def)

lemma verify_commit: "verify_integrity H (commit_block H t txs bc) = verify_integrity H bc"
  by (auto simp: verify_integrity_def commit_block_eq verify_from_append head_hash_def)

lemma verify_append_committed:
  "verify_integrity H bc \<Longrightarrow> verify_integrity H (snd (append_committed H b bc))"
  by (auto simp: verify_integrity_def append_committed_def verify_from_append head_hash_def
      block_sound_def)

lemma verify_new: "verify_integrity H (blockchain_new H)"
  by (simp add: verify_integrity_def blockchain_new_def)

text \<open>
  A ledger is grown from the genesis block by local commits and by appending blocks sealed
  elsewhere; every attempt counts, the refused ones too.
\<close>

datatype chain_event = Commit u64 "transaction list" | Append block

fun chain_step :: "hash_fun \<Rightarrow> chain_event \<Rightarrow> blockchain \<Rightarrow> blockchain" where
  "chain_step H (Commit t txs) bc = commit_block H t txs bc"
| "chain_step H (Append b) bc = snd (append_committed H b bc)"

definition chain_run :: "hash_fun \<Rightarrow> chain_event list \<Rightarrow> blockchain" where
  "chain_run H evs = fold (chain_step H) evs (blockchain_new H)"

definition indexed :: "blockchain \<Rightarrow> bool" where
  "indexed bc \<longleftrightarrow> map b_index bc = map usize_of [0..<length bc]"

lemma indexed_snoc: "indexed (bc @ [b]) \<longleftrightarrow> indexed bc \<and> b_index b = next_index bc"
  by (auto simp: indexed_def next_index_def)

lemma indexed_step: "indexed bc \<Longrightarrow> indexed (chain_step H ev bc)"
  by (cases ev) (auto simp: commit_block_eq append_committed_def indexed_snoc)

lemma chain_run_invariant:
  "verify_integrity H (fold (chain_step H) evs bc) \<and> indexed (fold (chain_step H) evs bc)
     \<and> length bc \<le> length (fold (chain_step H) evs bc)"
  if "verify_integrity H bc" "indexed bc" for bc
  using that
proof (induction evs arbitrary: bc)
  case (Cons ev evs)
  have "verify_integrity H (chain_step H ev bc)"
    using Cons.prems by (cases ev) (simp_all add: verify_commit verify_append_committed)
  moreover have "length bc \<le> length (chain_step H ev bc)"
    by (cases ev) (auto simp: commit_block_eq append_committed_def)
  ultimately show ?case
    using Cons.IH [of "chain_step H ev bc"] Cons.prems(2) by (fastforce simp: indexed_step)
qed simp

text \<open>C25: every chain grown from the genesis block, by any mix of local commits and attempts to
  append foreign blocks, passes the integrity check, numbers its blocks 0, 1, 2 and so on, and
  still has its genesis block.\<close>

theorem chain_always_sound:
  "verify_integrity H (chain_run H evs) \<and> indexed (chain_run H evs) \<and> 1 \<le> length (chain_run H evs)"
  using chain_run_invariant [where bc = "blockchain_new H"] verify_new
  by (auto simp: chain_run_def indexed_def blockchain_new_def usize_of_def)

text \<open>Append_committed accepts a block exactly when its index is the next one, it links to
  the head and its stored hash is the recomputed one; then the chain grows by this block, and
  otherwise the chain is left as it was.\<close>

theorem append_committed_spec:
  "(case append_committed H b bc of
      (Inr _, bc') \<Rightarrow> bc' = bc @ [b] \<and> b_index b = next_index bc \<and> block_sound H (head_hash bc) b
    | (Inl _, bc') \<Rightarrow> bc' = bc \<and>
        \<not> (b_index b = next_index bc \<and> block_sound H (head_hash bc) b))"
  by (auto simp: append_committed_def block_sound_def)

definition block_bytes :: "block \<Rightarrow> bytes" where
  "block_bytes b =
     block_preimage (b_index b) (b_tick b) (b_prev_hash b) (b_transactions b) (b_proposer b)"

definition same_content :: "block \<Rightarrow> block \<Rightarrow> bool" where
  "same_content b b' \<longleftrightarrow>
     b_index b = b_index b' \<and> b_tick b = b_tick b' \<and> b_prev_hash b = b_prev_hash b'
     \<and> b_proposer b = b_proposer b'
     \<and> concat (map tx_serialize (b_transactions b)) = concat (map tx_serialize (b_transactions b'))"

definition sized_block :: "block \<Rightarrow> bool" where
  "sized_block b \<longleftrightarrow>
     length (b_prev_hash b) = 32 \<and> length (b_proposer b) = 32 \<and> length (b_hash b) = 32"

lemma same_contentI:
  "block_bytes b = block_bytes b' \<Longrightarrow> sized_block b \<Longrightarrow> sized_block b' \<Longrightarrow> same_content b b'"
  using block_preimage_eqD [of "b_index b" "b_tick b" "b_prev_hash b" "b_transactions b"
      "b_proposer b" "b_index b'" "b_tick b'" "b_prev_hash b'" "b_transactions b'" "b_proposer b'"]
  by (simp add: block_bytes_def same_content_def sized_block_def)

lemma verify_from_snocD:
  assumes "verify_from H p (bs @ [b])"
  shows "verify_from H p bs" and "b_hash b = H (block_bytes b)"
    and "bs \<noteq> [] \<Longrightarrow> b_prev_hash b = b_hash (last bs)"
  using assms by (simp_all add: verify_from_append block_sound_def compute_hash_def block_bytes_def)

definition collision_free :: "hash_fun \<Rightarrow> bytes list \<Rightarrow> bool" where
  "collision_free H inputs \<longleftrightarrow> (\<forall>x\<in>set inputs. \<forall>y\<in>set inputs. H x = H y \<longrightarrow> x = y)"

lemma collision_freeD:
  "collision_free H inputs \<Longrightarrow> H x = H y \<Longrightarrow> x \<in> set inputs \<Longrightarrow> y \<in> set inputs \<Longrightarrow> x = y"
  by (simp add: collision_free_def)

lemma collision_free_subset:
  "collision_free H inputs \<Longrightarrow> set some_inputs \<subseteq> set inputs \<Longrightarrow> collision_free H some_inputs"
  unfolding collision_free_def by blast

lemma tamper_evident_from:
  assumes "verify_from H p c" and "verify_from H p d" and "length c = length d"
    and "c \<noteq> []" and "b_hash (last c) = b_hash (last d)"
    and "collision_free H (map block_bytes (c @ d))"
    and "list_all sized_block c" and "list_all sized_block d"
  shows "list_all2 same_content c d"
  using assms
proof (induction c arbitrary: d rule: rev_induct)
  case (snoc b c)
  then obtain d' b' where d: "d = d' @ [b']" and len: "length c = length d'"
    by (cases d rule: rev_cases) auto
  note c_last = verify_from_snocD [OF snoc.prems(1)]
  note d_last = verify_from_snocD [OF snoc.prems(2) [unfolded d]]
  have "H (block_bytes b) = H (block_bytes b')"
    using snoc.prems(5) c_last(2) d_last(2) d by simp
  then have "block_bytes b = block_bytes b'"
    by (rule collision_freeD [OF snoc.prems(6)]) (auto simp: d)
  then have same: "same_content b b'"
    using snoc.prems(7,8) d by (auto intro: same_contentI)
  show ?case
  proof (cases "c = []")
    case True
    with len d same show ?thesis by simp
  next
    case False
    with len have "d' \<noteq> []"
      by auto
    have heads: "b_hash (last c) = b_hash (last d')"
      using c_last(3) [OF False] d_last(3) [OF \<open>d' \<noteq> []\<close>] same by (simp add: same_content_def)
    have free: "collision_free H (map block_bytes (c @ d'))"
      by (rule collision_free_subset [OF snoc.prems(6)]) (auto simp: d)
    have "list_all2 same_content c d'"
      using snoc.prems(7,8) d by (intro snoc.IH [OF c_last(1) d_last(1) len False heads free]) auto
    with d same len show ?thesis
      by (simp add: list_all2_appendI)
  qed
qed simp


text \<open>A hash for concrete runs: 32 bytes that tell inputs of different length apart.\<close>

definition length_hash :: hash_fun where
  "length_hash bs = replicate 32 (of_nat (length bs))"


section \<open>Lemmas: balances\<close>

definition tx_delta :: "address \<Rightarrow> transaction \<Rightarrow> int" where
  "tx_delta a tx = tx_balance a 0 tx"

definition txs_delta :: "address \<Rightarrow> transaction list \<Rightarrow> int" where
  "txs_delta a txs = sum_list (map (tx_delta a) txs)"

lemma tx_delta_simps [simp]:
  "tx_delta a (Mint to amount) = (if to = a then uint amount else 0)"
  "tx_delta a (Transfer from to amount memo) =
     (if to = a then uint amount else 0) - (if from = a then uint amount else 0)"
  "tx_delta a (Burn from amount) = (if from = a then - uint amount else 0)"
  by (simp_all add: tx_delta_def)

lemma tx_balance_delta: "tx_balance a bal tx = bal + tx_delta a tx"
  by (cases tx) (auto simp: Let_def)

lemma txs_delta_simps [simp]:
  "txs_delta a [] = 0"
  "txs_delta a (tx # txs) = tx_delta a tx + txs_delta a txs"
  "txs_delta a (txs @ txs') = txs_delta a txs + txs_delta a txs'"
  by (simp_all add: txs_delta_def)

lemma foldl_tx_balance: "foldl (tx_balance a) bal txs = bal + txs_delta a txs"
  by (induction txs arbitrary: bal) (simp_all add: tx_balance_delta)

lemma raw_balance_eq: "raw_balance bc a = txs_delta a (concat (map b_transactions bc))"
proof -
  have "foldl (\<lambda>bal b. foldl (tx_balance a) bal (b_transactions b)) bal bc =
      bal + txs_delta a (concat (map b_transactions bc))" for bal
    by (induction bc arbitrary: bal) (simp_all add: foldl_tx_balance)
  then show ?thesis
    by (simp add: raw_balance_def)
qed

lemma raw_balance_new [simp]: "raw_balance (blockchain_new H) a = 0"
  by (simp add: raw_balance_eq blockchain_new_def)

lemma raw_balance_commit [simp]:
  "raw_balance (commit_block H t txs bc) a = raw_balance bc a + txs_delta a txs"
  by (simp add: raw_balance_eq commit_block_eq)

text \<open>
  What the network needs from a token ledger: posting transactions moves the exact balances by
  their sum, and the balance it may spend is the exact one cut off at zero and at 64 bits.
\<close>

locale token_ledger =
  fixes raw :: "'c \<Rightarrow> address \<Rightarrow> int"
    and spendable :: "'c \<Rightarrow> address \<Rightarrow> u64"
    and post :: "transaction list \<Rightarrow> 'c \<Rightarrow> 'c"
  assumes raw_post: "raw (post txs c) a = raw c a + txs_delta a txs"
    and spendable_raw: "spendable c a = word_of_int (max (raw c a) 0)"
begin

lemma spendable_le: "uint (spendable c a) \<le> max (raw c a) 0"
proof -
  have "uint (spendable c a) = take_bit 64 (max (raw c a) 0)"
    by (simp add: spendable_raw uint_word_of_int_eq)
  also have "\<dots> \<le> max (raw c a) 0"
    by (simp add: take_bit_int_less_eq_self_iff)
  finally show ?thesis .
qed

lemma spendable_exact: "0 \<le> raw c a \<Longrightarrow> raw c a < 2 ^ 64 \<Longrightarrow> uint (spendable c a) = raw c a"
  by (simp add: spendable_raw uint_word_of_int_eq take_bit_int_eq_self max_def)

lemma guarded_transfer:
  assumes "amount \<le> spendable c sender" and "0 \<le> raw c a"
  shows "0 \<le> raw (post [Transfer sender to amount memo] c) a"
proof -
  have "uint amount \<le> uint (spendable c sender)"
    using assms(1) by (simp add: word_le_def)
  then have "sender = a \<Longrightarrow> uint amount \<le> raw c a"
    using assms(2) spendable_le [of c sender] by auto
  then show ?thesis
    using assms(2) by (auto simp: raw_post)
qed

lemma guarded_burn:
  assumes "amount \<le> spendable c sender" and "0 \<le> raw c a"
  shows "0 \<le> raw (post [Burn sender amount] c) a"
proof -
  have "uint amount \<le> uint (spendable c sender)"
    using assms(1) by (simp add: word_le_def)
  then show ?thesis
    using assms(2) spendable_le [of c sender] by (auto simp: raw_post)
qed

end

interpretation ledger: token_ledger raw_balance balance_of "commit_block H t" for H t
  by unfold_locales (simp_all add: balance_of_def)

section \<open>Conservation of tokens\<close>

fun tx_minted :: "transaction \<Rightarrow> int" where
  "tx_minted (Mint _ amount) = uint amount"
| "tx_minted _ = 0"

fun tx_burned :: "transaction \<Rightarrow> int" where
  "tx_burned (Burn _ amount) = uint amount"
| "tx_burned _ = 0"

definition chain_txs :: "blockchain \<Rightarrow> transaction list" where
  "chain_txs bc = concat (map b_transactions bc)"

definition minted :: "blockchain \<Rightarrow> int" where
  "minted bc = sum_list (map tx_minted (chain_txs bc))"

definition burned :: "blockchain \<Rightarrow> int" where
  "burned bc = sum_list (map tx_burned (chain_txs bc))"

fun tx_accounts :: "transaction \<Rightarrow> address list" where
  "tx_accounts (Mint to _) = [to]"
| "tx_accounts (Transfer from to _ _) = [from, to]"
| "tx_accounts (Burn from _) = [from]"

definition accounts :: "blockchain \<Rightarrow> address list" where
  "accounts bc = remdups (concat (map tx_accounts (chain_txs bc)))"

lemma sum_tx_delta:
  assumes "finite A" and "set (tx_accounts tx) \<subseteq> A"
  shows "(\<Sum>a\<in>A. tx_delta a tx) = tx_minted tx - tx_burned tx"
  using assms
  by (cases tx) (simp_all add: sum_subtractf)

lemma sum_txs_delta:
  assumes "finite A" and "set (concat (map tx_accounts txs)) \<subseteq> A"
  shows "(\<Sum>a\<in>A. txs_delta a txs)
    = sum_list (map tx_minted txs) - sum_list (map tx_burned txs)"
  using assms(2)
  by (induction txs) (simp_all add: sum.distrib sum_tx_delta [OF assms(1)])


end
