(* ===== verification/Network.thy ===== *)
theory Network
  imports Blockchain
begin

text \<open>
  The replicated state machine (src/src/network.rs): participants, projects, tasks, the queue of
  pending tasks, the leases and the token ledger, and every operation on them. A method on
  \<open>&mut self\<close> takes the state as its last argument; one that returns a Result yields the error
  or the value together with the state reached, since an early return keeps earlier changes.
\<close>

section \<open>Configuration, errors and state\<close>

definition PROJECT_ID_OFFSET :: u64 where
  "PROJECT_ID_OFFSET = 1000000000"

definition project_address :: "project_id \<Rightarrow> address" where
  "project_address pid = pid + PROJECT_ID_OFFSET"

record network_config =
  lease_timeout_ticks :: u64
  consensus_quorum :: u64
  max_reports_per_task :: usize
  lease_slash :: u64
  reputation_reward :: u64
  reputation_penalty :: u64

definition default_config :: network_config where
  "default_config =
     \<lparr>lease_timeout_ticks = 3, consensus_quorum = 2, max_reports_per_task = 5,
      lease_slash = 1, reputation_reward = 1, reputation_penalty = 1\<rparr>"

datatype network_error =
    ParticipantNotFound participant_id
  | ProjectNotFound project_id
  | TaskNotFound task_id
  | NotEnoughBalance participant_id u64 u64 \<comment> \<open>participant, requested, available\<close>
  | NotEnoughProjectQuota project_id u64 u64 \<comment> \<open>project, requested, available\<close>
  | NotTaskOwner participant_id project_id
  | TaskNotAssignedToWorker task_id participant_id
  | NoPendingTasks

record task_lease =
  lease_worker :: participant_id
  expires_at_tick :: u64

record report_state =
  rs_reports :: "task_report list"
  rs_max_reports :: usize
  rs_weight_required :: u64

record network =
  participants :: "(participant_id, participant) hmap"
  projects :: "(project_id, project) hmap"
  tasks :: "(task_id, task) hmap"
  pending_tasks :: "task_id list"
  leases :: "(task_id, task_lease) hmap"
  current_tick :: u64
  config :: network_config
  next_participant_id :: participant_id
  next_project_id :: project_id
  next_task_id :: task_id
  chain :: blockchain

type_synonym 'a result = "(network_error + 'a) \<times> network"

definition with_config :: "hash_fun \<Rightarrow> network_config \<Rightarrow> network" where
  "with_config H cfg =
     \<lparr>participants = [], projects = [], tasks = [], pending_tasks = [], leases = [],
      current_tick = 0, config = cfg, next_participant_id = 1, next_project_id = 1,
      next_task_id = 1, chain = blockchain_new H\<rparr>"

definition network_default :: "hash_fun \<Rightarrow> network" where
  "network_default H = with_config H default_config"

definition set_config :: "network_config \<Rightarrow> network \<Rightarrow> network" where
  "set_config cfg n = n\<lparr>config := cfg\<rparr>"

section \<open>Lookups and guards\<close>

definition project_or_err :: "project_id \<Rightarrow> network \<Rightarrow> network_error + project" where
  "project_or_err pid n =
     (case hm_get (projects n) pid of None \<Rightarrow> Inl (ProjectNotFound pid) | Some p \<Rightarrow> Inr p)"

definition task_or_err :: "task_id \<Rightarrow> network \<Rightarrow> network_error + task" where
  "task_or_err tid n =
     (case hm_get (tasks n) tid of None \<Rightarrow> Inl (TaskNotFound tid) | Some t \<Rightarrow> Inr t)"

definition ensure_participant :: "participant_id \<Rightarrow> network \<Rightarrow> network_error + unit" where
  "ensure_participant i n =
     (if hm_has (participants n) i then Inr () else Inl (ParticipantNotFound i))"

definition ensure_project :: "project_id \<Rightarrow> network \<Rightarrow> network_error + unit" where
  "ensure_project pid n =
     (if hm_has (projects n) pid then Inr () else Inl (ProjectNotFound pid))"

definition ensure_project_owner ::
  "participant_id \<Rightarrow> project_id \<Rightarrow> network \<Rightarrow> network_error + unit" where
  "ensure_project_owner i pid n =
     (case project_or_err pid n of
        Inl e \<Rightarrow> Inl e
      | Inr p \<Rightarrow> if owner_id p = i then Inr () else Inl (NotTaskOwner i pid))"

definition lease_for_worker ::
  "participant_id \<Rightarrow> task_id \<Rightarrow> network \<Rightarrow> network_error + task_lease" where
  "lease_for_worker w tid n =
     (case hm_get (leases n) tid of
        None \<Rightarrow> Inl (TaskNotAssignedToWorker tid w)
      | Some l \<Rightarrow> if lease_worker l = w then Inr l else Inl (TaskNotAssignedToWorker tid w))"

definition find_participant_by_pubkey :: "bytes32 \<Rightarrow> network \<Rightarrow> participant_id option" where
  "find_participant_by_pubkey key n =
     map_option p_id (find (\<lambda>p. public_key p = Some key) (map snd (participants n)))"

definition completed_task_results ::
  "project_id \<Rightarrow> network \<Rightarrow> network_error + (task_id \<times> string) list" where
  "completed_task_results pid n =
     (case ensure_project pid n of
        Inl e \<Rightarrow> Inl e
      | Inr _ \<Rightarrow> Inr (sort_key fst
          (List.map_filter
             (\<lambda>(tid, t). if t_project t \<noteq> pid then None
                else case t_status t of Completed d _ \<Rightarrow> Some (tid, d) | _ \<Rightarrow> None)
             (tasks n))))"

definition network_balance_of :: "participant_id \<Rightarrow> network \<Rightarrow> u64" where
  "network_balance_of i n = balance_of (chain n) i"

definition pending_count :: "network \<Rightarrow> usize" where
  "pending_count n = usize_of (length (pending_tasks n))"

definition lease_count :: "network \<Rightarrow> usize" where
  "lease_count n = usize_of (length (leases n))"

section \<open>Ledger, quota and reputation updates\<close>

definition commit :: "hash_fun \<Rightarrow> transaction list \<Rightarrow> network \<Rightarrow> network" where
  "commit H txs n = n\<lparr>chain := commit_block H (current_tick n) txs (chain n)\<rparr>"

definition update_project ::
  "project_id \<Rightarrow> (project \<Rightarrow> project) \<Rightarrow> network \<Rightarrow> network" where
  "update_project pid f n = n\<lparr>projects := hm_modify pid f (projects n)\<rparr>"

definition update_task :: "task_id \<Rightarrow> (task \<Rightarrow> task) \<Rightarrow> network \<Rightarrow> network" where
  "update_task tid f n = n\<lparr>tasks := hm_modify tid f (tasks n)\<rparr>"

definition transfer_to_project ::
  "hash_fun \<Rightarrow> participant_id \<Rightarrow> project_id \<Rightarrow> u64 \<Rightarrow> network \<Rightarrow> network" where
  "transfer_to_project H supporter pid amount n =
     commit H [Transfer supporter (project_address pid) amount
                 (''fund:project='' @ show_u64 pid)] n"

definition reserve_project_quota ::
  "project_id \<Rightarrow> u64 \<Rightarrow> network \<Rightarrow> unit result" where
  "reserve_project_quota pid rew n =
     on_ok (project_or_err pid n) n (\<lambda>p.
       if quota_available p < rew
         then (Inl (NotEnoughProjectQuota pid rew (quota_available p)), n)
         else (Inr (), update_project pid
                 (\<lambda>p. p\<lparr>quota_available := quota_available p - rew,
                       quota_locked := quota_locked p + rew\<rparr>) n))"

definition release_locked_quota :: "project_id \<Rightarrow> u64 \<Rightarrow> network \<Rightarrow> unit result" where
  "release_locked_quota pid amount n =
     on_ok (project_or_err pid n) n (\<lambda>_.
       (Inr (), update_project pid
          (\<lambda>p. p\<lparr>quota_locked := sat_sub (quota_locked p) amount\<rparr>) n))"

text \<open>
  The argument \<open>delta\<close> is an i64: the word read as two's complement, its negation the word's.
\<close>

definition adjust_reputation :: "participant_id \<Rightarrow> u64 \<Rightarrow> network \<Rightarrow> network" where
  "adjust_reputation i delta n =
     n\<lparr>participants := hm_modify i
         (\<lambda>p. if 0 \<le> sint delta
              then p\<lparr>reputation := sat_add (reputation p) delta\<rparr>
              else p\<lparr>reputation := max (sat_sub (reputation p) (- delta)) 1\<rparr>)
         (participants n)\<rparr>"

definition set_participant_reputation ::
  "participant_id \<Rightarrow> u64 \<Rightarrow> network \<Rightarrow> unit result" where
  "set_participant_reputation i rep n =
     (case hm_get (participants n) i of
        None \<Rightarrow> (Inl (ParticipantNotFound i), n)
      | Some _ \<Rightarrow> (Inr (), n\<lparr>participants :=
          hm_modify i (\<lambda>p. p\<lparr>reputation := max rep 1\<rparr>) (participants n)\<rparr>))"

definition enqueue_pending :: "task_id \<Rightarrow> network \<Rightarrow> network" where
  "enqueue_pending tid n =
     (if tid \<in> set (pending_tasks n) then n
      else n\<lparr>pending_tasks := pending_tasks n @ [tid]\<rparr>)"

section \<open>Registration, projects and transfers\<close>

definition new_participant ::
  "participant_id \<Rightarrow> string \<Rightarrow> bytes32 option \<Rightarrow> participant" where
  "new_participant i nm key =
     (case key of
        None \<Rightarrow> participant_new i nm
      | Some k \<Rightarrow> with_public_key k (participant_new i nm))"

definition register_participant ::
  "hash_fun \<Rightarrow> string \<Rightarrow> u64 \<Rightarrow> bytes32 option \<Rightarrow> network \<Rightarrow> participant_id \<times> network" where
  "register_participant H nm initial_balance key n =
     (let i = next_participant_id n;
          n = n\<lparr>next_participant_id := i + 1\<rparr>;
          n = n\<lparr>participants := hm_insert i (new_participant i nm key) (participants n)\<rparr>;
          n = (if 0 < initial_balance then commit H [Mint i initial_balance] n else n)
      in (i, n))"

definition register_participant_with_id ::
  "hash_fun \<Rightarrow> participant_id \<Rightarrow> string \<Rightarrow> u64 \<Rightarrow> bytes32 option \<Rightarrow> network \<Rightarrow> network" where
  "register_participant_with_id H i nm initial_balance key n =
     (if hm_has (participants n) i then n
      else
        let n = n\<lparr>participants := hm_insert i (new_participant i nm key) (participants n)\<rparr>;
            n = n\<lparr>next_participant_id := max (next_participant_id n) (i + 1)\<rparr>
        in if 0 < initial_balance then commit H [Mint i initial_balance] n else n)"

definition create_project ::
  "participant_id \<Rightarrow> string \<Rightarrow> bytes32 option \<Rightarrow> network \<Rightarrow> project_id result" where
  "create_project owner nm key n =
     on_ok (ensure_participant owner n) n (\<lambda>_.
       let pid = next_project_id n;
           n = n\<lparr>next_project_id := pid + 1\<rparr>;
           p = project_new pid owner nm;
           p = (case key of None \<Rightarrow> p | Some k \<Rightarrow> with_encryption_pubkey k p)
       in (Inr pid, n\<lparr>projects := hm_insert pid p (projects n)\<rparr>))"

definition donate_to_project ::
  "hash_fun \<Rightarrow> participant_id \<Rightarrow> project_id \<Rightarrow> u64 \<Rightarrow> network \<Rightarrow> unit result" where
  "donate_to_project H supporter pid amount n =
     on_ok (ensure_participant supporter n) n (\<lambda>_.
     on_ok (project_or_err pid n) n (\<lambda>_.
       let available = balance_of (chain n) supporter
       in if available < amount
          then (Inl (NotEnoughBalance supporter amount available), n)
          else let n = transfer_to_project H supporter pid amount n
               in on_ok (project_or_err pid n) n (\<lambda>_.
                    (Inr (), update_project pid
                       (\<lambda>p. p\<lparr>quota_available := quota_available p + amount\<rparr>) n))))"

definition transfer ::
  "hash_fun \<Rightarrow> participant_id \<Rightarrow> participant_id \<Rightarrow> u64 \<Rightarrow> string \<Rightarrow> network \<Rightarrow> unit result" where
  "transfer H from to amount memo n =
     (let available = balance_of (chain n) from
      in if available < amount
         then (Inl (NotEnoughBalance from amount available), n)
         else (Inr (), commit H [Transfer from to amount memo] n))"

definition fund_project_from_owner ::
  "hash_fun \<Rightarrow> participant_id \<Rightarrow> project_id \<Rightarrow> u64 \<Rightarrow> network \<Rightarrow> unit result" where
  "fund_project_from_owner H owner pid amount n =
     on_ok (ensure_project_owner owner pid n) n (\<lambda>_. donate_to_project H owner pid amount n)"

section \<open>Rewards\<close>

text \<open>The first entry of a winner in the reward list gets one more unit.\<close>

fun bump_share ::
  "participant_id \<Rightarrow> (participant_id \<times> u64) list \<Rightarrow> (participant_id \<times> u64) list option" where
  "bump_share w [] = None"
| "bump_share w ((i, share) # txs) =
     (if i = w then Some ((i, share + 1) # txs)
      else map_option (Cons (i, share)) (bump_share w txs))"

fun give_remainder ::
  "(participant_id \<times> u64) list \<Rightarrow> u64 \<Rightarrow> (participant_id \<times> u64) list
     \<Rightarrow> (participant_id \<times> u64) list" where
  "give_remainder [] remainder txs = txs"
| "give_remainder ((w, _) # ws) remainder txs =
     (if remainder = 0 then txs
      else case bump_share w txs of
             Some txs' \<Rightarrow> give_remainder ws (remainder - 1) txs'
           | None \<Rightarrow> give_remainder ws remainder txs)"

definition distribute_reward ::
  "u64 \<Rightarrow> u64 \<Rightarrow> (participant_id \<times> u64) list \<Rightarrow> (participant_id \<times> u64) list" where
  "distribute_reward task_reward total_weight winners =
     (let reward_txs = map (\<lambda>(w, weight). (w, sat_mul task_reward weight div total_weight)) winners;
          distributed = sum_list (map snd reward_txs);
          remainder = sat_sub task_reward distributed
      in give_remainder (sort_key (\<lambda>(_, weight). Reverse weight) winners) remainder reward_txs)"

definition is_budget_exhausted_digest :: "string \<Rightarrow> bool" where
  "is_budget_exhausted_digest d = str_contains ''-budget-exhausted-'' d"

definition worker_weight :: "network \<Rightarrow> participant_id \<Rightarrow> u64" where
  "worker_weight n w =
     (case hm_get (participants n) w of None \<Rightarrow> 1 | Some p \<Rightarrow> max (reputation p) 1)"

section \<open>Completion of a task\<close>

definition reject_task :: "task_id \<Rightarrow> network \<Rightarrow> unit result" where
  "reject_task tid n =
     on_ok (task_or_err tid n) n (\<lambda>t.
     and_then (release_locked_quota (t_project t) (t_reward t) n) (\<lambda>_ n.
     on_ok (project_or_err (t_project t) n) n (\<lambda>_.
       let n = update_project (t_project t)
                 (\<lambda>p. p\<lparr>quota_available := quota_available p + t_reward t\<rparr>) n;
           n = fold (\<lambda>r. adjust_reputation (report_worker r) (- reputation_penalty (config n)))
                 (t_reports t) n
       in on_ok (task_or_err tid n) n (\<lambda>_.
            (Inr (), update_task tid (\<lambda>t. t\<lparr>t_status := Rejected\<rparr>) n)))))"

definition finalize_budget_exhausted_task ::
  "hash_fun \<Rightarrow> task_id \<Rightarrow> project_id \<Rightarrow> u64 \<Rightarrow> string \<Rightarrow> participant_id list
     \<Rightarrow> encrypted_blob option \<Rightarrow> network \<Rightarrow> unit result" where
  "finalize_budget_exhausted_task H tid pid task_reward digest workers enc n =
     and_then (release_locked_quota pid task_reward n) (\<lambda>_ n.
       let n = (if 0 < task_reward
                then commit H [Burn (project_address pid) task_reward] n else n)
       in on_ok (task_or_err tid n) n (\<lambda>_.
            (Inr (), update_task tid
               (\<lambda>t. t\<lparr>t_status := QuotaExhausted digest workers, t_encrypted := enc\<rparr>) n)))"

text \<open>The reward transactions of a finalised task: shares of zero are left out.\<close>

definition reward_transactions ::
  "project_id \<Rightarrow> task_id \<Rightarrow> (participant_id \<times> u64) list \<Rightarrow> transaction list" where
  "reward_transactions pid tid reward_txs =
     map (\<lambda>(w, share). Transfer (project_address pid) w share (''reward:task='' @ show_u64 tid))
       (filter (\<lambda>(_, share). 0 < share) reward_txs)"

definition finalize_task :: "hash_fun \<Rightarrow> task_id \<Rightarrow> string \<Rightarrow> network \<Rightarrow> unit result" where
  "finalize_task H tid digest n =
     on_ok (task_or_err tid n) n (\<lambda>t.
     let reports = t_reports t;
         pid = t_project t;
         rewarded = map report_worker (filter (\<lambda>r. result_digest r = digest) reports);
         enc = Option.bind
           (find (\<lambda>r. result_digest r = digest \<and> report_encrypted r \<noteq> None) reports)
           report_encrypted
     in if rewarded = [] then reject_task tid n
        else if is_budget_exhausted_digest digest
          then finalize_budget_exhausted_task H tid pid (t_reward t) digest rewarded enc n
        else and_then (release_locked_quota pid (t_reward t) n) (\<lambda>_ n.
          let winners = map (\<lambda>w. (w, worker_weight n w)) rewarded;
              total_weight = sum_list (map snd winners)
          in if total_weight = 0 then reject_task tid n
             else
               let txs = reward_transactions pid tid
                           (distribute_reward (t_reward t) total_weight winners);
                   n = (if txs = [] then n else commit H txs n);
                   n = fold (\<lambda>w. adjust_reputation w (reputation_reward (config n))) rewarded n;
                   n = fold (\<lambda>r. adjust_reputation (report_worker r)
                                    (- reputation_penalty (config n)))
                         (filter (\<lambda>r. result_digest r \<noteq> digest) reports) n
               in on_ok (task_or_err tid n) n (\<lambda>_.
                    (Inr (), update_task tid
                       (\<lambda>t. t\<lparr>t_status := Completed digest rewarded, t_encrypted := enc\<rparr>) n))))"

section \<open>Leases\<close>

text \<open>
  One round of the loop over the expired leases: the lease goes, an assigned task returns to
  the queue, its worker loses reputation and at most its balance. The slashes are gathered and
  committed in one block after the loop.
\<close>

definition reclaim_one :: "task_id \<Rightarrow> network \<times> transaction list \<Rightarrow> network \<times> transaction list"
  where
  "reclaim_one tid = (\<lambda>(n, txs).
     let lost_lease = hm_get (leases n) tid;
         n = n\<lparr>leases := hm_remove tid (leases n)\<rparr>;
         was_assigned = (case hm_get (tasks n) tid of
                           None \<Rightarrow> False | Some t \<Rightarrow> is_assigned (t_status t))
     in if was_assigned then
          case lost_lease of
            None \<Rightarrow>
              (enqueue_pending tid (update_task tid (\<lambda>t. t\<lparr>t_status := Pending\<rparr>) n), txs)
          | Some l \<Rightarrow>
              let n = adjust_reputation (lease_worker l) (- reputation_penalty (config n)) n;
                  slash = min (lease_slash (config n)) (balance_of (chain n) (lease_worker l))
              in (enqueue_pending tid (update_task tid (\<lambda>t. t\<lparr>t_status := Pending\<rparr>) n),
                  if 0 < slash then txs @ [Burn (lease_worker l) slash] else txs)
        else (n, txs))"

definition expired_leases :: "network \<Rightarrow> task_id list" where
  "expired_leases n =
     sort (map fst (filter (\<lambda>(_, l). expires_at_tick l \<le> current_tick n) (leases n)))"

definition reclaim_expired_leases :: "hash_fun \<Rightarrow> network \<Rightarrow> network" where
  "reclaim_expired_leases H n =
     (let (n, slash_txs) = fold reclaim_one (expired_leases n) (n, [])
      in if slash_txs = [] then n else commit H slash_txs n)"

definition tick :: "hash_fun \<Rightarrow> u64 \<Rightarrow> network \<Rightarrow> network" where
  "tick H ticks n =
     reclaim_expired_leases H (n\<lparr>current_tick := sat_add (current_tick n) ticks\<rparr>)"

section \<open>Scheduling\<close>

definition worker_can_take_task :: "network \<Rightarrow> participant_id \<Rightarrow> task_id \<Rightarrow> bool" where
  "worker_can_take_task n w tid =
     (case hm_get (tasks n) tid of
        None \<Rightarrow> False
      | Some t \<Rightarrow> t_status t = Pending \<and> (\<forall>r\<in>set (t_reports t). report_worker r \<noteq> w))"

definition task_priority_key :: "network \<Rightarrow> task_id \<Rightarrow> u64 \<times> task_id reverse" where
  "task_priority_key n tid =
     (case Option.bind (hm_get (tasks n) tid) (\<lambda>t. hm_get (projects n) (t_project t)) of
        None \<Rightarrow> (0, Reverse (- 1))
      | Some p \<Rightarrow> (priority_score p, Reverse tid))"

definition take_next_task_for :: "participant_id \<Rightarrow> network \<Rightarrow> task_id result" where
  "take_next_task_for w n =
     (case max_by_key (task_priority_key n) (filter (worker_can_take_task n w) (pending_tasks n)) of
        None \<Rightarrow> (Inl NoPendingTasks, n)
      | Some tid \<Rightarrow> (Inr tid, n\<lparr>pending_tasks := filter (\<lambda>i. i \<noteq> tid) (pending_tasks n)\<rparr>))"

definition assign_task :: "participant_id \<Rightarrow> task_id \<Rightarrow> network \<Rightarrow> task result" where
  "assign_task w tid n =
     (let expiry = current_tick n + lease_timeout_ticks (config n);
          n = n\<lparr>leases := hm_insert tid \<lparr>lease_worker = w, expires_at_tick = expiry\<rparr> (leases n)\<rparr>
      in on_ok (task_or_err tid n) n (\<lambda>t.
           (Inr (t\<lparr>t_status := Assigned w expiry\<rparr>),
            update_task tid (\<lambda>t. t\<lparr>t_status := Assigned w expiry\<rparr>) n)))"

definition request_task :: "hash_fun \<Rightarrow> participant_id \<Rightarrow> network \<Rightarrow> task result" where
  "request_task H w n =
     on_ok (ensure_participant w n) n (\<lambda>_.
       and_then (take_next_task_for w (reclaim_expired_leases H n)) (assign_task w))"

definition heartbeat ::
  "hash_fun \<Rightarrow> participant_id \<Rightarrow> task_id \<Rightarrow> network \<Rightarrow> unit result" where
  "heartbeat H w tid n =
     on_ok (ensure_participant w n) n (\<lambda>_.
     let n = reclaim_expired_leases H n;
         expiry = current_tick n + lease_timeout_ticks (config n)
     in on_ok (lease_for_worker w tid n) n (\<lambda>_.
        let n = n\<lparr>leases := hm_modify tid (\<lambda>l. l\<lparr>expires_at_tick := expiry\<rparr>) (leases n)\<rparr>
        in on_ok (task_or_err tid n) n (\<lambda>_.
             (Inr (), update_task tid (\<lambda>t. t\<lparr>t_status := Assigned w expiry\<rparr>) n))))"

definition submit_task ::
  "participant_id \<Rightarrow> project_id \<Rightarrow> u64 \<Rightarrow> string \<Rightarrow> network \<Rightarrow> task_id result" where
  "submit_task owner pid rew payload n =
     on_ok (ensure_project_owner owner pid n) n (\<lambda>_.
     and_then (reserve_project_quota pid rew n) (\<lambda>_ n.
       let tid = next_task_id n;
           n = n\<lparr>next_task_id := tid + 1\<rparr>;
           n = n\<lparr>tasks := hm_insert tid
                 (task_new tid pid rew payload (max (consensus_quorum (config n)) 1)
                    (max (max_reports_per_task (config n)) 1)) (tasks n)\<rparr>
       in (Inr tid, enqueue_pending tid n)))"

section \<open>Results\<close>

definition record_report :: "task_id \<Rightarrow> task_report \<Rightarrow> network \<Rightarrow> report_state result" where
  "record_report tid report n =
     on_ok (task_or_err tid n) n (\<lambda>t.
       (Inr \<lparr>rs_reports = t_reports t @ [report], rs_max_reports = max_reports t,
              rs_weight_required = weight_required t\<rparr>,
        update_task tid (\<lambda>t. t\<lparr>t_reports := t_reports t @ [report]\<rparr>) n))"

definition return_task_to_queue :: "task_id \<Rightarrow> network \<Rightarrow> unit result" where
  "return_task_to_queue tid n =
     on_ok (task_or_err tid n) n (\<lambda>_.
       (Inr (), enqueue_pending tid (update_task tid (\<lambda>t. t\<lparr>t_status := Pending\<rparr>) n)))"

fun digest_loop ::
  "network \<Rightarrow> u64 \<Rightarrow> (string, u64) hmap \<Rightarrow> task_report list \<Rightarrow> string option" where
  "digest_loop n required weights [] = None"
| "digest_loop n required weights (r # rs) =
     (let weight = worker_weight n (report_worker r);
          entry = (case hm_get weights (result_digest r) of None \<Rightarrow> 0 | Some s \<Rightarrow> s);
          total = entry + weight
      in if required \<le> total then Some (result_digest r)
         else digest_loop n required (hm_insert (result_digest r) total weights) rs)"

definition consensus_digest :: "network \<Rightarrow> task_report list \<Rightarrow> u64 \<Rightarrow> string option" where
  "consensus_digest n reports required = digest_loop n required [] reports"

definition submit_result ::
  "hash_fun \<Rightarrow> participant_id \<Rightarrow> task_id \<Rightarrow> string \<Rightarrow> u64 \<Rightarrow> encrypted_blob option
     \<Rightarrow> network \<Rightarrow> bool result" where
  "submit_result H w tid digest cost enc n =
     on_ok (ensure_participant w n) n (\<lambda>_.
     let n = reclaim_expired_leases H n
     in on_ok (lease_for_worker w tid n) n (\<lambda>lease.
        if lease_worker lease \<noteq> w then (Inl (TaskNotAssignedToWorker tid w), n)
        else
          let n = n\<lparr>leases := hm_remove tid (leases n)\<rparr>;
              report = \<lparr>report_worker = w, result_digest = digest, actual_cost = cost,
                        report_encrypted = enc\<rparr>
          in and_then (record_report tid report n) (\<lambda>rs n.
             case consensus_digest n (rs_reports rs) (rs_weight_required rs) of
               Some accepted \<Rightarrow>
                 and_then (finalize_task H tid accepted n) (\<lambda>_ n. (Inr True, n))
             | None \<Rightarrow>
                 if rs_max_reports rs \<le> usize_of (length (rs_reports rs))
                 then and_then (reject_task tid n) (\<lambda>_ n. (Inr True, n))
                 else and_then (return_task_to_queue tid n) (\<lambda>_ n. (Inr False, n)))))"

section \<open>Applying the log\<close>

fun apply_op :: "hash_fun \<Rightarrow> ledger_op \<Rightarrow> network \<Rightarrow> network" where
  "apply_op H (RegisterParticipant i nm key initial_balance) n =
     register_participant_with_id H i nm initial_balance (Some key) n"
| "apply_op H (CreateProject owner nm key) n = snd (create_project owner nm key n)"
| "apply_op H (TransferOp from to amount memo) n = snd (transfer H from to amount memo n)"
| "apply_op H (FundProject owner pid amount) n =
     snd (fund_project_from_owner H owner pid amount n)"
| "apply_op H (DonateToProject supporter pid amount) n =
     snd (donate_to_project H supporter pid amount n)"
| "apply_op H (SubmitTask owner pid rew payload) n = snd (submit_task owner pid rew payload n)"
| "apply_op H (RequestTask w _) n = snd (request_task H w n)"
| "apply_op H (SubmitResult w tid digest cost enc) n =
     snd (submit_result H w tid digest cost enc n)"
| "apply_op H (Tick k) n = tick H k n"

section \<open>The state fingerprint\<close>

fun status_bytes :: "task_status \<Rightarrow> bytes" where
  "status_bytes Pending = [0]"
| "status_bytes (Assigned w expiry) = [1] @ le_bytes w @ le_bytes expiry"
| "status_bytes (Completed digest workers) =
     [2] @ str_bytes digest @ concat (map le_bytes workers)"
| "status_bytes (QuotaExhausted digest workers) =
     [3] @ str_bytes digest @ concat (map le_bytes workers)"
| "status_bytes Rejected = [4]"

definition participant_bytes :: "network \<Rightarrow> participant \<Rightarrow> bytes" where
  "participant_bytes n p =
     le_bytes (p_id p) @ str_bytes (p_name p) @ le_bytes (reputation p)
       @ le_bytes (balance_of (chain n) (p_id p))"

definition project_bytes :: "project \<Rightarrow> bytes" where
  "project_bytes p =
     le_bytes (pr_id p) @ le_bytes (owner_id p) @ le_bytes (quota_available p)
       @ le_bytes (quota_locked p)"

definition task_bytes :: "task \<Rightarrow> bytes" where
  "task_bytes t =
     le_bytes (t_id t) @ le_bytes (t_project t) @ le_bytes (t_reward t)
       @ status_bytes (t_status t)
       @ concat (map (\<lambda>r. le_bytes (report_worker r) @ str_bytes (result_digest r))
           (t_reports t))"

definition fingerprint_bytes :: "network \<Rightarrow> bytes" where
  "fingerprint_bytes n =
     le_bytes (current_tick n) @ le_bytes (next_project_id n) @ le_bytes (next_task_id n)
       @ concat (map (participant_bytes n) (sort_key p_id (map snd (participants n))))
       @ concat (map project_bytes (sort_key pr_id (map snd (projects n))))
       @ concat (map task_bytes (sort_key t_id (map snd (tasks n))))"

definition state_fingerprint :: "hash_fun \<Rightarrow> network \<Rightarrow> bytes" where
  "state_fingerprint H n = H (fingerprint_bytes n)"

end
