(* ===== verification/Lifecycle.thy ===== *)
theory Lifecycle
  imports Network
begin

text \<open>
  The life cycle of a task: pending in the queue, assigned under a lease, or finished. The
  invariant \<open>lifecycle\<close> ties the status of every task to the queue and to the leases; this
  theory gives the closed forms of the operations on a task and shows that every operation of
  the log keeps the invariant, that finished tasks never change, and what reputations do.
\<close>

section \<open>State changes as record updates\<close>

declare commit_def [net_steps] update_project_def [net_steps] update_task_def [net_steps]

definition adjust_map ::
  "participant_id \<Rightarrow> u64 \<Rightarrow> (participant_id, participant) hmap \<Rightarrow> (participant_id, participant) hmap"
  where
  "adjust_map i delta m = hm_modify i
     (\<lambda>p. if 0 \<le> sint delta
          then p\<lparr>reputation := sat_add (reputation p) delta\<rparr>
          else p\<lparr>reputation := max (sat_sub (reputation p) (- delta)) 1\<rparr>) m"

lemma adjust_reputation_eq [net_steps]:
  "adjust_reputation i delta n = n\<lparr>participants := adjust_map i delta (participants n)\<rparr>"
  by (simp add: adjust_reputation_def adjust_map_def)

lemma fold_adjust_reputation [net_steps]:
  "fold (\<lambda>x. adjust_reputation (f x) delta) xs n =
     n\<lparr>participants := fold (\<lambda>x. adjust_map (f x) delta) xs (participants n)\<rparr>"
  by (induction xs arbitrary: n) (simp_all add: adjust_reputation_eq)

lemmas fold_adjust_reputation_ids [net_steps] = fold_adjust_reputation [where f = "\<lambda>w. w"]

lemma project_or_err_Inr [simp]:
  "project_or_err pid n = Inr p \<longleftrightarrow> hm_get (projects n) pid = Some p"
  by (auto simp: project_or_err_def split: option.splits)

lemma task_or_err_Inr [simp]: "task_or_err tid n = Inr t \<longleftrightarrow> hm_get (tasks n) tid = Some t"
  by (auto simp: task_or_err_def split: option.splits)

lemma ensure_participant_Inr [simp]:
  "ensure_participant i n = Inr u \<longleftrightarrow> hm_has (participants n) i"
  by (auto simp: ensure_participant_def)

lemma ensure_project_owner_Inr [simp]:
  "ensure_project_owner i pid n = Inr u \<longleftrightarrow>
     (\<exists>p. hm_get (projects n) pid = Some p \<and> owner_id p = i)"
  by (auto simp: ensure_project_owner_def project_or_err_def split: option.splits)

lemma lease_for_worker_Inr [simp]:
  "lease_for_worker w tid n = Inr l \<longleftrightarrow> hm_get (leases n) tid = Some l \<and> lease_worker l = w"
  by (auto simp: lease_for_worker_def split: option.splits)

section \<open>Reputations\<close>

definition participants_ok :: "network \<Rightarrow> bool" where
  "participants_ok n \<longleftrightarrow> hm_ok (participants n) \<and>
     (\<forall>i p. hm_get (participants n) i = Some p \<longrightarrow> p_id p = i \<and> 1 \<le> reputation p)"

definition pmap_ok :: "(participant_id, participant) hmap \<Rightarrow> bool" where
  "pmap_ok m \<longleftrightarrow> hm_ok m \<and> (\<forall>i p. hm_get m i = Some p \<longrightarrow> p_id p = i \<and> 1 \<le> reputation p)"

lemma participants_ok_iff: "participants_ok n \<longleftrightarrow> pmap_ok (participants n)"
  by (simp add: participants_ok_def pmap_ok_def)

lemma sat_add_ge: "a \<le> sat_add a b"
  by (simp add: word_le_nat_alt unat_sat_add) (use unat_less_64 [of a] in linarith)

lemma sat_add_ge1: "1 \<le> a \<Longrightarrow> 1 \<le> sat_add a b"
  by (rule order_trans [OF _ sat_add_ge])

lemma adjust_map_ok:
  assumes "pmap_ok m"
  shows "pmap_ok (adjust_map i delta m)"
proof -
  have "1 \<le> reputation p" if "hm_get m i = Some p" for p
    using assms that by (auto simp: pmap_ok_def)
  then show ?thesis
    using assms by (auto simp: pmap_ok_def adjust_map_def sat_add_ge1)
qed

lemma fold_adjust_map_ok: "pmap_ok m \<Longrightarrow> pmap_ok (fold (\<lambda>x. adjust_map (f x) delta) xs m)"
  by (induction xs arbitrary: m) (simp_all add: adjust_map_ok)

lemma dom_adjust_map [simp]: "dom (hm_get (adjust_map i delta m)) = dom (hm_get m)"
  unfolding adjust_map_def by (rule dom_hm_modify)

lemma dom_fold_adjust_map [simp]:
  "dom (hm_get (fold (\<lambda>x. adjust_map (f x) delta) xs m)) = dom (hm_get m)"
  by (induction xs arbitrary: m) simp_all

lemma pmap_ok_insert: "pmap_ok m \<Longrightarrow> pmap_ok (hm_insert i (new_participant i nm key) m)"
  by (auto simp: pmap_ok_def new_participant_def participant_new_def with_public_key_def
      split: option.splits)

section \<open>Closed forms of the ways a task leaves its lease\<close>

definition released :: "u64 \<Rightarrow> project \<Rightarrow> project" where
  "released amount p = p\<lparr>quota_locked := sat_sub (quota_locked p) amount\<rparr>"

definition refunded :: "u64 \<Rightarrow> project \<Rightarrow> project" where
  "refunded amount p = p\<lparr>quota_available := quota_available p + amount\<rparr>"

definition punished :: "network \<Rightarrow> task_report list \<Rightarrow> (participant_id, participant) hmap" where
  "punished n rs =
     fold (\<lambda>r. adjust_map (report_worker r) (- reputation_penalty (config n))) rs (participants n)"

lemma release_locked_quota_eq:
  "hm_get (projects n) pid = Some p \<Longrightarrow>
   release_locked_quota pid amount n =
     (Inr (), n\<lparr>projects := hm_modify pid (released amount) (projects n)\<rparr>)"
  by (simp add: release_locked_quota_def project_or_err_def net_steps released_def [abs_def])

lemma reject_task_eq:
  assumes "hm_get (tasks n) tid = Some t" and "hm_get (projects n) (t_project t) = Some p"
  shows "reject_task tid n =
    (Inr (), n\<lparr>participants := punished n (t_reports t),
       projects := hm_modify (t_project t) (refunded (t_reward t) \<circ> released (t_reward t))
         (projects n),
       tasks := hm_modify tid (\<lambda>t. t\<lparr>t_status := Rejected\<rparr>) (tasks n)\<rparr>)"
  using assms
  by (simp add: reject_task_def task_or_err_def release_locked_quota_eq project_or_err_def
      net_steps hm_modify_modify punished_def refunded_def [abs_def])

lemma return_task_to_queue_eq:
  assumes "hm_get (tasks n) tid = Some t" and "tid \<notin> set (pending_tasks n)"
  shows "return_task_to_queue tid n =
    (Inr (), n\<lparr>tasks := hm_modify tid (\<lambda>t. t\<lparr>t_status := Pending\<rparr>) (tasks n),
       pending_tasks := pending_tasks n @ [tid]\<rparr>)"
  using assms
  by (simp add: return_task_to_queue_def task_or_err_def enqueue_pending_def net_steps)

lemma finalize_budget_exhausted_task_eq:
  assumes "hm_get (tasks n) tid = Some t" and "hm_get (projects n) pid = Some p"
  shows "finalize_budget_exhausted_task H tid pid rew digest ws enc n =
    (Inr (), n\<lparr>projects := hm_modify pid (released rew) (projects n),
       chain := (if 0 < rew
                 then commit_block H (current_tick n) [Burn (project_address pid) rew] (chain n)
                 else chain n),
       tasks := hm_modify tid (\<lambda>t. t\<lparr>t_status := QuotaExhausted digest ws, t_encrypted := enc\<rparr>)
         (tasks n)\<rparr>)"
  using assms
  by (simp add: finalize_budget_exhausted_task_def release_locked_quota_eq task_or_err_def
      net_steps)

definition winners_of :: "string \<Rightarrow> task_report list \<Rightarrow> participant_id list" where
  "winners_of digest rs = map report_worker (filter (\<lambda>r. result_digest r = digest) rs)"

definition losers_of :: "string \<Rightarrow> task_report list \<Rightarrow> task_report list" where
  "losers_of digest rs = filter (\<lambda>r. result_digest r \<noteq> digest) rs"

definition encrypted_of :: "string \<Rightarrow> task_report list \<Rightarrow> encrypted_blob option" where
  "encrypted_of digest rs =
     Option.bind (find (\<lambda>r. result_digest r = digest \<and> report_encrypted r \<noteq> None) rs)
       report_encrypted"

definition weighted :: "network \<Rightarrow> participant_id list \<Rightarrow> (participant_id \<times> u64) list" where
  "weighted n ws = map (\<lambda>w. (w, worker_weight n w)) ws"

definition total_weight_of :: "network \<Rightarrow> participant_id list \<Rightarrow> u64" where
  "total_weight_of n ws = sum_list (map snd (weighted n ws))"

definition payout :: "network \<Rightarrow> task \<Rightarrow> string \<Rightarrow> transaction list" where
  "payout n t digest = reward_transactions (t_project t) (t_id t)
     (distribute_reward (t_reward t) (total_weight_of n (winners_of digest (t_reports t)))
        (weighted n (winners_of digest (t_reports t))))"

definition rewarded_and_punished ::
  "network \<Rightarrow> string \<Rightarrow> task_report list \<Rightarrow> (participant_id, participant) hmap" where
  "rewarded_and_punished n digest rs =
     fold (\<lambda>r. adjust_map (report_worker r) (- reputation_penalty (config n))) (losers_of digest rs)
       (fold (\<lambda>w. adjust_map w (reputation_reward (config n))) (winners_of digest rs)
          (participants n))"

lemma weighted_frame [simp]:
  "weighted (n\<lparr>projects := ps\<rparr>) ws = weighted n ws"
  "total_weight_of (n\<lparr>projects := ps\<rparr>) ws = total_weight_of n ws"
  by (simp_all add: weighted_def total_weight_of_def worker_weight_def)

text \<open>The definition of \<open>finalize_task\<close>, with its parts named.\<close>

lemma finalize_task_parts:
  "finalize_task H tid digest n =
     on_ok (task_or_err tid n) n (\<lambda>t.
       if winners_of digest (t_reports t) = [] then reject_task tid n
       else if is_budget_exhausted_digest digest
         then finalize_budget_exhausted_task H tid (t_project t) (t_reward t) digest
                (winners_of digest (t_reports t)) (encrypted_of digest (t_reports t)) n
       else and_then (release_locked_quota (t_project t) (t_reward t) n) (\<lambda>_ n.
         if total_weight_of n (winners_of digest (t_reports t)) = 0 then reject_task tid n
         else
           let txs = reward_transactions (t_project t) tid
                 (distribute_reward (t_reward t)
                    (total_weight_of n (winners_of digest (t_reports t)))
                    (weighted n (winners_of digest (t_reports t))));
               n = (if txs = [] then n else commit H txs n);
               n = fold (\<lambda>w. adjust_reputation w (reputation_reward (config n)))
                     (winners_of digest (t_reports t)) n;
               n = fold (\<lambda>r. adjust_reputation (report_worker r)
                                (- reputation_penalty (config n)))
                     (losers_of digest (t_reports t)) n
           in on_ok (task_or_err tid n) n (\<lambda>_.
                (Inr (), update_task tid
                   (\<lambda>u. u\<lparr>t_status := Completed digest (winners_of digest (t_reports t)),
                         t_encrypted := encrypted_of digest (t_reports t)\<rparr>) n))))"
  unfolding finalize_task_def Let_def winners_of_def losers_of_def weighted_def total_weight_of_def
    encrypted_of_def
  by (rule refl)

lemma finalize_task_eq:
  assumes "hm_get (tasks n) tid = Some t" and "hm_get (projects n) (t_project t) = Some p"
    and "t_id t = tid" and "winners_of digest (t_reports t) \<noteq> []"
    and "\<not> is_budget_exhausted_digest digest"
    and "total_weight_of n (winners_of digest (t_reports t)) \<noteq> 0"
  shows "finalize_task H tid digest n =
    (Inr (), n\<lparr>participants := rewarded_and_punished n digest (t_reports t),
       projects := hm_modify (t_project t) (released (t_reward t)) (projects n),
       chain := (if payout n t digest = [] then chain n
                 else commit_block H (current_tick n) (payout n t digest) (chain n)),
       tasks := hm_modify tid
         (\<lambda>u. u\<lparr>t_status := Completed digest (winners_of digest (t_reports t)),
               t_encrypted := encrypted_of digest (t_reports t)\<rparr>) (tasks n)\<rparr>)"
  using assms
  by (simp add: finalize_task_parts task_or_err_def release_locked_quota_eq payout_def Let_def
      rewarded_and_punished_def net_steps)

section \<open>The invariant\<close>

definition is_finished :: "task_status \<Rightarrow> bool" where
  "is_finished st = (case st of Pending \<Rightarrow> False | Assigned _ _ \<Rightarrow> False | _ \<Rightarrow> True)"

lemma is_finished_simps [simp]:
  "\<not> is_finished Pending" "\<not> is_finished (Assigned w e)" "is_finished (Completed d ws)"
  "is_finished (QuotaExhausted d ws)" "is_finished Rejected"
  by (simp_all add: is_finished_def)

text \<open>
  Exactly the pending tasks are in the queue, once each; exactly the assigned tasks have a
  lease, which names the worker and the expiry of the status; the worker of a lease has not
  reported on the task before; no worker has reported twice on a task.
\<close>

definition status_ok :: "task \<Rightarrow> bool \<Rightarrow> task_lease option \<Rightarrow> bool" where
  "status_ok t queued lease =
     (case t_status t of
        Pending \<Rightarrow> queued \<and> lease = None
      | Assigned w e \<Rightarrow> \<not> queued \<and> lease = Some \<lparr>lease_worker = w, expires_at_tick = e\<rparr>
          \<and> w \<notin> set (map report_worker (t_reports t))
      | _ \<Rightarrow> \<not> queued \<and> lease = None)"

definition task_ok :: "network \<Rightarrow> task_id \<Rightarrow> task \<Rightarrow> bool" where
  "task_ok n tid t \<longleftrightarrow> t_id t = tid \<and> hm_has (projects n) (t_project t)
     \<and> distinct (map report_worker (t_reports t)) \<and> tid < next_task_id n"

definition slot_ok :: "network \<Rightarrow> task_id \<Rightarrow> bool" where
  "slot_ok n tid =
     (case hm_get (tasks n) tid of
        None \<Rightarrow> tid \<notin> set (pending_tasks n) \<and> hm_get (leases n) tid = None
      | Some t \<Rightarrow> task_ok n tid t
          \<and> status_ok t (tid \<in> set (pending_tasks n)) (hm_get (leases n) tid))"

definition projects_ok :: "network \<Rightarrow> bool" where
  "projects_ok n \<longleftrightarrow> hm_ok (projects n) \<and>
     (\<forall>pid p. hm_get (projects n) pid = Some p \<longrightarrow> pr_id p = pid \<and> pid < next_project_id n)"

definition store_ok :: "network \<Rightarrow> bool" where
  "store_ok n \<longleftrightarrow> pmap_ok (participants n) \<and> projects_ok n \<and> hm_ok (tasks n) \<and> hm_ok (leases n)
     \<and> distinct (pending_tasks n)"

definition lifecycle :: "network \<Rightarrow> bool" where
  "lifecycle n \<longleftrightarrow> store_ok n \<and> (\<forall>tid. slot_ok n tid)"

text \<open>Between losing its lease and getting its next status, a task is detached.\<close>

definition detached :: "task_id \<Rightarrow> network \<Rightarrow> bool" where
  "detached tid n \<longleftrightarrow> store_ok n \<and> (\<forall>i. i \<noteq> tid \<longrightarrow> slot_ok n i)
     \<and> (\<exists>t. hm_get (tasks n) tid = Some t \<and> task_ok n tid t)
     \<and> tid \<notin> set (pending_tasks n) \<and> hm_get (leases n) tid = None"

lemma task_ok_frame [simp]:
  "task_ok (n\<lparr>chain := C\<rparr>) i t = task_ok n i t"
  "task_ok (n\<lparr>participants := P\<rparr>) i t = task_ok n i t"
  "task_ok (n\<lparr>current_tick := k\<rparr>) i t = task_ok n i t"
  "task_ok (n\<lparr>next_participant_id := j\<rparr>) i t = task_ok n i t"
  by (simp_all add: task_ok_def)

lemma slot_ok_frame [simp]:
  "slot_ok (n\<lparr>chain := C\<rparr>) i = slot_ok n i"
  "slot_ok (n\<lparr>participants := P\<rparr>) i = slot_ok n i"
  "slot_ok (n\<lparr>current_tick := k\<rparr>) i = slot_ok n i"
  "slot_ok (n\<lparr>next_participant_id := j\<rparr>) i = slot_ok n i"
  by (simp_all add: slot_ok_def split: option.split)

lemma lifecycle_slot: "lifecycle n \<Longrightarrow> slot_ok n tid"
  by (simp add: lifecycle_def)

lemma slot_ok_cong:
  assumes "hm_get (tasks m) i = hm_get (tasks n) i" "i \<in> set (pending_tasks m) \<longleftrightarrow> i \<in> set (pending_tasks n)"
    and "hm_get (leases m) i = hm_get (leases n) i"
    and "dom (hm_get (projects n)) \<subseteq> dom (hm_get (projects m))" "next_task_id n \<le> next_task_id m"
    and "slot_ok n i"
  shows "slot_ok m i"
  using assms by (auto simp: slot_ok_def task_ok_def split: option.splits)

lemma lifecycle_leaseD:
  assumes "lifecycle n" and "hm_get (leases n) tid = Some l"
  obtains t where "hm_get (tasks n) tid = Some t" and "task_ok n tid t"
    and "t_status t = Assigned (lease_worker l) (expires_at_tick l)"
    and "lease_worker l \<notin> set (map report_worker (t_reports t))" and "tid \<notin> set (pending_tasks n)"
  using lifecycle_slot [OF assms(1), of tid] assms(2)
  by (auto simp: slot_ok_def status_ok_def split: option.splits task_status.splits)

lemma lifecycle_pendingD:
  assumes "lifecycle n" and "tid \<in> set (pending_tasks n)"
  obtains t where "hm_get (tasks n) tid = Some t" and "task_ok n tid t" and "t_status t = Pending"
    and "hm_get (leases n) tid = None"
  using lifecycle_slot [OF assms(1), of tid] assms(2)
  by (auto simp: slot_ok_def status_ok_def split: option.splits task_status.splits)

lemma lifecycle_finishedD:
  assumes "lifecycle n" and "hm_get (tasks n) tid = Some t" and "is_finished (t_status t)"
  shows "tid \<notin> set (pending_tasks n)" and "hm_get (leases n) tid = None"
  using lifecycle_slot [OF assms(1), of tid] assms(2,3)
  by (auto simp: slot_ok_def status_ok_def is_finished_def split: task_status.splits)

section \<open>Steps of a task\<close>

definition same_projects :: "(project_id, project) hmap \<Rightarrow> (project_id, project) hmap \<Rightarrow> bool" where
  "same_projects m m' \<longleftrightarrow> (hm_ok m' \<longrightarrow> hm_ok m) \<and>
     (\<forall>pid. map_option pr_id (hm_get m pid) = map_option pr_id (hm_get m' pid))"

lemma same_projects_modify: "(\<And>p. pr_id (f p) = pr_id p) \<Longrightarrow> same_projects (hm_modify pid f m) m"
  by (auto simp: same_projects_def option.map_comp o_def option.map_ident split: option.splits)

lemma same_projects_refl [simp]: "same_projects m m"
  by (simp add: same_projects_def)

lemma same_projects_dom: "same_projects m m' \<Longrightarrow> dom (hm_get m) = dom (hm_get m')"
  by (auto simp: same_projects_def dom_def) (metis map_option_is_None not_None_eq)+

lemma projects_ok_same:
  "same_projects (projects m) (projects n) \<Longrightarrow> next_project_id m = next_project_id n \<Longrightarrow>
   projects_ok n \<Longrightarrow> projects_ok m"
  unfolding projects_ok_def same_projects_def
  by (metis (no_types, lifting) map_option_eq_Some)

lemma detached_finish:
  assumes d: "detached tid n" and P: "pmap_ok P" and Q: "same_projects Q (projects n)"
    and f: "\<And>t. t_id (f t) = t_id t \<and> t_project (f t) = t_project t \<and> t_reports (f t) = t_reports t
              \<and> is_finished (t_status (f t))"
  shows "lifecycle (n\<lparr>participants := P, projects := Q, chain := C, tasks := hm_modify tid f (tasks n)\<rparr>)"
    (is "lifecycle ?m")
proof -
  have "store_ok ?m"
    using d P Q projects_ok_same [of ?m n] by (simp add: detached_def store_ok_def)
  moreover have "slot_ok ?m i" for i
  proof (cases "i = tid")
    case True
    obtain t where t: "hm_get (tasks n) tid = Some t" "task_ok n tid t"
      using d by (auto simp: detached_def)
    have "hm_has Q (t_project t)"
      using t(2) same_projects_dom [OF Q] by (auto simp: task_ok_def)
    then have "task_ok ?m tid (f t)"
      using t(2) f [of t] by (simp add: task_ok_def)
    moreover have "status_ok (f t) False None"
      using f [of t] by (simp add: status_ok_def is_finished_def split: task_status.splits)
    ultimately show ?thesis
      using True t(1) d by (simp add: detached_def slot_ok_def)
  next
    case False
    then show ?thesis
      using d by (intro slot_ok_cong [of ?m i n]) (auto simp: detached_def same_projects_dom [OF Q])
  qed
  ultimately show ?thesis
    by (simp add: lifecycle_def)
qed

lemma task_ok_status [simp]: "task_ok n tid (t\<lparr>t_status := st\<rparr>) = task_ok n tid t"
  by (simp add: task_ok_def)

lemma detached_requeue:
  assumes d: "detached tid n"
  shows "lifecycle (n\<lparr>tasks := hm_modify tid (\<lambda>t. t\<lparr>t_status := Pending\<rparr>) (tasks n),
           pending_tasks := pending_tasks n @ [tid]\<rparr>)" (is "lifecycle ?m")
proof -
  have frame [simp]: "task_ok ?m i t = task_ok n i t" for i t
    by (simp add: task_ok_def)
  have "store_ok ?m"
    using d by (simp add: detached_def store_ok_def projects_ok_def)
  moreover have "slot_ok ?m i" for i
  proof (cases "i = tid")
    case True
    with d show ?thesis
      by (auto simp: detached_def slot_ok_def status_ok_def)
  next
    case False
    then show ?thesis
      using d by (intro slot_ok_cong [of ?m i n]) (auto simp: detached_def)
  qed
  ultimately show ?thesis
    by (simp add: lifecycle_def)
qed

lemma lease_lost:
  assumes L: "lifecycle n" and l: "hm_get (leases n) tid = Some l"
  shows "detached tid (n\<lparr>leases := hm_remove tid (leases n)\<rparr>)" (is "detached tid ?m")
proof -
  obtain t where t: "hm_get (tasks n) tid = Some t" "task_ok n tid t" "tid \<notin> set (pending_tasks n)"
    using L l by (rule lifecycle_leaseD)
  have "slot_ok ?m i" if "i \<noteq> tid" for i
    using that lifecycle_slot [OF L] by (intro slot_ok_cong [of ?m i n]) auto
  moreover have "task_ok ?m tid t"
    using t(2) by (simp add: task_ok_def)
  ultimately show ?thesis
    using L t by (simp add: detached_def lifecycle_def store_ok_def projects_ok_def)
qed

text \<open>A detached task may take a report of a worker that has not reported yet.\<close>

lemma detached_report:
  assumes d: "detached tid n" and t: "hm_get (tasks n) tid = Some t"
    and w: "report_worker r \<notin> set (map report_worker (t_reports t))"
  shows "detached tid (n\<lparr>tasks := hm_modify tid (\<lambda>t. t\<lparr>t_reports := t_reports t @ [r]\<rparr>) (tasks n)\<rparr>)"
    (is "detached tid ?m")
proof -
  have "slot_ok ?m i" if "i \<noteq> tid" for i
    using that d by (intro slot_ok_cong [of ?m i n]) (auto simp: detached_def)
  moreover have "task_ok ?m tid (t\<lparr>t_reports := t_reports t @ [r]\<rparr>)"
    using d t w by (auto simp: detached_def task_ok_def)
  ultimately show ?thesis
    using d t by (simp add: detached_def store_ok_def projects_ok_def)
qed

lemma detached_participants:
  "detached tid n \<Longrightarrow> pmap_ok P \<Longrightarrow> detached tid (n\<lparr>participants := P\<rparr>)"
  by (simp add: detached_def store_ok_def projects_ok_def)

lemma lifecycle_frame:
  "lifecycle n \<Longrightarrow> pmap_ok P \<Longrightarrow>
     lifecycle (n\<lparr>participants := P, chain := C, current_tick := t, next_participant_id := i\<rparr>)"
  by (simp add: lifecycle_def store_ok_def projects_ok_def)

lemma lifecycle_pmap: "lifecycle n \<Longrightarrow> pmap_ok (participants n)"
  by (simp add: lifecycle_def store_ok_def)

lemma lifecycle_chain: "lifecycle n \<Longrightarrow> lifecycle (n\<lparr>chain := C\<rparr>)"
  by (simp add: lifecycle_def store_ok_def projects_ok_def)

lemma lifecycle_commit: "lifecycle n \<Longrightarrow> lifecycle (commit H txs n)"
  by (simp add: net_steps lifecycle_chain)

lemma lifecycle_tick: "lifecycle n \<Longrightarrow> lifecycle (n\<lparr>current_tick := t\<rparr>)"
  by (simp add: lifecycle_def store_ok_def projects_ok_def)

section \<open>Expired leases\<close>

lemma reclaim_one_unleased:
  assumes "lifecycle n" and "hm_get (leases n) tid = None"
  shows "fst (reclaim_one tid (n, txs)) = n\<lparr>leases := hm_remove tid (leases n)\<rparr>"
    and "hm_remove tid (leases n) = leases n"
proof -
  have "(case hm_get (tasks n) tid of None \<Rightarrow> False | Some t \<Rightarrow> is_assigned (t_status t)) = False"
    using lifecycle_slot [OF assms(1), of tid] assms(2)
    by (auto simp: slot_ok_def status_ok_def is_assigned_iff split: option.splits)
  then show "fst (reclaim_one tid (n, txs)) = n\<lparr>leases := hm_remove tid (leases n)\<rparr>"
    by (simp add: reclaim_one_def)
  show "hm_remove tid (leases n) = leases n"
    using assms(2) by (intro delete_id) (simp add: map_of_eq_None_iff)
qed

text \<open>A lost lease: the worker is punished, the task queued again.\<close>

definition lost_lease :: "task_id \<Rightarrow> participant_id \<Rightarrow> network \<Rightarrow> network" where
  "lost_lease tid w n =
     n\<lparr>leases := hm_remove tid (leases n),
       participants := adjust_map w (- reputation_penalty (config n)) (participants n),
       tasks := hm_modify tid (\<lambda>t. t\<lparr>t_status := Pending\<rparr>) (tasks n),
       pending_tasks := pending_tasks n @ [tid]\<rparr>"

definition slash_of :: "network \<Rightarrow> participant_id \<Rightarrow> transaction list" where
  "slash_of n w =
     (let slash = min (lease_slash (config n)) (balance_of (chain n) w)
      in if 0 < slash then [Burn w slash] else [])"

lemma reclaim_one_leased:
  assumes "lifecycle n" and "hm_get (leases n) tid = Some l"
  shows "reclaim_one tid (n, txs) =
    (lost_lease tid (lease_worker l) n, txs @ slash_of n (lease_worker l))"
proof -
  obtain t where t: "hm_get (tasks n) tid = Some t" "tid \<notin> set (pending_tasks n)"
    "t_status t = Assigned (lease_worker l) (expires_at_tick l)"
    using assms by (rule lifecycle_leaseD)
  then show ?thesis
    using assms(2)
    by (simp add: reclaim_one_def Let_def net_steps enqueue_pending_def lost_lease_def slash_of_def)
qed

lemma lifecycle_lost_lease:
  assumes "lifecycle n" and "hm_get (leases n) tid = Some l"
  shows "lifecycle (lost_lease tid w n)"
proof -
  have "detached tid (n\<lparr>leases := hm_remove tid (leases n),
      participants := adjust_map w (- reputation_penalty (config n)) (participants n)\<rparr>)"
    using detached_participants [OF lease_lost [OF assms] adjust_map_ok [OF lifecycle_pmap [OF assms(1)]]]
    by simp
  from detached_requeue [OF this] show ?thesis
    by (simp add: lost_lease_def)
qed

lemma lifecycle_reclaim_one:
  assumes "lifecycle n"
  shows "lifecycle (fst (reclaim_one tid (n, txs)))"
proof (cases "hm_get (leases n) tid")
  case None
  with assms show ?thesis
    by (simp add: reclaim_one_unleased)
next
  case (Some l)
  with assms show ?thesis
    by (simp add: reclaim_one_leased lifecycle_lost_lease)
qed

lemma lifecycle_fold_reclaim:
  "lifecycle n \<Longrightarrow> lifecycle (fst (fold reclaim_one tids (n, txs)))"
proof (induction tids arbitrary: n txs)
  case (Cons tid tids)
  obtain n' txs' where "reclaim_one tid (n, txs) = (n', txs')"
    by fastforce
  with Cons.IH Cons.prems lifecycle_reclaim_one [of n tid txs] show ?case
    by simp
qed simp

lemma lifecycle_reclaim: "lifecycle n \<Longrightarrow> lifecycle (reclaim_expired_leases H n)"
  using lifecycle_fold_reclaim [of n "expired_leases n" "[]"]
  by (auto simp: reclaim_expired_leases_def split: prod.splits intro: lifecycle_commit)

section \<open>Finishing a task\<close>

lemma detachedE:
  assumes "detached tid n"
  obtains t p where "hm_get (tasks n) tid = Some t" and "t_id t = tid"
    and "hm_get (projects n) (t_project t) = Some p"
  using assms by (auto simp: detached_def task_ok_def)

lemma detached_pmap: "detached tid n \<Longrightarrow> pmap_ok (participants n)"
  by (simp add: detached_def store_ok_def)

lemma detached_projects:
  assumes "detached tid n" and Q: "same_projects Q (projects n)"
  shows "detached tid (n\<lparr>projects := Q\<rparr>)"
proof -
  have "slot_ok (n\<lparr>projects := Q\<rparr>) i" if "i \<noteq> tid" for i
    using assms(1) that
    by (intro slot_ok_cong [of "n\<lparr>projects := Q\<rparr>" i n])
      (auto simp: detached_def same_projects_dom [OF Q])
  moreover have "task_ok (n\<lparr>projects := Q\<rparr>) tid t" if "task_ok n tid t" for t
    using that same_projects_dom [OF Q] by (auto simp: task_ok_def)
  ultimately show ?thesis
    using assms projects_ok_same [of "n\<lparr>projects := Q\<rparr>" n]
    by (auto simp: detached_def store_ok_def)
qed

lemma pr_id_released [simp]: "pr_id (released a p) = pr_id p"
  by (simp add: released_def)

lemma pr_id_refunded [simp]: "pr_id (refunded a p) = pr_id p"
  by (simp add: refunded_def)

lemma punished_ok: "pmap_ok (participants n) \<Longrightarrow> pmap_ok (punished n rs)"
  unfolding punished_def by (rule fold_adjust_map_ok)

lemma rewarded_ok: "pmap_ok (participants n) \<Longrightarrow> pmap_ok (rewarded_and_punished n d rs)"
  using fold_adjust_map_ok [where f = "\<lambda>w. w"]
  by (simp add: rewarded_and_punished_def fold_adjust_map_ok)

definition finishes :: "task_id \<Rightarrow> unit result \<Rightarrow> bool" where
  "finishes tid res \<longleftrightarrow> fst res = Inr () \<and> lifecycle (snd res)
     \<and> (\<exists>t. hm_get (tasks (snd res)) tid = Some t \<and> is_finished (t_status t))"

lemma reject_task_finishes:
  assumes "detached tid n"
  shows "finishes tid (reject_task tid n)"
proof -
  obtain t p where t: "hm_get (tasks n) tid = Some t"
    and p: "hm_get (projects n) (t_project t) = Some p"
    using assms by (rule detachedE)
  have "lifecycle (snd (reject_task tid n))"
    using detached_finish [where f = "\<lambda>t. t\<lparr>t_status := Rejected\<rparr>" and C = "chain n",
        OF assms punished_ok [OF detached_pmap [OF assms]]
          same_projects_modify [where f = "refunded (t_reward t) \<circ> released (t_reward t)"]]
    by (simp add: reject_task_eq [OF t p])
  then show ?thesis
    by (simp add: finishes_def reject_task_eq [OF t p] t)
qed

lemma finalize_budget_finishes:
  assumes "detached tid n" and t: "hm_get (tasks n) tid = Some t"
    and p: "hm_get (projects n) (t_project t) = Some p"
  shows "finishes tid (finalize_budget_exhausted_task H tid (t_project t) rew d ws enc n)"
  using detached_finish [where f = "\<lambda>t. t\<lparr>t_status := QuotaExhausted d ws, t_encrypted := enc\<rparr>",
      OF assms(1) detached_pmap [OF assms(1)] same_projects_modify]
  by (simp add: finishes_def finalize_budget_exhausted_task_eq [OF t p] t)

lemma finalize_task_finishes:
  assumes d: "detached tid n"
  shows "finishes tid (finalize_task H tid digest n)"
proof -
  obtain t p where t: "hm_get (tasks n) tid = Some t" and id: "t_id t = tid"
    and p: "hm_get (projects n) (t_project t) = Some p"
    using d by (rule detachedE)
  consider (none) "winners_of digest (t_reports t) = []"
    | (budget) "winners_of digest (t_reports t) \<noteq> []" "is_budget_exhausted_digest digest"
    | (zero) "winners_of digest (t_reports t) \<noteq> []" "\<not> is_budget_exhausted_digest digest"
        "total_weight_of n (winners_of digest (t_reports t)) = 0"
    | (pay) "winners_of digest (t_reports t) \<noteq> []" "\<not> is_budget_exhausted_digest digest"
        "total_weight_of n (winners_of digest (t_reports t)) \<noteq> 0"
    by blast
  then show ?thesis
  proof cases
    case none
    then show ?thesis
      using reject_task_finishes [OF d] by (simp add: finalize_task_parts task_or_err_def t)
  next
    case budget
    then show ?thesis
      using finalize_budget_finishes [OF d t p] by (simp add: finalize_task_parts task_or_err_def t)
  next
    case zero
    then show ?thesis
      using reject_task_finishes [OF detached_projects [OF d same_projects_modify]]
      by (simp add: finalize_task_parts task_or_err_def t release_locked_quota_eq [OF p])
  next
    case pay
    show ?thesis
      using detached_finish [where f = "\<lambda>u. u\<lparr>t_status := Completed digest
            (winners_of digest (t_reports t)), t_encrypted := encrypted_of digest (t_reports t)\<rparr>",
          OF d rewarded_ok [OF detached_pmap [OF d]] same_projects_modify]
      by (simp add: finishes_def finalize_task_eq [OF t p id pay] t)
  qed
qed

section \<open>Assigning, renewing and submitting\<close>

lemma take_next_task_forD:
  assumes "take_next_task_for w n = (Inr tid, n')"
  shows "tid \<in> set (pending_tasks n)" and "worker_can_take_task n w tid"
    and "n' = n\<lparr>pending_tasks := filter (\<lambda>i. i \<noteq> tid) (pending_tasks n)\<rparr>"
  using assms
  by (auto simp: take_next_task_for_def split: option.splits dest: max_by_key_Some)

lemma take_next_task_for_err:
  "take_next_task_for w n = (Inl e, n') \<Longrightarrow> e = NoPendingTasks \<and> n' = n"
  by (auto simp: take_next_task_for_def split: option.splits)

definition assigned :: "participant_id \<Rightarrow> u64 \<Rightarrow> task_id \<Rightarrow> network \<Rightarrow> network" where
  "assigned w e tid n =
     n\<lparr>pending_tasks := filter (\<lambda>i. i \<noteq> tid) (pending_tasks n),
       leases := hm_insert tid \<lparr>lease_worker = w, expires_at_tick = e\<rparr> (leases n),
       tasks := hm_modify tid (\<lambda>t. t\<lparr>t_status := Assigned w e\<rparr>) (tasks n)\<rparr>"

lemma assign_task_eq:
  assumes "hm_get (tasks n) tid = Some t"
  shows "assign_task w tid (n\<lparr>pending_tasks := filter (\<lambda>i. i \<noteq> tid) (pending_tasks n)\<rparr>) =
    (Inr (t\<lparr>t_status := Assigned w (current_tick n + lease_timeout_ticks (config n))\<rparr>),
     assigned w (current_tick n + lease_timeout_ticks (config n)) tid n)"
  using assms by (simp add: assign_task_def Let_def task_or_err_def net_steps assigned_def)

lemma lifecycle_assigned:
  assumes L: "lifecycle n" and tid: "tid \<in> set (pending_tasks n)"
    and w: "worker_can_take_task n w tid"
  shows "lifecycle (assigned w e tid n)"
proof -
  obtain t where t: "hm_get (tasks n) tid = Some t" "task_ok n tid t"
    using L tid by (rule lifecycle_pendingD)
  have new: "w \<notin> set (map report_worker (t_reports t))"
    using w t(1) by (auto simp: worker_can_take_task_def)
  have "slot_ok (assigned w e tid n) i" for i
  proof (cases "i = tid")
    case True
    have "task_ok (assigned w e tid n) tid (t\<lparr>t_status := Assigned w e\<rparr>)"
      using t(2) by (simp add: task_ok_def assigned_def)
    then show ?thesis
      using True t(1) new by (simp add: slot_ok_def status_ok_def assigned_def)
  next
    case False
    then show ?thesis
      by (intro slot_ok_cong [OF _ _ _ _ _ lifecycle_slot [OF L]]) (simp_all add: assigned_def)
  qed
  moreover have "store_ok (assigned w e tid n)"
    using L by (simp add: lifecycle_def store_ok_def projects_ok_def assigned_def)
  ultimately show ?thesis
    by (simp add: lifecycle_def)
qed

text \<open>The two outcomes of a request by a known worker.\<close>

lemma request_task_cases:
  assumes "hm_has (participants n) w" and "lifecycle (reclaim_expired_leases H n)"
  obtains (idle) "request_task H w n = (Inl NoPendingTasks, reclaim_expired_leases H n)"
    and "\<forall>tid\<in>set (pending_tasks (reclaim_expired_leases H n)).
           \<not> worker_can_take_task (reclaim_expired_leases H n) w tid"
  | (claim) tid t e where "tid \<in> set (pending_tasks (reclaim_expired_leases H n))"
    and "worker_can_take_task (reclaim_expired_leases H n) w tid"
    and "hm_get (tasks (reclaim_expired_leases H n)) tid = Some t"
    and "request_task H w n = (Inr (t\<lparr>t_status := Assigned w e\<rparr>),
           assigned w e tid (reclaim_expired_leases H n))"
    and "e = current_tick (reclaim_expired_leases H n)
               + lease_timeout_ticks (config (reclaim_expired_leases H n))"
    and "\<forall>j\<in>set (pending_tasks (reclaim_expired_leases H n)).
           worker_can_take_task (reclaim_expired_leases H n) w j \<longrightarrow>
           task_priority_key (reclaim_expired_leases H n) j
             \<le> task_priority_key (reclaim_expired_leases H n) tid"
proof -
  define m where "m = reclaim_expired_leases H n"
  have req: "request_task H w n = and_then (take_next_task_for w m) (assign_task w)"
    using assms(1) by (simp add: request_task_def ensure_participant_def m_def)
  show thesis
  proof (cases "max_by_key (task_priority_key m) (filter (worker_can_take_task m w) (pending_tasks m))")
    case None
    then have "filter (worker_can_take_task m w) (pending_tasks m) = []"
      by (simp only: max_by_key_None_iff)
    then have none: "\<forall>tid\<in>set (pending_tasks m). \<not> worker_can_take_task m w tid"
      by (simp add: filter_empty_conv)
    have "request_task H w n = (Inl NoPendingTasks, m)"
      using None by (simp add: req take_next_task_for_def)
    then show thesis
      using none unfolding m_def by (rule idle)
  next
    case (Some tid)
    from max_by_key_Some [OF this] have tid: "tid \<in> set (pending_tasks m)"
        "worker_can_take_task m w tid"
      and best: "\<forall>j\<in>set (pending_tasks m). worker_can_take_task m w j \<longrightarrow>
           task_priority_key m j \<le> task_priority_key m tid"
      by auto
    obtain t where t: "hm_get (tasks m) tid = Some t"
      using tid(2) by (auto simp: worker_can_take_task_def split: option.splits)
    have "request_task H w n = (Inr (t\<lparr>t_status := Assigned w (current_tick m
            + lease_timeout_ticks (config m))\<rparr>),
        assigned w (current_tick m + lease_timeout_ticks (config m)) tid m)"
      using Some by (simp add: req take_next_task_for_def assign_task_eq [OF t])
    then show thesis
      using claim tid t best by (simp add: m_def)
  qed
qed

lemma lifecycle_request_task:
  assumes "lifecycle n"
  shows "lifecycle (snd (request_task H w n))"
proof (cases "hm_has (participants n) w")
  case False
  with assms show ?thesis
    by (simp add: request_task_def ensure_participant_def)
next
  case True
  have L: "lifecycle (reclaim_expired_leases H n)"
    by (rule lifecycle_reclaim [OF assms])
  from True L show ?thesis
    by (cases rule: request_task_cases [where H = H]) (simp_all add: L lifecycle_assigned)
qed

lemma lifecycle_heartbeat:
  assumes "lifecycle n"
  shows "lifecycle (snd (heartbeat H w tid n))"
proof -
  define m where "m = reclaim_expired_leases H n"
  define e where "e = current_tick m + lease_timeout_ticks (config m)"
  have L: "lifecycle m"
    unfolding m_def by (rule lifecycle_reclaim [OF assms])
  have "lifecycle (snd (on_ok (lease_for_worker w tid m) m (\<lambda>_.
        let n = m\<lparr>leases := hm_modify tid (\<lambda>l. l\<lparr>expires_at_tick := e\<rparr>) (leases m)\<rparr>
        in on_ok (task_or_err tid n) n (\<lambda>_.
             (Inr (), update_task tid (\<lambda>t. t\<lparr>t_status := Assigned w e\<rparr>) n)))))"
  proof (cases "lease_for_worker w tid m")
    case (Inr l)
    then have l: "hm_get (leases m) tid = Some l" "lease_worker l = w"
      by simp_all
    obtain t where t: "hm_get (tasks m) tid = Some t" "task_ok m tid t"
      "w \<notin> set (map report_worker (t_reports t))" "tid \<notin> set (pending_tasks m)"
      using L l(1) by (rule lifecycle_leaseD) (use l(2) in auto)
    let ?k = "m\<lparr>leases := hm_modify tid (\<lambda>l. l\<lparr>expires_at_tick := e\<rparr>) (leases m),
        tasks := hm_modify tid (\<lambda>t. t\<lparr>t_status := Assigned w e\<rparr>) (tasks m)\<rparr>"
    have "slot_ok ?k i" for i
    proof (cases "i = tid")
      case True
      have "task_ok ?k tid (t\<lparr>t_status := Assigned w e\<rparr>)"
        using t(2) by (simp add: task_ok_def)
      then show ?thesis
        using True t l by (simp add: slot_ok_def status_ok_def)
    next
      case False
      then show ?thesis
        by (intro slot_ok_cong [OF _ _ _ _ _ lifecycle_slot [OF L]]) simp_all
    qed
    moreover have "store_ok ?k"
      using L by (simp add: lifecycle_def store_ok_def projects_ok_def)
    ultimately show ?thesis
      using t(1) by (simp add: Inr task_or_err_def net_steps lifecycle_def)
  qed (simp add: L)
  then show ?thesis
    using assms
    by (cases "hm_has (participants n) w")
      (simp_all add: heartbeat_def ensure_participant_def m_def e_def Let_def)
qed

lemma lifecycle_submit_task:
  assumes L: "lifecycle n" and room: "next_task_id n \<noteq> - 1"
  shows "lifecycle (snd (submit_task owner pid rew payload n))"
proof (cases "ensure_project_owner owner pid n = Inr ()")
  case False
  then obtain e where "ensure_project_owner owner pid n = Inl e"
    by (cases "ensure_project_owner owner pid n") auto
  with L show ?thesis
    by (simp add: submit_task_def)
next
  case True
  then obtain p where p: "hm_get (projects n) pid = Some p" "owner_id p = owner"
    by auto
  have "lifecycle (snd (submit_task owner pid rew payload n))" if "rew \<le> quota_available p"
  proof -
    define i where "i = next_task_id n"
    define t where "t = task_new i pid rew payload (max (consensus_quorum (config n)) 1)
        (max (max_reports_per_task (config n)) 1)"
    define Q where "Q = hm_modify pid (\<lambda>p. p\<lparr>quota_available := quota_available p - rew,
        quota_locked := quota_locked p + rew\<rparr>) (projects n)"
    have Q: "same_projects Q (projects n)"
      unfolding Q_def by (rule same_projects_modify) simp
    have less: "i < i + 1"
      using room unfolding i_def by (rule less_succ)
    have none: "hm_get (tasks n) i = None" "i \<notin> set (pending_tasks n)" "hm_get (leases n) i = None"
      using lifecycle_slot [OF L, of i]
      by (auto simp: slot_ok_def task_ok_def i_def split: option.splits)
    let ?k = "n\<lparr>projects := Q, next_task_id := i + 1, tasks := hm_insert i t (tasks n),
        pending_tasks := pending_tasks n @ [i]\<rparr>"
    have "slot_ok ?k j" for j
    proof (cases "j = i")
      case True
      have "task_ok ?k i t"
        using less p Q same_projects_dom [OF Q] by (auto simp: task_ok_def t_def task_new_def)
      then show ?thesis
        using True none by (simp add: slot_ok_def status_ok_def t_def task_new_def)
    next
      case False
      then show ?thesis
        using less same_projects_dom [OF Q]
        by (intro slot_ok_cong [OF _ _ _ _ _ lifecycle_slot [OF L]]) (simp_all add: i_def)
    qed
    moreover have "store_ok ?k"
      using L Q none projects_ok_same [of ?k n] by (simp add: lifecycle_def store_ok_def)
    moreover have "snd (submit_task owner pid rew payload n) = ?k"
      using that p none
      by (simp add: submit_task_def ensure_project_owner_def reserve_project_quota_def project_or_err_def net_steps Let_def
          enqueue_pending_def i_def t_def Q_def)
    ultimately show ?thesis
      by (simp add: lifecycle_def)
  qed
  moreover have "submit_task owner pid rew payload n =
      (Inl (NotEnoughProjectQuota pid rew (quota_available p)), n)" if "quota_available p < rew"
    using that p
    by (simp add: submit_task_def ensure_project_owner_def reserve_project_quota_def project_or_err_def)
  ultimately show ?thesis
    using L by (cases "rew \<le> quota_available p") auto
qed

section \<open>Submitting a result\<close>

definition reported :: "task_id \<Rightarrow> task_report \<Rightarrow> network \<Rightarrow> network" where
  "reported tid r n =
     n\<lparr>leases := hm_remove tid (leases n),
       tasks := hm_modify tid (\<lambda>t. t\<lparr>t_reports := t_reports t @ [r]\<rparr>) (tasks n)\<rparr>"

text \<open>The three outcomes of a recorded report.\<close>

definition settle :: "hash_fun \<Rightarrow> task_id \<Rightarrow> task \<Rightarrow> network \<Rightarrow> bool result" where
  "settle H tid t n =
     (case consensus_digest n (t_reports t) (weight_required t) of
        Some accepted \<Rightarrow> and_then (finalize_task H tid accepted n) (\<lambda>_ n. (Inr True, n))
      | None \<Rightarrow>
          if max_reports t \<le> usize_of (length (t_reports t))
          then and_then (reject_task tid n) (\<lambda>_ n. (Inr True, n))
          else and_then (return_task_to_queue tid n) (\<lambda>_ n. (Inr False, n)))"

lemma submit_result_eq:
  assumes "hm_has (participants n) w"
    and "hm_get (leases (reclaim_expired_leases H n)) tid = Some l" and "lease_worker l = w"
    and "hm_get (tasks (reclaim_expired_leases H n)) tid = Some t"
  shows "submit_result H w tid digest cost enc n =
    settle H tid (t\<lparr>t_reports := t_reports t @ [\<lparr>report_worker = w, result_digest = digest,
        actual_cost = cost, report_encrypted = enc\<rparr>]\<rparr>)
      (reported tid \<lparr>report_worker = w, result_digest = digest, actual_cost = cost,
         report_encrypted = enc\<rparr> (reclaim_expired_leases H n))"
  using assms
  by (simp add: submit_result_def ensure_participant_def Let_def lease_for_worker_def
      record_report_def task_or_err_def net_steps settle_def reported_def)

lemma submit_result_cases:
  assumes L: "lifecycle n"
  obtains (unknown) "\<not> hm_has (participants n) w"
    and "submit_result H w tid digest cost enc n = (Inl (ParticipantNotFound w), n)"
  | (refused) "hm_has (participants n) w"
    and "\<forall>l. hm_get (leases (reclaim_expired_leases H n)) tid = Some l \<longrightarrow> lease_worker l \<noteq> w"
    and "submit_result H w tid digest cost enc n =
           (Inl (TaskNotAssignedToWorker tid w), reclaim_expired_leases H n)"
  | (recorded) t r where "hm_has (participants n) w"
    and "hm_get (tasks (reclaim_expired_leases H n)) tid = Some t"
    and "t_status t = Assigned w (expires_at_tick (the (hm_get (leases (reclaim_expired_leases H n)) tid)))"
    and "r = \<lparr>report_worker = w, result_digest = digest, actual_cost = cost, report_encrypted = enc\<rparr>"
    and "detached tid (reported tid r (reclaim_expired_leases H n))"
    and "hm_get (tasks (reported tid r (reclaim_expired_leases H n))) tid
           = Some (t\<lparr>t_reports := t_reports t @ [r]\<rparr>)"
    and "submit_result H w tid digest cost enc n =
           settle H tid (t\<lparr>t_reports := t_reports t @ [r]\<rparr>)
             (reported tid r (reclaim_expired_leases H n))"
proof (cases "hm_has (participants n) w")
  case False
  then have "submit_result H w tid digest cost enc n = (Inl (ParticipantNotFound w), n)"
    by (simp add: submit_result_def ensure_participant_def)
  with False show thesis
    by (rule unknown)
next
  case w: True
  define m where "m = reclaim_expired_leases H n"
  define r where "r = \<lparr>report_worker = w, result_digest = digest, actual_cost = cost,
    report_encrypted = enc\<rparr>"
  have Lm: "lifecycle m"
    unfolding m_def by (rule lifecycle_reclaim [OF L])
  show thesis
  proof (cases "\<exists>l. hm_get (leases m) tid = Some l \<and> lease_worker l = w")
    case False
    then have "submit_result H w tid digest cost enc n = (Inl (TaskNotAssignedToWorker tid w), m)"
      using w by (auto simp: submit_result_def ensure_participant_def lease_for_worker_def Let_def
          m_def [symmetric] split: option.splits)
    then show thesis
      using False w unfolding m_def by (intro refused) auto
  next
    case True
    then obtain l where l: "hm_get (leases m) tid = Some l" "lease_worker l = w"
      by blast
    obtain t where t: "hm_get (tasks m) tid = Some t" "t_status t = Assigned w (expires_at_tick l)"
      "w \<notin> set (map report_worker (t_reports t))"
      using Lm l(1) by (rule lifecycle_leaseD) (use l(2) in auto)
    have d: "detached tid (reported tid r m)"
      using detached_report [where r = r, OF lease_lost [OF Lm l(1)]] t
      by (simp add: reported_def r_def)
    show thesis
      using d t l w submit_result_eq [where n = n and H = H and digest = digest and cost = cost
          and enc = enc, OF w l(1) [unfolded m_def] l(2) t(1) [unfolded m_def]]
      unfolding m_def r_def by (intro recorded) (auto simp: reported_def)
  qed
qed

definition settled_or_queued :: "task_id \<Rightarrow> bool result \<Rightarrow> bool" where
  "settled_or_queued tid res \<longleftrightarrow> lifecycle (snd res) \<and>
     (case fst res of Inl _ \<Rightarrow> False
      | Inr done \<Rightarrow> \<exists>t. hm_get (tasks (snd res)) tid = Some t
          \<and> (if done then is_finished (t_status t) else t_status t = Pending))"

lemma finishes_settles:
  "finishes tid res \<Longrightarrow> settled_or_queued tid (and_then res (\<lambda>_ n. (Inr True, n)))"
  by (cases res) (auto simp: finishes_def settled_or_queued_def)

lemma settle_settles:
  assumes d: "detached tid n" and t: "hm_get (tasks n) tid = Some t"
  shows "settled_or_queued tid (settle H tid t n)"
proof (cases "consensus_digest n (t_reports t) (weight_required t)")
  case (Some accepted)
  then show ?thesis
    using finishes_settles [OF finalize_task_finishes [OF d]] by (simp add: settle_def)
next
  case None
  have q: "tid \<notin> set (pending_tasks n)"
    using d by (simp add: detached_def)
  show ?thesis
  proof (cases "max_reports t \<le> usize_of (length (t_reports t))")
    case True
    then show ?thesis
      using None finishes_settles [OF reject_task_finishes [OF d]] by (simp add: settle_def)
  next
    case False
    then show ?thesis
      using None t detached_requeue [OF d]
      by (simp add: settle_def return_task_to_queue_eq [OF t q] settled_or_queued_def)
  qed
qed

lemma lifecycle_submit_result:
  assumes "lifecycle n"
  shows "lifecycle (snd (submit_result H w tid digest cost enc n))"
proof (cases rule: submit_result_cases [OF assms, of w H tid digest cost enc])
  case 1
  with assms show ?thesis by simp
next
  case 2
  then show ?thesis by (simp add: lifecycle_reclaim [OF assms])
next
  case (3 t r)
  then show ?thesis
    using settle_settles [of tid "reported tid r (reclaim_expired_leases H n)"]
    by (simp add: settled_or_queued_def)
qed

section \<open>Projects, participants and the whole log\<close>

lemma lifecycle_projects:
  assumes L: "lifecycle n" and Q: "same_projects Q (projects n)"
  shows "lifecycle (n\<lparr>projects := Q\<rparr>)"
proof -
  have "slot_ok (n\<lparr>projects := Q\<rparr>) i" for i
    by (intro slot_ok_cong [OF _ _ _ _ _ lifecycle_slot [OF L]])
      (simp_all add: same_projects_dom [OF Q])
  then show ?thesis
    using L Q projects_ok_same [of "n\<lparr>projects := Q\<rparr>" n]
    by (simp add: lifecycle_def store_ok_def)
qed

lemma lifecycle_create_project:
  assumes L: "lifecycle n" and room: "next_project_id n \<noteq> - 1"
  shows "lifecycle (snd (create_project owner nm key n))"
proof (cases "hm_has (participants n) owner")
  case False
  with L show ?thesis
    by (simp add: create_project_def ensure_participant_def)
next
  case True
  define i where "i = next_project_id n"
  define p where "p = (case key of None \<Rightarrow> project_new i owner nm
    | Some k \<Rightarrow> with_encryption_pubkey k (project_new i owner nm))"
  let ?m = "n\<lparr>next_project_id := i + 1, projects := hm_insert i p (projects n)\<rparr>"
  have less: "i < i + 1"
    using room unfolding i_def by (rule less_succ)
  have p: "pr_id p = i"
    by (simp add: p_def project_new_def with_encryption_pubkey_def split: option.split)
  have P: "projects_ok n"
    using L by (simp add: lifecycle_def store_ok_def)
  have old: "pr_id q = j \<and> j < i" if "hm_get (projects n) j = Some q" for j q
    using that P by (simp add: projects_ok_def i_def)
  have new: "pr_id q = j \<and> j < i + 1" if "hm_get (hm_insert i p (projects n)) j = Some q" for j q
  proof (cases "j = i")
    case True
    then have "q = p"
      using that by simp
    with p True less show ?thesis
      by metis
  next
    case False
    with that have "pr_id q = j \<and> j < i"
      by (intro old) simp
    with less show ?thesis
      using less_trans by blast
  qed
  define Q where "Q = hm_insert i p (projects n)"
  have "hm_ok Q" and "\<And>j q. hm_get Q j = Some q \<Longrightarrow> pr_id q = j \<and> j < i + 1"
    using P new by (simp_all only: Q_def projects_ok_def hm_ok_insert)
  then have "projects_ok ?m"
    by (simp add: projects_ok_def flip: Q_def)
  moreover have "slot_ok ?m j" for j
    by (rule slot_ok_cong [OF _ _ _ _ _ lifecycle_slot [OF L]]) (simp_all add: subset_insertI)
  ultimately have "lifecycle ?m"
    using L by (simp add: lifecycle_def store_ok_def)
  then show ?thesis
    using True
    by (simp add: create_project_def ensure_participant_def Let_def flip: i_def p_def)
qed

text \<open>The outcomes of a donation.\<close>

lemma donate_to_project_cases:
  obtains (refused) e where "donate_to_project H supporter pid amount n = (Inl e, n)"
  | (paid) p where "hm_has (participants n) supporter" and "hm_get (projects n) pid = Some p"
    and "amount \<le> balance_of (chain n) supporter"
    and "donate_to_project H supporter pid amount n =
      (Inr (), n\<lparr>chain := commit_block H (current_tick n) [Transfer supporter (project_address pid)
           amount (''fund:project='' @ show_u64 pid)] (chain n),
         projects := hm_modify pid (refunded amount) (projects n)\<rparr>)"
proof (cases "hm_has (participants n) supporter \<and> hm_has (projects n) pid
    \<and> amount \<le> balance_of (chain n) supporter")
  case True
  then obtain p where p: "hm_get (projects n) pid = Some p"
    by auto
  have "\<not> balance_of (chain n) supporter < amount"
    using True by (simp add: not_less)
  then show thesis
    using True p by (intro paid [OF _ p]) (simp_all add: donate_to_project_def
        ensure_participant_def project_or_err_def Let_def transfer_to_project_def net_steps
        refunded_def [abs_def])
next
  case False
  then have "donate_to_project H supporter pid amount n =
      (Inl (if \<not> hm_has (participants n) supporter then ParticipantNotFound supporter
            else if \<not> hm_has (projects n) pid then ProjectNotFound pid
            else NotEnoughBalance supporter amount (balance_of (chain n) supporter)), n)"
    by (auto simp: donate_to_project_def ensure_participant_def project_or_err_def
        Let_def not_le split: option.split)
  then show thesis
    by (rule refused)
qed

lemma lifecycle_donate:
  assumes L: "lifecycle n"
  shows "lifecycle (snd (donate_to_project H supporter pid amount n))"
proof (cases rule: donate_to_project_cases [of H supporter pid amount n])
  case refused
  with L show ?thesis by simp
next
  case paid
  then show ?thesis
    using lifecycle_projects [OF lifecycle_chain [OF L], OF same_projects_modify] by simp
qed

lemma lifecycle_register:
  assumes L: "lifecycle n"
  shows "lifecycle (register_participant_with_id H i nm bal key n)"
proof -
  have "lifecycle (n\<lparr>participants := hm_insert i (new_participant i nm key) (participants n),
      next_participant_id := j\<rparr>)" for j
    using L pmap_ok_insert [OF lifecycle_pmap [OF L]]
    by (simp add: lifecycle_def store_ok_def projects_ok_def)
  then show ?thesis
    using L lifecycle_chain by (auto simp: register_participant_with_id_def Let_def net_steps)
qed

text \<open>One operation of the log, while the identifier counters have room.\<close>

lemma lifecycle_apply_op:
  assumes L: "lifecycle n" and "next_task_id n \<noteq> - 1" and "next_project_id n \<noteq> - 1"
  shows "lifecycle (apply_op H op n)"
proof (cases op)
  case (TransferOp f to amount memo)
  then show ?thesis
    using L by (simp add: transfer_def Let_def lifecycle_commit)
next
  case (FundProject owner pid amount)
  then show ?thesis
    using L by (auto simp: fund_project_from_owner_def lifecycle_donate split: on_ok_split)
next
  case (Tick k)
  then show ?thesis
    using L by (simp add: tick_def lifecycle_reclaim lifecycle_tick)
qed (simp_all add: assms lifecycle_register lifecycle_create_project lifecycle_donate
      lifecycle_submit_task lifecycle_request_task lifecycle_submit_result)

lemma lifecycle_init: "lifecycle (with_config H cfg)"
  by (simp add: lifecycle_def store_ok_def pmap_ok_def projects_ok_def with_config_def slot_ok_def)

end
