(* ===== verification/Replay.thy ===== *)
theory Replay
  imports Lifecycle
begin

text \<open>
  Replaying a log of operations from the initial state: what only grows and never changes, and
  the life-cycle invariant of every state a log can reach.
\<close>

section \<open>What an operation may change\<close>

definition map_evolves :: "('v \<Rightarrow> 'v \<Rightarrow> bool) \<Rightarrow> ('k \<Rightarrow> 'v option) \<Rightarrow> ('k \<Rightarrow> 'v option) \<Rightarrow> bool" where
  "map_evolves R m m' \<longleftrightarrow> (\<forall>k v. m k = Some v \<longrightarrow> (\<exists>v'. m' k = Some v' \<and> R v v'))"

definition participant_evolves :: "participant \<Rightarrow> participant \<Rightarrow> bool" where
  "participant_evolves p p' \<longleftrightarrow>
     p_id p' = p_id p \<and> p_name p' = p_name p \<and> public_key p' = public_key p"

definition project_evolves :: "project \<Rightarrow> project \<Rightarrow> bool" where
  "project_evolves p p' \<longleftrightarrow> pr_id p' = pr_id p \<and> owner_id p' = owner_id p
     \<and> pr_name p' = pr_name p \<and> owner_encryption_pubkey p' = owner_encryption_pubkey p"

definition task_evolves :: "task \<Rightarrow> task \<Rightarrow> bool" where
  "task_evolves t t' \<longleftrightarrow> t_id t' = t_id t \<and> t_project t' = t_project t \<and> t_reward t' = t_reward t
     \<and> t_payload t' = t_payload t \<and> weight_required t' = weight_required t
     \<and> max_reports t' = max_reports t \<and> (\<exists>rs. t_reports t' = t_reports t @ rs)
     \<and> (is_finished (t_status t) \<longrightarrow> t' = t)"

text \<open>A ledger grows by blocks it hashes and links itself.\<close>

definition ledger_grows :: "hash_fun \<Rightarrow> blockchain \<Rightarrow> blockchain \<Rightarrow> bool" where
  "ledger_grows H c c' \<longleftrightarrow> (\<exists>cs. c' = fold (\<lambda>(t, txs). commit_block H t txs) cs c)"

definition evolves :: "hash_fun \<Rightarrow> network \<Rightarrow> network \<Rightarrow> bool" where
  "evolves H n n' \<longleftrightarrow> config n' = config n \<and> current_tick n \<le> current_tick n'
     \<and> ledger_grows H (chain n) (chain n')
     \<and> map_evolves participant_evolves (hm_get (participants n)) (hm_get (participants n'))
     \<and> map_evolves project_evolves (hm_get (projects n)) (hm_get (projects n'))
     \<and> map_evolves task_evolves (hm_get (tasks n)) (hm_get (tasks n'))"

text \<open>Most operations leave the counters alone.\<close>

definition quiet :: "hash_fun \<Rightarrow> network \<Rightarrow> network \<Rightarrow> bool" where
  "quiet H n n' \<longleftrightarrow> evolves H n n' \<and> next_task_id n' = next_task_id n
     \<and> next_project_id n' = next_project_id n"

lemma participant_evolves_refl [simp]: "participant_evolves p p"
  by (simp add: participant_evolves_def)

lemma project_evolves_refl [simp]: "project_evolves p p"
  by (simp add: project_evolves_def)

lemma task_evolves_refl [simp]: "task_evolves t t"
  by (simp add: task_evolves_def)

lemma map_evolves_refl [simp]: "(\<And>v. R v v) \<Longrightarrow> map_evolves R m m"
  by (simp add: map_evolves_def)

lemma map_evolves_trans:
  assumes "\<And>a b c. R a b \<Longrightarrow> R b c \<Longrightarrow> R a c" and "map_evolves R m m'" and "map_evolves R m' m''"
  shows "map_evolves R m m''"
  using assms unfolding map_evolves_def by meson

lemma map_evolves_upd:
  "m k = Some v \<Longrightarrow> R v v' \<Longrightarrow> (\<And>v. R v v) \<Longrightarrow> map_evolves R m (m(k := Some v'))"
  by (simp add: map_evolves_def)

lemma map_evolves_modify:
  "(\<And>v. R v v) \<Longrightarrow> (\<And>v. hm_get m k = Some v \<Longrightarrow> R v (f v)) \<Longrightarrow>
   map_evolves R (hm_get m) (hm_get (hm_modify k f m))"
  by (auto simp: map_evolves_def)

lemma map_evolves_insert:
  "(\<And>v. R v v) \<Longrightarrow> hm_get m k = None \<Longrightarrow> map_evolves R (hm_get m) (hm_get (hm_insert k v m))"
  by (auto simp: map_evolves_def)

lemma participant_evolves_trans:
  "participant_evolves a b \<Longrightarrow> participant_evolves b c \<Longrightarrow> participant_evolves a c"
  by (simp add: participant_evolves_def)

lemma project_evolves_trans:
  "project_evolves a b \<Longrightarrow> project_evolves b c \<Longrightarrow> project_evolves a c"
  by (simp add: project_evolves_def)

lemma task_evolves_trans: "task_evolves a b \<Longrightarrow> task_evolves b c \<Longrightarrow> task_evolves a c"
  by (auto simp: task_evolves_def)

lemma ledger_grows_refl [simp]: "ledger_grows H c c"
  unfolding ledger_grows_def by (intro exI [of _ "[]"]) simp

lemma ledger_grows_commit [simp]: "ledger_grows H c (commit_block H t txs c)"
  unfolding ledger_grows_def by (intro exI [of _ "[(t, txs)]"]) simp

lemma ledger_grows_trans:
  assumes "ledger_grows H a b" and "ledger_grows H b c"
  shows "ledger_grows H a c"
proof -
  obtain cs ds where "b = fold (\<lambda>(t, txs). commit_block H t txs) cs a"
    "c = fold (\<lambda>(t, txs). commit_block H t txs) ds b"
    using assms by (auto simp: ledger_grows_def)
  then have "c = fold (\<lambda>(t, txs). commit_block H t txs) (cs @ ds) a"
    by simp
  then show ?thesis
    unfolding ledger_grows_def by blast
qed

lemma ledger_grows_invariant:
  assumes "ledger_grows H c c'" and "P c" and "\<And>t txs c. P c \<Longrightarrow> P (commit_block H t txs c)"
  shows "P c'"
proof -
  have "P (fold (\<lambda>(t, txs). commit_block H t txs) cs c)" for cs
    using assms(2) by (induction cs arbitrary: c) (auto intro: assms(3))
  then show ?thesis
    using assms(1) by (auto simp: ledger_grows_def)
qed

lemma evolves_refl [simp]: "evolves H n n"
  by (simp add: evolves_def)

lemma quiet_refl [simp]: "quiet H n n"
  by (simp add: quiet_def)

lemma evolves_trans:
  assumes "evolves H a b" and "evolves H b c"
  shows "evolves H a c"
proof -
  have "ledger_grows H (chain a) (chain c)"
    using assms ledger_grows_trans unfolding evolves_def by blast
  moreover have "current_tick a \<le> current_tick c" "config c = config a"
    using assms by (auto simp: evolves_def intro: order_trans)
  moreover have "map_evolves participant_evolves (hm_get (participants a)) (hm_get (participants c))"
    using assms participant_evolves_trans unfolding evolves_def by (blast intro: map_evolves_trans)
  moreover have "map_evolves project_evolves (hm_get (projects a)) (hm_get (projects c))"
    using assms project_evolves_trans unfolding evolves_def by (blast intro: map_evolves_trans)
  moreover have "map_evolves task_evolves (hm_get (tasks a)) (hm_get (tasks c))"
    using assms task_evolves_trans unfolding evolves_def by (blast intro: map_evolves_trans)
  ultimately show ?thesis
    by (simp add: evolves_def)
qed

lemma quiet_trans: "quiet H a b \<Longrightarrow> quiet H b c \<Longrightarrow> quiet H a c"
  using evolves_trans [of H a b c] by (simp add: quiet_def)

text \<open>Changes of one component.\<close>

lemma participants_adjust_map:
  "map_evolves participant_evolves (hm_get m) (hm_get (adjust_map i delta m))"
  unfolding adjust_map_def by (rule map_evolves_modify) (simp_all add: participant_evolves_def)

lemma participants_fold_adjust:
  "map_evolves participant_evolves (hm_get m) (hm_get (fold (\<lambda>x. adjust_map (f x) delta) xs m))"
proof (induction xs arbitrary: m)
  case (Cons x xs)
  show ?case
    using map_evolves_trans [OF participant_evolves_trans participants_adjust_map Cons.IH] by simp
qed simp

lemma projects_modify:
  "(\<And>p. project_evolves p (f p)) \<Longrightarrow>
   map_evolves project_evolves (hm_get m) (hm_get (hm_modify k f m))"
  by (rule map_evolves_modify) simp_all

lemma project_evolves_quota [simp]:
  "project_evolves p (released a p)" "project_evolves p (refunded a p)"
  "project_evolves p (refunded a (released b p))"
  by (simp_all add: project_evolves_def released_def refunded_def)

lemma quietI:
  assumes "config n' = config n" and "next_task_id n' = next_task_id n"
    and "next_project_id n' = next_project_id n" and "current_tick n \<le> current_tick n'"
    and "chain n' = chain n \<or> (\<exists>t txs. chain n' = commit_block H t txs (chain n))"
    and "map_evolves participant_evolves (hm_get (participants n)) (hm_get (participants n'))"
    and "map_evolves project_evolves (hm_get (projects n)) (hm_get (projects n'))"
    and "map_evolves task_evolves (hm_get (tasks n)) (hm_get (tasks n'))"
  shows "quiet H n n'"
  using assms by (auto simp: quiet_def evolves_def)

section \<open>The operations that leave the counters alone\<close>

lemma quiet_commit: "quiet H n (commit H txs n)"
  by (rule quietI [where H = H]) (auto simp: net_steps)

lemma tasks_modify_running:
  assumes "\<And>t. hm_get m tid = Some t \<Longrightarrow> \<not> is_finished (t_status t) \<and> t_id (f t) = t_id t
      \<and> t_project (f t) = t_project t \<and> t_reward (f t) = t_reward t \<and> t_payload (f t) = t_payload t
      \<and> weight_required (f t) = weight_required t \<and> max_reports (f t) = max_reports t
      \<and> (\<exists>rs. t_reports (f t) = t_reports t @ rs)"
  shows "map_evolves task_evolves (hm_get m) (hm_get (hm_modify tid f m))"
  using assms by (intro map_evolves_modify) (simp_all add: task_evolves_def)

lemma quiet_lost_lease:
  assumes "hm_get (tasks n) tid = Some t" and "\<not> is_finished (t_status t)"
  shows "quiet H n (lost_lease tid w n)"
  using assms
  by (intro quietI) (auto simp: lost_lease_def simp del: hm_get_modify
      intro!: participants_adjust_map tasks_modify_running)

lemma quiet_leases: "quiet H n (n\<lparr>leases := L\<rparr>)"
  by (rule quietI) auto

lemma quiet_reclaim_one:
  assumes "lifecycle n"
  shows "quiet H n (fst (reclaim_one tid (n, txs)))"
proof (cases "hm_get (leases n) tid")
  case None
  then show ?thesis
    using assms by (simp add: reclaim_one_unleased quiet_leases)
next
  case (Some l)
  obtain t where "hm_get (tasks n) tid = Some t"
    "t_status t = Assigned (lease_worker l) (expires_at_tick l)"
    using assms Some by (rule lifecycle_leaseD)
  then show ?thesis
    using assms Some by (simp add: reclaim_one_leased quiet_lost_lease [where t = t])
qed

lemma quiet_fold_reclaim:
  "lifecycle n \<Longrightarrow> quiet H n (fst (fold reclaim_one tids (n, txs)))"
proof (induction tids arbitrary: n txs)
  case (Cons tid tids)
  obtain n' txs' where r: "reclaim_one tid (n, txs) = (n', txs')"
    by fastforce
  have "quiet H n n'" "lifecycle n'"
    using quiet_reclaim_one [OF Cons.prems, of H tid txs] lifecycle_reclaim_one [OF Cons.prems, of tid txs]
    by (simp_all add: r)
  then show ?case
    using Cons.IH [of n' txs'] quiet_trans by (simp add: r)
qed simp

lemma quiet_reclaim:
  assumes "lifecycle n"
  shows "quiet H n (reclaim_expired_leases H n)"
proof -
  obtain n' txs where r: "fold reclaim_one (expired_leases n) (n, []) = (n', txs)"
    by fastforce
  then have "quiet H n n'"
    using quiet_fold_reclaim [OF assms, of H "expired_leases n" "[]"] by simp
  then show ?thesis
    using quiet_trans [OF _ quiet_commit] by (simp add: reclaim_expired_leases_def r)
qed

lemma quiet_assigned:
  assumes "hm_get (tasks n) tid = Some t" and "\<not> is_finished (t_status t)"
  shows "quiet H n (assigned w e tid n)"
  using assms
  by (intro quietI) (auto simp: assigned_def simp del: hm_get_modify intro!: tasks_modify_running)

lemma quiet_request_task:
  assumes "lifecycle n"
  shows "quiet H n (snd (request_task H w n))"
proof (cases "hm_has (participants n) w")
  case False
  then show ?thesis
    by (simp add: request_task_def ensure_participant_def)
next
  case True
  have L: "lifecycle (reclaim_expired_leases H n)"
    by (rule lifecycle_reclaim [OF assms])
  from True L show ?thesis
  proof (cases rule: request_task_cases [where H = H])
    case idle
    then show ?thesis
      by (simp add: quiet_reclaim [OF assms])
  next
    case (claim tid t e)
    then have "\<not> is_finished (t_status t)"
      by (auto simp: worker_can_take_task_def)
    then show ?thesis
      using claim quiet_trans [OF quiet_reclaim [OF assms] quiet_assigned] by simp
  qed
qed

lemma quiet_reject:
  assumes t: "hm_get (tasks n) tid = Some t" "hm_get (projects n) (t_project t) = Some p"
    and run: "\<not> is_finished (t_status t)"
  shows "quiet H n (snd (reject_task tid n))"
  unfolding reject_task_eq [OF t] punished_def using t run
  by (intro quietI) (auto simp del: hm_get_modify
      intro!: participants_fold_adjust projects_modify tasks_modify_running)

lemma quiet_projects: "(\<And>p. project_evolves p (f p)) \<Longrightarrow> quiet H n (n\<lparr>projects := hm_modify k f (projects n)\<rparr>)"
  by (rule quietI) (auto simp del: hm_get_modify intro!: projects_modify)

lemma participants_rewarded:
  "map_evolves participant_evolves (hm_get (participants n))
     (hm_get (rewarded_and_punished n d rs))"
  unfolding rewarded_and_punished_def
  by (rule map_evolves_trans [OF _ participants_fold_adjust [where f = "\<lambda>w. w"]
        participants_fold_adjust]) (rule participant_evolves_trans)

lemma quiet_finalize:
  assumes t: "hm_get (tasks n) tid = Some t" and p: "hm_get (projects n) (t_project t) = Some p"
    and id: "t_id t = tid" and run: "\<not> is_finished (t_status t)"
  shows "quiet H n (snd (finalize_task H tid digest n))"
proof -
  consider (none) "winners_of digest (t_reports t) = []"
    | (budget) "winners_of digest (t_reports t) \<noteq> []" "is_budget_exhausted_digest digest"
    | (zero) "winners_of digest (t_reports t) \<noteq> []" "\<not> is_budget_exhausted_digest digest"
        "total_weight_of n (winners_of digest (t_reports t)) = 0"
    | (pay) "winners_of digest (t_reports t) \<noteq> []" "\<not> is_budget_exhausted_digest digest"
        "total_weight_of n (winners_of digest (t_reports t)) \<noteq> 0"
    by blast
  then show ?thesis
  proof cases
    case none
    then show ?thesis
      using quiet_reject [OF t p run] by (simp add: finalize_task_parts task_or_err_def t)
  next
    case budget
    have "quiet H n (snd (finalize_budget_exhausted_task H tid (t_project t) (t_reward t) digest
        (winners_of digest (t_reports t)) (encrypted_of digest (t_reports t)) n))"
      unfolding finalize_budget_exhausted_task_eq [OF t p] using t run
      by (intro quietI [where H = H]) (auto simp del: hm_get_modify
          intro!: projects_modify tasks_modify_running)
    with budget show ?thesis
      by (simp add: finalize_task_parts task_or_err_def t)
  next
    case zero
    then show ?thesis
      using quiet_trans [OF quiet_projects quiet_reject] t p run
      by (simp add: finalize_task_parts task_or_err_def release_locked_quota_eq [OF p])
  next
    case pay
    show ?thesis
      unfolding finalize_task_eq [OF t p id pay(1-3)] using t run
      by (intro quietI [where H = H]) (auto simp del: hm_get_modify
          intro!: participants_rewarded projects_modify tasks_modify_running)
  qed
qed

lemma quiet_settle:
  assumes t: "hm_get (tasks n) tid = Some t" and d: "detached tid n"
    and run: "\<not> is_finished (t_status t)"
  shows "quiet H n (snd (settle H tid t n))"
proof (cases "consensus_digest n (t_reports t) (weight_required t)")
  case (Some accepted)
  obtain p where p: "hm_get (projects n) (t_project t) = Some p" and id: "t_id t = tid"
    using d t by (auto elim: detachedE)
  show ?thesis
    using quiet_finalize [OF t p id run, of H accepted] finalize_task_finishes [OF d, of H accepted]
    by (cases "finalize_task H tid accepted n") (auto simp: settle_def Some finishes_def)
next
  case None
  obtain p where p: "hm_get (projects n) (t_project t) = Some p"
    using d t by (auto elim: detachedE)
  have q: "tid \<notin> set (pending_tasks n)"
    using d by (simp add: detached_def)
  have "quiet H n (snd (return_task_to_queue tid n))"
    unfolding return_task_to_queue_eq [OF t q] using t run
    by (intro quietI) (auto simp del: hm_get_modify intro!: tasks_modify_running)
  then show ?thesis
    using quiet_reject [OF t p run] reject_task_eq [OF t p] return_task_to_queue_eq [OF t q]
    by (simp add: settle_def None)
qed

lemma quiet_reported:
  assumes "hm_get (tasks n) tid = Some t" and "\<not> is_finished (t_status t)"
  shows "quiet H n (reported tid r n)"
  using assms
  by (intro quietI) (auto simp: reported_def simp del: hm_get_modify intro!: tasks_modify_running)

lemma quiet_submit_result:
  assumes L: "lifecycle n"
  shows "quiet H n (snd (submit_result H w tid digest cost enc n))"
proof (cases rule: submit_result_cases [OF L, of w H tid digest cost enc])
  case 1
  then show ?thesis by simp
next
  case 2
  then show ?thesis by (simp add: quiet_reclaim [OF L])
next
  case (3 t r)
  have "quiet H n (reported tid r (reclaim_expired_leases H n))"
    by (rule quiet_trans [OF quiet_reclaim [OF L] quiet_reported [OF 3(2)]])
      (simp add: 3(3))
  moreover have "quiet H (reported tid r (reclaim_expired_leases H n))
      (snd (submit_result H w tid digest cost enc n))"
    unfolding 3(7) by (rule quiet_settle [OF 3(6,5)]) (simp add: 3(3))
  ultimately show ?thesis
    by (rule quiet_trans)
qed

lemma quiet_donate: "quiet H n (snd (donate_to_project H supporter pid amount n))"
proof (cases rule: donate_to_project_cases [of H supporter pid amount n])
  case refused
  then show ?thesis by simp
next
  case (paid p)
  show ?thesis
    unfolding paid(4)
    by (intro quietI [where H = H]) (auto simp del: hm_get_modify intro!: projects_modify)
qed

lemma quiet_register: "quiet H n (register_participant_with_id H i nm bal key n)"
proof (cases "hm_has (participants n) i")
  case False
  then have "map_evolves participant_evolves (hm_get (participants n))
      (hm_get (hm_insert i (new_participant i nm key) (participants n)))"
    by (intro map_evolves_insert) auto
  with False show ?thesis
    by (intro quietI [where H = H])
      (auto simp: register_participant_with_id_def Let_def net_steps simp del: hm_get_insert)
qed (simp add: register_participant_with_id_def)

lemma quiet_tick:
  assumes "lifecycle n"
  shows "quiet H n (tick H k n)"
proof -
  have "quiet H n (n\<lparr>current_tick := sat_add (current_tick n) k\<rparr>)"
    by (intro quietI) (auto simp: sat_add_ge)
  then show ?thesis
    using quiet_trans [OF _ quiet_reclaim [OF lifecycle_tick [OF assms]]] by (simp add: tick_def)
qed

section \<open>Submitting tasks and creating projects\<close>

definition room :: "network \<Rightarrow> bool" where
  "room n \<longleftrightarrow> next_task_id n \<noteq> - 1 \<and> next_project_id n \<noteq> - 1"

lemma submit_task_cases:
  obtains (refused) e where "submit_task owner pid rew payload n = (Inl e, n)"
  | (queued) p where "hm_get (projects n) pid = Some p" and "owner_id p = owner"
    and "rew \<le> quota_available p"
    and "submit_task owner pid rew payload n =
      (Inr (next_task_id n), enqueue_pending (next_task_id n)
        (n\<lparr>projects := hm_modify pid (\<lambda>p. p\<lparr>quota_available := quota_available p - rew,
             quota_locked := quota_locked p + rew\<rparr>) (projects n),
           next_task_id := next_task_id n + 1,
           tasks := hm_insert (next_task_id n) (task_new (next_task_id n) pid rew payload
             (max (consensus_quorum (config n)) 1) (max (max_reports_per_task (config n)) 1))
             (tasks n)\<rparr>))"
proof (cases "\<exists>p. hm_get (projects n) pid = Some p \<and> owner_id p = owner \<and> rew \<le> quota_available p")
  case True
  then obtain p where p: "hm_get (projects n) pid = Some p" "owner_id p = owner"
      "rew \<le> quota_available p"
    by blast
  have "\<not> quota_available p < rew"
    using p(3) by (simp add: not_less)
  then show thesis
    by (intro queued [OF p]) (simp add: submit_task_def ensure_project_owner_def project_or_err_def
        p(1,2) reserve_project_quota_def net_steps Let_def)
next
  case False
  then have "\<exists>e. submit_task owner pid rew payload n = (Inl e, n)"
    by (cases "hm_get (projects n) pid") (auto simp: submit_task_def ensure_project_owner_def
        project_or_err_def reserve_project_quota_def not_le)
  then show thesis
    using refused by blast
qed

lemma enqueue_pending_eq:
  "enqueue_pending tid n = n\<lparr>pending_tasks := (if tid \<in> set (pending_tasks n) then pending_tasks n
     else pending_tasks n @ [tid])\<rparr>"
  by (simp add: enqueue_pending_def)

lemma evolves_submit_task:
  assumes L: "lifecycle n"
  shows "evolves H n (snd (submit_task owner pid rew payload n))"
proof (cases rule: submit_task_cases [of owner pid rew payload n])
  case refused
  then show ?thesis by simp
next
  case (queued p)
  have fresh: "hm_get (tasks n) (next_task_id n) = None"
    using lifecycle_slot [OF L, of "next_task_id n"]
    by (auto simp: slot_ok_def task_ok_def split: option.splits)
  have "map_evolves project_evolves (hm_get (projects n))
      (hm_get (hm_modify pid (\<lambda>p. p\<lparr>quota_available := quota_available p - rew,
             quota_locked := quota_locked p + rew\<rparr>) (projects n)))"
    by (rule projects_modify) (simp add: project_evolves_def)
  moreover have "map_evolves task_evolves (hm_get (tasks n)) (hm_get (hm_insert (next_task_id n) t (tasks n)))"
    for t
    using fresh by (intro map_evolves_insert) simp_all
  ultimately show ?thesis
    unfolding queued(4)
    by (simp add: evolves_def enqueue_pending_eq del: hm_get_modify hm_get_insert)
qed

lemma evolves_create_project:
  assumes L: "lifecycle n"
  shows "evolves H n (snd (create_project owner nm key n))"
proof (cases "hm_has (participants n) owner")
  case False
  then show ?thesis
    by (simp add: create_project_def ensure_participant_def)
next
  case True
  have "hm_get (projects n) (next_project_id n) = None"
    using L by (cases "hm_get (projects n) (next_project_id n)")
      (auto simp: lifecycle_def store_ok_def projects_ok_def)
  then have "map_evolves project_evolves (hm_get (projects n))
      (hm_get (hm_insert (next_project_id n) p (projects n)))" for p
    by (intro map_evolves_insert) simp_all
  with True show ?thesis
    by (simp add: create_project_def ensure_participant_def Let_def evolves_def del: hm_get_insert)
qed

text \<open>What one operation of the log does to the state.\<close>

lemma evolves_apply_op:
  assumes L: "lifecycle n"
  shows "evolves H n (apply_op H op n)"
proof -
  have q: "quiet H n n' \<Longrightarrow> evolves H n n'" for n'
    by (simp add: quiet_def)
  show ?thesis
  proof (cases op)
    case (TransferOp f to amount memo)
    then show ?thesis
      using q [OF quiet_commit] by (simp add: transfer_def Let_def)
  next
    case (FundProject owner pid amount)
    then show ?thesis
      using q [OF quiet_donate] by (simp add: fund_project_from_owner_def split: on_ok_split)
  qed (simp_all add: q L quiet_register evolves_create_project quiet_donate evolves_submit_task
      quiet_request_task quiet_submit_result quiet_tick)
qed

text \<open>The counters grow by at most one per operation.\<close>

lemma counters_apply_op:
  assumes L: "lifecycle n"
  shows "unat (next_task_id (apply_op H op n)) \<le> unat (next_task_id n) + 1
    \<and> unat (next_project_id (apply_op H op n)) \<le> unat (next_project_id n) + 1"
proof -
  have suc: "unat (a + 1) \<le> unat a + 1" for a :: u64
    by (simp add: unat_word_ariths)
  have q: "quiet H n n' \<Longrightarrow> unat (next_task_id n') \<le> unat (next_task_id n) + 1
      \<and> unat (next_project_id n') \<le> unat (next_project_id n) + 1" for n'
    by (simp add: quiet_def)
  show ?thesis
  proof (cases op)
    case (CreateProject owner nm key)
    then show ?thesis
      using suc by (simp add: create_project_def Let_def split: on_ok_split)
  next
    case (SubmitTask owner pid rew payload)
    show ?thesis
      by (cases rule: submit_task_cases [of owner pid rew payload n])
        (use suc in \<open>simp_all add: SubmitTask enqueue_pending_eq\<close>)
  next
    case (TransferOp f to amount memo)
    then show ?thesis
      using q [OF quiet_commit] by (simp add: transfer_def Let_def)
  next
    case (FundProject owner pid amount)
    then show ?thesis
      using q [OF quiet_donate] by (simp add: fund_project_from_owner_def split: on_ok_split)
  qed (rule q, simp add: L quiet_register quiet_donate quiet_request_task quiet_submit_result quiet_tick)+
qed

section \<open>Replaying a log\<close>

text \<open>
  The state after a log, as consensus.rs builds it: the operations in order on the initial
  state of the configuration.
\<close>

definition replay :: "hash_fun \<Rightarrow> network_config \<Rightarrow> ledger_op list \<Rightarrow> network" where
  "replay H cfg ops = fold (apply_op H) ops (with_config H cfg)"

lemma replay_snoc: "replay H cfg (ops @ [op]) = apply_op H op (replay H cfg ops)"
  by (simp add: replay_def)

text \<open>Logs so short that no 64-bit counter of identifiers can run out.\<close>

definition short_log :: "ledger_op list \<Rightarrow> bool" where
  "short_log ops \<longleftrightarrow> length ops < 2 ^ 64 - 2"

lemma replay_counters:
  assumes "length ops < 2 ^ 64 - 2"
  shows "lifecycle (replay H cfg ops) \<and> unat (next_task_id (replay H cfg ops)) \<le> length ops + 1
    \<and> unat (next_project_id (replay H cfg ops)) \<le> length ops + 1"
  using assms
proof (induction ops rule: rev_induct)
  case Nil
  then show ?case
    using lifecycle_init [of H cfg] by (simp add: replay_def) (simp add: with_config_def)
next
  case (snoc op ops)
  let ?n = "replay H cfg ops"
  have IH: "lifecycle ?n" "unat (next_task_id ?n) \<le> length ops + 1"
      "unat (next_project_id ?n) \<le> length ops + 1"
    using snoc by simp_all
  have "a \<noteq> - 1" if "unat a \<le> length ops + 1" for a :: u64
    using that snoc.prems unat_minus_one_64 by auto
  then have "lifecycle (apply_op H op ?n)"
    using IH by (intro lifecycle_apply_op)
  then show ?case
    using counters_apply_op [OF IH(1), of H op] IH(2,3) by (simp add: replay_snoc)
qed

lemma replay_evolves:
  "short_log (ops @ rest) \<Longrightarrow> evolves H (replay H cfg ops) (replay H cfg (ops @ rest))"
proof (induction rest rule: rev_induct)
  case (snoc op rest)
  have "lifecycle (replay H cfg (ops @ rest))"
    using replay_counters [of "ops @ rest" H cfg] snoc.prems by (simp add: short_log_def)
  from evolves_trans [OF snoc.IH evolves_apply_op [OF this]] snoc.prems show ?case
    by (simp add: replay_snoc short_log_def flip: append_assoc)
qed simp

lemma lifecycle_replay: "short_log ops \<Longrightarrow> lifecycle (replay H cfg ops)"
  using replay_counters by (simp add: short_log_def)

lemma verify_replay:
  assumes "short_log ops"
  shows "verify_integrity H (chain (replay H cfg ops))"
proof -
  have "ledger_grows H (chain (replay H cfg [])) (chain (replay H cfg ops))"
    using replay_evolves [of "[]" ops H cfg] assms by (simp add: evolves_def)
  then show ?thesis
    by (rule ledger_grows_invariant)
      (simp_all add: replay_def with_config_def verify_new verify_commit)
qed

text \<open>C6: in every state a log can reach, the status of each task agrees with the queue and the
  leases: exactly the pending tasks are queued, once each; exactly the assigned ones are
  leased, to the worker and until the tick the status names; and no worker has two reports on a
  task or a lease on a task it has reported on.\<close>

theorem replay_lifecycle:
  assumes "short_log ops"
  shows "lifecycle (replay H cfg ops)"
  using assms by (rule lifecycle_replay)

text \<open>A log in which a task is assigned, reported on twice and completed.\<close>

definition demo_key :: "nat \<Rightarrow> bytes32" where
  "demo_key k = replicate 32 (of_nat k)"

definition demo_log :: "ledger_op list" where
  "demo_log =
     [RegisterParticipant 1 ''owner'' (demo_key 1) 100,
      RegisterParticipant 2 ''ann'' (demo_key 2) 10,
      RegisterParticipant 3 ''bob'' (demo_key 3) 10,
      CreateProject 1 ''p'' None, FundProject 1 1 50,
      SubmitTask 1 1 9 ''job'', RequestTask 2 0, SubmitResult 2 1 ''d'' 3 None,
      RequestTask 3 0, SubmitResult 3 1 ''d'' 3 None]"

lemma short_demo_log: "short_log (take k demo_log)"
  by (simp add: short_log_def demo_log_def min_def)

theorem replay_lifecycle_witness: "lifecycle (replay length_hash default_config demo_log)"
  by (rule replay_lifecycle) (simp add: short_log_def demo_log_def)

text \<open>C8: extending the log never rewrites what is settled: the ledger only gains
  blocks that it links and hashes itself, time
  does not run backwards, no participant, project or task disappears or changes its identity,
  owner, keys, payload or reward, reports are only added, and a finished task stays exactly as
  it is.\<close>

theorem replay_monotone:
  assumes "short_log (ops @ rest)"
  shows "evolves H (replay H cfg ops) (replay H cfg (ops @ rest))"
  using assms by (rule replay_evolves)

theorem replay_monotone_witness:
  "evolves length_hash (replay length_hash default_config (take 7 demo_log))
     (replay length_hash default_config (take 7 demo_log @ drop 7 demo_log))"
  by (rule replay_monotone) (simp add: short_log_def demo_log_def)

text \<open>C24: the token ledger of every state a log can reach passes the integrity check, so the
  check of the source never fails on a ledger the node has built itself.\<close>

theorem replay_ledger_sound:
  assumes "short_log ops"
  shows "verify_integrity H (chain (replay H cfg ops))"
  using assms by (rule verify_replay)

theorem replay_ledger_sound_witness:
  "verify_integrity length_hash (chain (replay length_hash default_config demo_log))"
  by (rule replay_ledger_sound) (simp add: short_log_def demo_log_def)

end
