(* ===== verification/Rewards.thy ===== *)
theory Rewards
  imports Network
begin

text \<open>
  Sharing the reward of a task among the workers whose digest was accepted, and the weighted
  vote that accepts a digest (\<open>distribute_reward\<close> and \<open>consensus_digest\<close> of
  src/src/network.rs), against their exact counterparts on natural numbers.
\<close>

section \<open>Paying out the remainder\<close>

definition share_sum :: "(participant_id \<times> u64) list \<Rightarrow> nat" where
  "share_sum txs = (\<Sum>(_, share)\<leftarrow>txs. unat share)"

lemma share_sum_simps [simp]:
  "share_sum [] = 0"
  "share_sum ((w, s) # txs) = unat s + share_sum txs"
  by (simp_all add: share_sum_def)

lemma share_sum_map: "share_sum (map (\<lambda>(w, k). (w, f k)) ws) = (\<Sum>(w, k)\<leftarrow>ws. unat (f k))"
  by (induction ws) auto

lemma share_sum_member: "(w, s) \<in> set txs \<Longrightarrow> unat s \<le> share_sum txs"
  by (induction txs) auto

lemma bump_share_None: "bump_share w txs = None \<longleftrightarrow> w \<notin> set (map fst txs)"
  by (induction txs) (auto split: if_splits)

lemma bump_share_Some:
  "bump_share w txs = Some txs' \<Longrightarrow> share_sum txs < 2 ^ 64 - 1 \<Longrightarrow>
   share_sum txs' = share_sum txs + 1 \<and> map fst txs' = map fst txs"
proof (induction txs arbitrary: txs')
  case (Cons tx txs)
  obtain i s where tx: "tx = (i, s)" by fastforce
  have "unat (s + 1) = unat s + 1"
    using Cons.prems(2) tx by (intro trans [OF unat_add_no_wrap]) simp_all
  with Cons tx show ?case
    by (auto split: if_splits)
qed simp

lemma give_remainder_0 [simp]: "give_remainder ws 0 txs = txs"
  by (cases ws) auto

text \<open>A step of the loop while there is something left to give.\<close>

lemma give_remainder_sum:
  assumes "set (map fst ws) \<subseteq> set (map fst txs)" and "share_sum txs + unat remainder < 2 ^ 64"
  shows "share_sum (give_remainder ws remainder txs) = share_sum txs + min (unat remainder) (length ws)
    \<and> map fst (give_remainder ws remainder txs) = map fst txs"
  using assms
proof (induction ws remainder txs rule: give_remainder.induct)
  case (2 w k ws remainder txs)
  show ?case
  proof (cases "remainder = 0")
    case False
    then have pos: "0 < unat remainder" and dec: "unat (remainder - 1) = unat remainder - 1"
      by (simp_all add: unat_gt_0 unat_minus_one)
    obtain txs' where b: "bump_share w txs = Some txs'"
      using "2.prems"(1) bump_share_None [of w txs] by (cases "bump_share w txs") auto
    have "share_sum txs < 2 ^ 64 - 1"
      using "2.prems"(2) pos by simp
    note bumped = bump_share_Some [OF b this]
    then have ids: "set (map fst txs') = set (map fst txs)"
      by metis
    have "share_sum (give_remainder ws (remainder - 1) txs')
        = share_sum txs' + min (unat (remainder - 1)) (length ws)
      \<and> map fst (give_remainder ws (remainder - 1) txs') = map fst txs'"
      using "2.prems" bumped pos dec by (intro "2.IH"(2) [OF False b]) (simp_all add: ids del: set_map)
    then show ?thesis
      using False b bumped pos dec by simp
  qed simp
qed simp

section \<open>Proportional shares\<close>

definition weight_sum :: "(participant_id \<times> u64) list \<Rightarrow> nat" where
  "weight_sum ws = (\<Sum>(_, k)\<leftarrow>ws. unat k)"

lemma weight_sum_simps [simp]:
  "weight_sum [] = 0"
  "weight_sum ((w, k) # ws) = unat k + weight_sum ws"
  by (simp_all add: weight_sum_def)

lemma weight_sum_member: "(w, k) \<in> set ws \<Longrightarrow> unat k \<le> weight_sum ws"
  by (induction ws) auto

lemma sum_list_no_wrap:
  fixes xs :: "u64 list"
  shows "(\<Sum>x\<leftarrow>xs. unat x) < 2 ^ 64 \<Longrightarrow> unat (sum_list xs) = (\<Sum>x\<leftarrow>xs. unat x)"
proof (induction xs)
  case (Cons x xs)
  then have "unat (sum_list xs) = (\<Sum>x\<leftarrow>xs. unat x)"
    by simp
  with Cons.prems show ?case
    by (simp add: unat_add_no_wrap)
qed simp

lemma floor_shares:
  fixes r W :: nat
  assumes "0 < W"
  shows "(\<Sum>(_, k)\<leftarrow>ws. r * unat k div W) \<le> r * weight_sum ws div W"
    and "r * weight_sum ws div W \<le> (\<Sum>(_, k)\<leftarrow>ws. r * unat k div W) + (length ws - 1)"
proof -
  have split: "a div W + b div W \<le> (a + b) div W" "(a + b) div W \<le> a div W + b div W + 1" for a b
  proof -
    have "a mod W + b mod W < 2 * W"
      using assms mod_less_divisor [of W a] mod_less_divisor [of W b] by linarith
    then have "(a mod W + b mod W) div W < 2"
      by (rule less_mult_imp_div_less)
    then show "a div W + b div W \<le> (a + b) div W" "(a + b) div W \<le> a div W + b div W + 1"
      using div_add1_eq [of a b W] by linarith+
  qed
  show "(\<Sum>(_, k)\<leftarrow>ws. r * unat k div W) \<le> r * weight_sum ws div W"
  proof (induction ws)
    case (Cons wk ws)
    then show ?case
      using split(1) [of "r * unat (snd wk)" "r * weight_sum ws"]
      by (cases wk) (simp add: algebra_simps)
  qed simp
  show "r * weight_sum ws div W \<le> (\<Sum>(_, k)\<leftarrow>ws. r * unat k div W) + (length ws - 1)"
  proof (induction ws)
    case (Cons wk ws)
    show ?case
    proof (cases ws)
      case Nil
      then show ?thesis by (cases wk) simp
    next
      case (Cons a list)
      then have "length (wk # ws) - 1 = (length ws - 1) + 1"
        by simp
      then show ?thesis
        using Cons.IH split(2) [of "r * unat (snd wk)" "r * weight_sum ws"]
        by (cases wk) (simp add: algebra_simps)
    qed
  qed simp
qed

section \<open>The reward is paid out, no more\<close>

definition total_of :: "(participant_id \<times> u64) list \<Rightarrow> u64" where
  "total_of ws = sum_list (map snd ws)"

lemma unat_total_of: "weight_sum ws < 2 ^ 64 \<Longrightarrow> unat (total_of ws) = weight_sum ws"
  using sum_list_no_wrap [of "map snd ws"]
  by (simp add: total_of_def weight_sum_def comp_def case_prod_unfold)

definition floor_txs :: "u64 \<Rightarrow> u64 \<Rightarrow> (participant_id \<times> u64) list \<Rightarrow> (participant_id \<times> u64) list" where
  "floor_txs r W ws = map (\<lambda>(w, k). (w, sat_mul r k div W)) ws"

lemma distribute_reward_eq:
  assumes "share_sum (floor_txs r W ws) \<le> unat r"
  shows "distribute_reward r W ws =
    give_remainder (sort_key (\<lambda>(_, k). Reverse k) ws)
      (word_of_nat (unat r - share_sum (floor_txs r W ws))) (floor_txs r W ws)"
proof -
  have "unat (sum_list (map snd (floor_txs r W ws))) = share_sum (floor_txs r W ws)"
    using sum_list_no_wrap [of "map snd (floor_txs r W ws)"] assms unat_less_64 [of r]
    by (simp add: share_sum_def comp_def case_prod_unfold del: unat_less_64)
  then have "unat (sat_sub r (sum_list (map snd (floor_txs r W ws))))
      = unat (word_of_nat (unat r - share_sum (floor_txs r W ws)) :: u64)"
    using unat_less_64 [of r] by (simp add: unat_sat_sub unat_word_of_nat del: unat_less_64)
  then have "sat_sub r (sum_list (map snd (floor_txs r W ws)))
      = word_of_nat (unat r - share_sum (floor_txs r W ws))"
    by (simp only: word_unat_eq_iff)
  then show ?thesis
    by (simp add: distribute_reward_def floor_txs_def Let_def)
qed

lemma floor_txs_sum:
  "share_sum (floor_txs r W ws)
     = (\<Sum>(_, k)\<leftarrow>ws. min (unat r * unat k) (2 ^ 64 - 1) div unat W)"
  by (simp add: floor_txs_def share_sum_map unat_div unat_sat_mul)

lemma floor_txs_sum_exact:
  "\<forall>(_, k)\<in>set ws. unat r * unat k < 2 ^ 64 \<Longrightarrow>
   share_sum (floor_txs r W ws) = (\<Sum>(_, k)\<leftarrow>ws. unat r * unat k div unat W)"
  unfolding floor_txs_sum
  by (intro arg_cong [where f = sum_list] map_cong) (auto simp: min_def)

lemma floor_txs_le:
  assumes "0 < weight_sum ws" and "weight_sum ws < 2 ^ 64"
  shows "share_sum (floor_txs r (total_of ws) ws) \<le> unat r"
proof -
  have "share_sum (floor_txs r (total_of ws) ws) \<le> (\<Sum>(_, k)\<leftarrow>ws. unat r * unat k div weight_sum ws)"
    unfolding floor_txs_sum unat_total_of [OF assms(2)]
    by (intro sum_list_mono) (auto intro: div_le_mono)
  also have "\<dots> \<le> unat r * weight_sum ws div weight_sum ws"
    using assms(1) by (rule floor_shares)
  finally show ?thesis
    using assms(1) by simp
qed

lemma distribute_reward_sum:
  assumes "0 < weight_sum ws" and "weight_sum ws < 2 ^ 64"
  shows "share_sum (distribute_reward r (total_of ws) ws)
      = share_sum (floor_txs r (total_of ws) ws)
        + min (unat r - share_sum (floor_txs r (total_of ws) ws)) (length ws)
    \<and> map fst (distribute_reward r (total_of ws) ws) = map fst ws"
proof -
  let ?F = "floor_txs r (total_of ws) ws"
  note le = floor_txs_le [OF assms, of r]
  have ids: "map fst ?F = map fst ws"
    by (simp add: floor_txs_def comp_def case_prod_unfold)
  have rem: "unat (word_of_nat (unat r - share_sum ?F) :: u64) = unat r - share_sum ?F"
    using unat_less_64 [of r] by (intro unat_word_of_nat less_imp_diff_less) simp
  have "share_sum ?F + (unat r - share_sum ?F) < 2 ^ 64"
    using le unat_less_64 [of r] by (simp del: unat_less_64)
  moreover have "set (map fst (sort_key (\<lambda>(_, k). Reverse k) ws)) \<subseteq> set (map fst ?F)"
    unfolding ids by simp
  ultimately show ?thesis
    using give_remainder_sum [of "sort_key (\<lambda>(_, k). Reverse k) ws" ?F
        "word_of_nat (unat r - share_sum ?F)"]
    by (simp add: distribute_reward_eq [OF le] rem ids)
qed

text \<open>C11: the shares of a finalised task never add up to more than the reward of the task, the
  winners are paid in the order of their reports, and unless a product of reward and weight
  passes 64 bits the shares add up to exactly the reward: nothing is lost to rounding.\<close>

theorem reward_paid_out:
  assumes "0 < weight_sum ws" and "weight_sum ws < 2 ^ 64"
  shows "share_sum (distribute_reward r (total_of ws) ws) \<le> unat r
    \<and> map fst (distribute_reward r (total_of ws) ws) = map fst ws
    \<and> ((\<forall>(_, k)\<in>set ws. unat r * unat k < 2 ^ 64)
         \<longrightarrow> share_sum (distribute_reward r (total_of ws) ws) = unat r)"
proof (intro conjI impI)
  note sum = distribute_reward_sum [OF assms, of r]
  show "share_sum (distribute_reward r (total_of ws) ws) \<le> unat r"
    using sum floor_txs_le [OF assms, of r] by simp
  show "map fst (distribute_reward r (total_of ws) ws) = map fst ws"
    using sum by simp
  assume fits: "\<forall>(_, k)\<in>set ws. unat r * unat k < 2 ^ 64"
  have "unat r * weight_sum ws div weight_sum ws
      \<le> (\<Sum>(_, k)\<leftarrow>ws. unat r * unat k div weight_sum ws) + (length ws - 1)"
    using assms(1) by (rule floor_shares)
  then have "unat r \<le> share_sum (floor_txs r (total_of ws) ws) + length ws"
    using assms(1) by (simp add: floor_txs_sum_exact [OF fits] unat_total_of [OF assms(2)])
  then show "share_sum (distribute_reward r (total_of ws) ws) = unat r"
    using sum floor_txs_le [OF assms, of r] by simp
qed

theorem reward_paid_out_witness:
  "share_sum (distribute_reward 10 (total_of [(1, 1), (2, 1), (3, 1)]) [(1, 1), (2, 1), (3, 1)]) = 10"
proof -
  have "(\<forall>(_, k)\<in>set [(1 :: u64, 1 :: u64), (2, 1), (3, 1)]. unat (10 :: u64) * unat k < 2 ^ 64)"
    by simp
  then show ?thesis
    using reward_paid_out [of "[(1, 1), (2, 1), (3, 1)]" 10] by simp
qed

text \<open>Where the product of reward and weight passes 64 bits, the saturating multiplication
  shortens the shares: the only winner of a reward of 2 ^ 63, with weight 4, gets half of it.\<close>

theorem saturated_reward_falls_short:
  "distribute_reward (2 ^ 63) (total_of [(1, 4)]) [(1, 4)] = [(1, 2 ^ 62)]"
  by (simp add: distribute_reward_def total_of_def sat_mul_def sat_sub_def Let_def)

section \<open>Fair shares\<close>

lemma bump_share_pointwise:
  "bump_share w txs = Some txs' \<Longrightarrow> distinct (map fst txs) \<Longrightarrow>
   list_all2 (\<lambda>(i, s) (j, s'). j = i \<and> s' = (if i = w then s + 1 else s)) txs txs'"
proof (induction txs arbitrary: txs')
  case (Cons tx txs)
  obtain i s where tx: "tx = (i, s)" by fastforce
  show ?case
  proof (cases "i = w")
    case True
    have "w \<notin> set (map fst txs)"
      using Cons.prems(2) tx True by simp
    then have "list_all2 (\<lambda>(i, s) (j, s'). j = i \<and> s' = (if i = w then s + 1 else s)) txs txs"
      by (induction txs) auto
    then show ?thesis
      using Cons.prems(1) tx True by auto
  next
    case False
    then obtain ts where "bump_share w txs = Some ts" "txs' = (i, s) # ts"
      using Cons.prems(1) tx by auto
    then show ?thesis
      using Cons.IH [of ts] Cons.prems(2) tx False by simp
  qed
qed simp

lemma give_remainder_pointwise:
  assumes "distinct (map fst txs)" and "distinct (map fst ws)"
  shows "list_all2 (\<lambda>(i, s) (j, s'). j = i \<and> (s' = s \<or> i \<in> set (map fst ws) \<and> s' = s + 1))
           txs (give_remainder ws remainder txs)"
  using assms
proof (induction ws remainder txs rule: give_remainder.induct)
  case (1 remainder txs)
  then show ?case
    by (simp add: list.rel_refl_strong case_prod_unfold)
next
  case (2 w k ws remainder txs)
  show ?case
  proof (cases "remainder = 0")
    case True
    then show ?thesis
      by (simp add: list.rel_refl_strong case_prod_unfold)
  next
    case False
    show ?thesis
    proof (cases "bump_share w txs")
      case None
      show ?thesis
        using "2.IH"(1) [OF False None] "2.prems" False None
        by (auto elim!: list_all2_mono)
    next
      case (Some txs')
      have b: "list_all2 (\<lambda>(i, s) (j, s'). j = i \<and> s' = (if i = w then s + 1 else s)) txs txs'"
        using bump_share_pointwise [OF Some "2.prems"(1)] .
      have "list_all2 (\<lambda>p q. fst p = fst q) txs txs'"
        using b by (rule list_all2_mono) auto
      then have "map fst txs' = map fst txs"
        by (induction rule: list_all2_induct) simp_all
      then have r: "list_all2 (\<lambda>(i, s) (j, s'). j = i \<and> (s' = s \<or> i \<in> set (map fst ws) \<and> s' = s + 1))
           txs' (give_remainder ws (remainder - 1) txs')"
        using "2.prems" by (intro "2.IH"(2) [OF False Some]) simp_all
      have "w \<notin> set (map fst ws)"
        using "2.prems"(2) by simp
      then have "list_all2 (\<lambda>(i, s) (j, s'). j = i \<and> (s' = s \<or> i \<in> set (map fst ((w, k) # ws))
          \<and> s' = s + 1)) txs (give_remainder ws (remainder - 1) txs')"
        by (intro list_all2_trans [OF _ b r]) (auto split: if_splits simp: image_iff)
      then show ?thesis
        using False Some by simp
    qed
  qed
qed

lemma share_of_winner:
  assumes "0 < weight_sum ws" and "weight_sum ws < 2 ^ 64" and "distinct (map fst ws)"
    and "(w, k) \<in> set ws" and "(w, s) \<in> set (distribute_reward r (total_of ws) ws)"
  obtains i where "i < length ws" and "distribute_reward r (total_of ws) ws ! i = (w, s)"
    and "floor_txs r (total_of ws) ws ! i = (w, sat_mul r k div total_of ws)"
    and "s = sat_mul r k div total_of ws \<or> s = sat_mul r k div total_of ws + 1"
proof -
  let ?F = "floor_txs r (total_of ws) ws"
  let ?S = "sort_key (\<lambda>(_, k). Reverse k) ws"
  have "map fst ?F = map fst ws"
    by (simp add: floor_txs_def comp_def case_prod_unfold)
  moreover have "distinct (map fst ?S)"
    using assms(3) by (metis distinct_map distinct_sort set_sort)
  ultimately have pw: "list_all2 (\<lambda>(i, s) (j, s'). j = i \<and> (s' = s \<or> i \<in> set (map fst ?S) \<and> s' = s + 1))
      ?F (distribute_reward r (total_of ws) ws)"
    unfolding distribute_reward_eq [OF floor_txs_le [OF assms(1,2)]]
    using assms(3) by (intro give_remainder_pointwise) simp_all
  obtain i where i: "i < length ws" "distribute_reward r (total_of ws) ws ! i = (w, s)"
    using assms(5) list_all2_lengthD [OF pw] by (auto simp: in_set_conv_nth floor_txs_def)
  have F: "?F ! i = (fst (ws ! i), sat_mul r (snd (ws ! i)) div total_of ws)"
    using i(1) by (simp add: floor_txs_def case_prod_unfold)
  have one: "fst (ws ! i) = w \<and> (s = snd (?F ! i) \<or> s = snd (?F ! i) + 1)"
    using list_all2_nthD [OF pw, of i] i F by (simp add: floor_txs_def)
  then have "ws ! i = (w, k)"
    using assms(3,4) i(1) by (metis eq_key_imp_eq_value nth_mem prod.collapse)
  with one F i show ?thesis
    by (intro that [of i]) simp_all
qed



section \<open>The weighted vote on a digest\<close>

text \<open>The weight behind a digest, without a bound.\<close>

definition support :: "network \<Rightarrow> string \<Rightarrow> task_report list \<Rightarrow> nat" where
  "support n d rs = (\<Sum>r\<leftarrow>rs. if result_digest r = d then unat (worker_weight n (report_worker r)) else 0)"

definition all_weight :: "network \<Rightarrow> task_report list \<Rightarrow> nat" where
  "all_weight n rs = (\<Sum>r\<leftarrow>rs. unat (worker_weight n (report_worker r)))"

lemma support_simps [simp]:
  "support n d [] = 0"
  "support n d (r # rs)
     = (if result_digest r = d then unat (worker_weight n (report_worker r)) else 0) + support n d rs"
  "support n d (rs @ rs') = support n d rs + support n d rs'"
  by (simp_all add: support_def)

lemma all_weight_simps [simp]:
  "all_weight n [] = 0"
  "all_weight n (r # rs) = unat (worker_weight n (report_worker r)) + all_weight n rs"
  "all_weight n (rs @ rs') = all_weight n rs + all_weight n rs'"
  by (simp_all add: all_weight_def)

lemma support_le: "support n d rs \<le> all_weight n rs"
  by (induction rs) auto

definition weights_match :: "network \<Rightarrow> (string, u64) hmap \<Rightarrow> task_report list \<Rightarrow> bool" where
  "weights_match n weights rs \<longleftrightarrow>
     (\<forall>d. support n d rs = (case hm_get weights d of None \<Rightarrow> 0 | Some s \<Rightarrow> unat s))"

text \<open>Reading on from \<open>seen\<close>, the digest is the first to gather the required weight.\<close>

definition first_to_reach ::
  "network \<Rightarrow> u64 \<Rightarrow> task_report list \<Rightarrow> task_report list \<Rightarrow> string \<Rightarrow> bool" where
  "first_to_reach n required seen rs d \<longleftrightarrow>
     (\<exists>us r vs. rs = us @ r # vs \<and> result_digest r = d
        \<and> (\<forall>d'. support n d' (seen @ us) < unat required)
        \<and> unat required \<le> support n d (seen @ us @ [r]))"

lemma first_to_reach_now:
  assumes "\<forall>d'. support n d' seen < unat required"
    and "unat required \<le> support n (result_digest r) (seen @ [r])"
  shows "first_to_reach n required seen (r # rs) (result_digest r)"
  unfolding first_to_reach_def
  by (intro exI [of _ "[]"] exI [of _ r] exI [of _ rs])
    (use assms in \<open>simp del: support_simps\<close>)

lemma first_to_reach_later:
  assumes "first_to_reach n required (seen @ [r]) rs d"
  shows "first_to_reach n required seen (r # rs) d"
proof -
  obtain us r' vs where "rs = us @ r' # vs" "result_digest r' = d"
      "\<forall>d'. support n d' ((seen @ [r]) @ us) < unat required"
      "unat required \<le> support n d ((seen @ [r]) @ us @ [r'])"
    using assms unfolding first_to_reach_def by blast
  then show ?thesis
    unfolding first_to_reach_def
    by (intro exI [of _ "r # us"] exI [of _ r'] exI [of _ vs]) (simp del: support_simps)
qed

lemma digest_loop_spec:
  assumes "weights_match n weights seen" and "all_weight n (seen @ rs) < 2 ^ 64"
    and "\<forall>d. support n d seen < unat required"
  shows "case digest_loop n required weights rs of
      None \<Rightarrow> \<forall>d. support n d (seen @ rs) < unat required
    | Some d \<Rightarrow> first_to_reach n required seen rs d"
  using assms
proof (induction rs arbitrary: weights seen)
  case (Cons r rs)
  define d where "d = result_digest r"
  define k where "k = worker_weight n (report_worker r)"
  define e where "e = (case hm_get weights d of None \<Rightarrow> 0 | Some s \<Rightarrow> s)"
  have e: "unat e = support n d seen"
    using Cons.prems(1) by (simp add: weights_match_def e_def split: option.splits)
  have fits: "unat e + unat k < 2 ^ 64"
    using Cons.prems(2) support_le [of n d seen] by (simp add: e k_def)
  have new: "unat (e + k) = support n d (seen @ [r])"
    using fits e by (simp add: unat_add_no_wrap d_def k_def)
  have loop: "digest_loop n required weights (r # rs) =
      (if required \<le> e + k then Some d else digest_loop n required (hm_insert d (e + k) weights) rs)"
    by (simp add: Let_def d_def k_def e_def)
  show ?case
  proof (cases "required \<le> e + k")
    case True
    then have "unat required \<le> support n d (seen @ [r])"
      using new by (simp add: word_le_nat_alt)
    then have "first_to_reach n required seen (r # rs) d"
      using Cons.prems(3) unfolding d_def by (rule first_to_reach_now [rotated])
    then show ?thesis
      unfolding loop using True by simp
  next
    case False
    then have less: "support n d (seen @ [r]) < unat required"
      using new by (simp add: word_le_nat_alt)
    have other: "d' \<noteq> d \<Longrightarrow> support n d' (seen @ [r]) = support n d' seen" for d'
      by (simp add: d_def)
    have "weights_match n (hm_insert d (e + k) weights) (seen @ [r])"
      unfolding weights_match_def
    proof
      fix d'
      show "support n d' (seen @ [r]) = (case hm_get (hm_insert d (e + k) weights) d' of
          None \<Rightarrow> 0 | Some s \<Rightarrow> unat s)"
        using Cons.prems(1) new other [of d'] by (cases "d' = d") (simp_all add: weights_match_def)
    qed
    moreover have "all_weight n ((seen @ [r]) @ rs) < 2 ^ 64"
      using Cons.prems(2) by simp
    moreover have "\<forall>d'. support n d' (seen @ [r]) < unat required"
      using Cons.prems(3) less other by metis
    ultimately have IH: "case digest_loop n required (hm_insert d (e + k) weights) rs of
        None \<Rightarrow> \<forall>d. support n d ((seen @ [r]) @ rs) < unat required
      | Some d \<Rightarrow> first_to_reach n required (seen @ [r]) rs d"
      by (rule Cons.IH)
    show ?thesis
    proof (cases "digest_loop n required (hm_insert d (e + k) weights) rs")
      case None
      with IH show ?thesis
        unfolding loop using False by (simp del: support_simps)
    next
      case (Some a)
      then have "first_to_reach n required seen (r # rs) a"
        using IH by (intro first_to_reach_later) simp
      then show ?thesis
        unfolding loop using False Some by simp
    qed
  qed
qed simp

text \<open>C9: the vote on a digest is exact. While the weights fit in 64 bits, a digest is accepted
  if and only if some digest gathers the required weight, and the accepted one is the first to
  do so in the order of the reports; no digest below the required weight is ever accepted.\<close>

theorem consensus_digest_exact:
  assumes "0 < required" and "all_weight n rs < 2 ^ 64"
  shows "case consensus_digest n rs required of
      None \<Rightarrow> \<forall>d. support n d rs < unat required
    | Some d \<Rightarrow> \<exists>us r vs. rs = us @ r # vs \<and> result_digest r = d
        \<and> (\<forall>d'. support n d' us < unat required) \<and> unat required \<le> support n d (us @ [r])"
  using digest_loop_spec [of n "[]" "[]" rs required, unfolded append_Nil first_to_reach_def] assms
  by (simp add: consensus_digest_def weights_match_def unat_gt_0 word_gt_0)

definition demo_reports :: "task_report list" where
  "demo_reports = map (\<lambda>(w, d). \<lparr>report_worker = w, result_digest = d, actual_cost = 1,
     report_encrypted = None\<rparr>) [(1, ''a''), (2, ''b''), (3, ''b''), (4, ''a'')]"

theorem consensus_digest_exact_witness:
  "consensus_digest (network_default length_hash) demo_reports 2 = Some ''b'' \<and>
   (\<exists>us r vs. demo_reports = us @ r # vs \<and> result_digest r = ''b''
      \<and> (\<forall>d'. support (network_default length_hash) d' us < 2)
      \<and> 2 \<le> support (network_default length_hash) ''b'' (us @ [r]))"
proof -
  have "consensus_digest (network_default length_hash) demo_reports 2 = Some ''b''"
    by code_simp
  moreover have "all_weight (network_default length_hash) demo_reports < 2 ^ 64"
    by (simp add: demo_reports_def worker_weight_def network_default_def with_config_def)
  ultimately show ?thesis
    using consensus_digest_exact [of 2 "network_default length_hash" demo_reports] by simp
qed

end
