(* ===== verification/Outcomes.thy ===== *)
theory Outcomes
  imports Replay Rewards
begin

text \<open>
  What the operations of a worker come to: the verdict on a reported task, the task a worker is
  given, the leases that survive, in every state a log can reach.
\<close>

section \<open>The verdict on a task\<close>

lemma digest_loop_member:
  "digest_loop n required weights rs = Some d \<Longrightarrow> d \<in> result_digest ` set rs"
  by (induction n required weights rs rule: digest_loop.induct) (auto simp: Let_def split: if_splits)

lemma consensus_digest_winners:
  "consensus_digest n rs required = Some d \<Longrightarrow> winners_of d rs \<noteq> []"
  by (auto simp: consensus_digest_def winners_of_def filter_empty_conv dest!: digest_loop_member)

definition verdict :: "network \<Rightarrow> task \<Rightarrow> task_status" where
  "verdict n t =
     (case consensus_digest n (t_reports t) (weight_required t) of
        Some d \<Rightarrow>
          if is_budget_exhausted_digest d then QuotaExhausted d (winners_of d (t_reports t))
          else if total_weight_of n (winners_of d (t_reports t)) = 0 then Rejected
          else Completed d (winners_of d (t_reports t))
      | None \<Rightarrow>
          if max_reports t \<le> usize_of (length (t_reports t)) then Rejected else Pending)"

lemma settle_verdict:
  assumes t: "hm_get (tasks n) tid = Some t" and d: "detached tid n"
  shows "fst (settle H tid t n) = Inr (verdict n t \<noteq> Pending)
    \<and> map_option t_status (hm_get (tasks (snd (settle H tid t n))) tid) = Some (verdict n t)
    \<and> map_option t_reports (hm_get (tasks (snd (settle H tid t n))) tid) = Some (t_reports t)
    \<and> leases (snd (settle H tid t n)) = leases n
    \<and> current_tick (snd (settle H tid t n)) = current_tick n"
proof -
  obtain p where p: "hm_get (projects n) (t_project t) = Some p" and id: "t_id t = tid"
    using d t by (auto elim: detachedE)
  have q: "tid \<notin> set (pending_tasks n)" 
    using d by (simp_all add: detached_def)
  show ?thesis
  proof (cases "consensus_digest n (t_reports t) (weight_required t)")
    case None
    then show ?thesis
      using t by (simp add: settle_def verdict_def reject_task_eq [OF t p]
          return_task_to_queue_eq [OF t q])
  next
    case (Some dg)
    note w = consensus_digest_winners [OF Some]
    consider "is_budget_exhausted_digest dg"
      | "\<not> is_budget_exhausted_digest dg" "total_weight_of n (winners_of dg (t_reports t)) = 0"
      | "\<not> is_budget_exhausted_digest dg" "total_weight_of n (winners_of dg (t_reports t)) \<noteq> 0"
      by blast
    then show ?thesis
    proof cases
      case 1
      then show ?thesis
        using t w Some by (simp add: settle_def verdict_def finalize_task_parts task_or_err_def
            finalize_budget_exhausted_task_eq [OF t p])
    next
      case 2
      have "hm_get (projects (n\<lparr>projects := hm_modify (t_project t) (released (t_reward t))
          (projects n)\<rparr>)) (t_project t) = Some (released (t_reward t) p)"
        using p by simp
      from reject_task_eq [OF _ this, of tid] show ?thesis
        using 2 t w Some by (simp add: settle_def verdict_def finalize_task_parts task_or_err_def
            release_locked_quota_eq [OF p])
    next
      case 3
      then show ?thesis
        using t w Some by (simp add: settle_def verdict_def finalize_task_eq [OF t p id w])
    qed
  qed
qed

definition worker_report :: "participant_id \<Rightarrow> string \<Rightarrow> u64 \<Rightarrow> encrypted_blob option \<Rightarrow> task_report" where
  "worker_report w digest cost enc =
     \<lparr>report_worker = w, result_digest = digest, actual_cost = cost, report_encrypted = enc\<rparr>"

definition holds_lease :: "participant_id \<Rightarrow> task_id \<Rightarrow> network \<Rightarrow> bool" where
  "holds_lease w tid n \<longleftrightarrow> map_option lease_worker (hm_get (leases n) tid) = Some w"

lemma verdict_frame: "participants m = participants n \<Longrightarrow> verdict m t = verdict n t"
proof -
  assume "participants m = participants n"
  then have w: "worker_weight m = worker_weight n"
    by (simp add: worker_weight_def fun_eq_iff)
  have "digest_loop m req ws rs = digest_loop n req ws rs" for req ws rs
    by (induction rs arbitrary: ws) (simp_all add: w Let_def)
  moreover have "total_weight_of m = total_weight_of n"
    by (simp add: total_weight_of_def weighted_def w fun_eq_iff)
  ultimately show ?thesis
    by (simp add: verdict_def consensus_digest_def split: option.split)
qed

text \<open>C7: submitting a result succeeds exactly for a registered worker that holds the lease of
  the task once expired leases are gone. Then the report is added, the lease ends and the task
  gets its verdict: accepted digest, exhausted budget, rejection, or back to the queue; the
  operation answers true exactly when the task is finished. Otherwise the error says why, and
  nothing happens beyond reclaiming expired leases.\<close>

theorem submit_result_outcome:
  assumes "lifecycle n"
  shows "(case submit_result H w tid digest cost enc n of
      (Inl e, n') \<Rightarrow>
        (\<not> hm_has (participants n) w \<and> e = ParticipantNotFound w \<and> n' = n) \<or>
        (hm_has (participants n) w \<and> \<not> holds_lease w tid (reclaim_expired_leases H n)
          \<and> e = TaskNotAssignedToWorker tid w \<and> n' = reclaim_expired_leases H n)
    | (Inr done, n') \<Rightarrow>
        hm_has (participants n) w \<and> holds_lease w tid (reclaim_expired_leases H n) \<and>
        (\<exists>t t'. hm_get (tasks (reclaim_expired_leases H n)) tid = Some t
           \<and> hm_get (tasks n') tid = Some t'
           \<and> t_reports t' = t_reports t @ [worker_report w digest cost enc]
           \<and> t_status t' = verdict (reclaim_expired_leases H n) (t\<lparr>t_reports := t_reports t'\<rparr>)
           \<and> done = (t_status t' \<noteq> Pending) \<and> hm_get (leases n') tid = None))"
proof (cases rule: submit_result_cases [OF assms, of w H tid digest cost enc])
  case 1
  then show ?thesis by simp
next
  case 2
  then show ?thesis by (auto simp: holds_lease_def)
next
  case (3 t r)
  let ?m = "reclaim_expired_leases H n"
  let ?t = "t\<lparr>t_reports := t_reports t @ [r]\<rparr>"
  obtain l where l: "hm_get (leases ?m) tid = Some l" "lease_worker l = w"
  proof -
    have "slot_ok ?m tid"
      by (rule lifecycle_slot [OF lifecycle_reclaim [OF assms]])
    then show thesis
      using 3(2,3) that by (auto simp: slot_ok_def status_ok_def)
  qed
  have v: "verdict (reported tid r ?m) ?t = verdict ?m ?t"
    by (rule verdict_frame) (simp add: reported_def)
  from settle_verdict [OF 3(6,5), of H] obtain t' n' where
    "settle H tid ?t (reported tid r ?m) = (Inr (verdict ?m ?t \<noteq> Pending), n')"
    "hm_get (tasks n') tid = Some t'" "t_status t' = verdict ?m ?t"
    "t_reports t' = t_reports t @ [r]" "leases n' = leases (reported tid r ?m)"
    unfolding v by (cases "settle H tid ?t (reported tid r ?m)") auto
  then show ?thesis
    using 3(1,2,4,7) l by (simp add: holds_lease_def worker_report_def reported_def)
qed

theorem submit_result_outcome_witness:
  "let n = replay length_hash default_config (take 9 demo_log) in
   (case submit_result length_hash 3 1 ''d'' 3 None n of
      (Inl e, n') \<Rightarrow>
        (\<not> hm_has (participants n) 3 \<and> e = ParticipantNotFound 3 \<and> n' = n) \<or>
        (hm_has (participants n) 3 \<and> \<not> holds_lease 3 1 (reclaim_expired_leases length_hash n)
          \<and> e = TaskNotAssignedToWorker 1 3 \<and> n' = reclaim_expired_leases length_hash n)
    | (Inr done, n') \<Rightarrow>
        hm_has (participants n) 3 \<and> holds_lease 3 1 (reclaim_expired_leases length_hash n) \<and>
        (\<exists>t t'. hm_get (tasks (reclaim_expired_leases length_hash n)) 1 = Some t
           \<and> hm_get (tasks n') 1 = Some t'
           \<and> t_reports t' = t_reports t @ [worker_report 3 ''d'' 3 None]
           \<and> t_status t' = verdict (reclaim_expired_leases length_hash n) (t\<lparr>t_reports := t_reports t'\<rparr>)
           \<and> done = (t_status t' \<noteq> Pending) \<and> hm_get (leases n') 1 = None))"
  unfolding Let_def
  by (rule submit_result_outcome) (rule lifecycle_replay [OF short_demo_log])

section \<open>Scheduling\<close>

text \<open>The tasks a worker may be given, and their priorities.\<close>

definition eligible :: "network \<Rightarrow> participant_id \<Rightarrow> task_id set" where
  "eligible n w = {tid. \<exists>t. hm_get (tasks n) tid = Some t \<and> t_status t = Pending
     \<and> w \<notin> set (map report_worker (t_reports t))}"

definition priority_of :: "network \<Rightarrow> task_id \<Rightarrow> u64" where
  "priority_of n tid = priority_score (the (hm_get (projects n) (t_project (the (hm_get (tasks n) tid)))))"

lemma eligible_iff:
  assumes "lifecycle n"
  shows "tid \<in> eligible n w \<longleftrightarrow> tid \<in> set (pending_tasks n) \<and> worker_can_take_task n w tid"
  using lifecycle_slot [OF assms, of tid]
  by (auto simp: eligible_def worker_can_take_task_def slot_ok_def status_ok_def
      split: option.splits)

lemma eligible_key:
  assumes "lifecycle n" and "tid \<in> eligible n w"
  shows "task_priority_key n tid = (priority_of n tid, Reverse tid)"
proof -
  obtain t where t: "hm_get (tasks n) tid = Some t"
    using assms(2) by (auto simp: eligible_def)
  then have "hm_has (projects n) (t_project t)"
    using lifecycle_slot [OF assms(1), of tid] by (simp add: slot_ok_def task_ok_def)
  with t show ?thesis
    by (auto simp: task_priority_key_def priority_of_def)
qed

text \<open>C16: a registered worker that asks for a task gets the eligible task (pending, and not
  reported on by this worker) of the project with the most funds, the oldest among equals; the
  task is leased to it for the configured time. It is refused only when no task is eligible, so
  no task is passed over.\<close>

theorem request_task_best:
  assumes "lifecycle n" and "hm_has (participants n) w"
  shows "(let m = reclaim_expired_leases H n; e = current_tick m + lease_timeout_ticks (config m) in
    case request_task H w n of
      (Inl err, n') \<Rightarrow> err = NoPendingTasks \<and> n' = m \<and> eligible m w = {}
    | (Inr t, n') \<Rightarrow> t_id t \<in> eligible m w \<and> t_status t = Assigned w e
        \<and> hm_get (tasks n') (t_id t) = Some t
        \<and> hm_get (leases n') (t_id t) = Some \<lparr>lease_worker = w, expires_at_tick = e\<rparr>
        \<and> (\<forall>tid\<in>eligible m w. priority_of m tid < priority_of m (t_id t)
             \<or> priority_of m tid = priority_of m (t_id t) \<and> t_id t \<le> tid))"
proof -
  define m where "m = reclaim_expired_leases H n"
  have L: "lifecycle m"
    unfolding m_def by (rule lifecycle_reclaim [OF assms(1)])
  from assms(2) L [unfolded m_def] show ?thesis
  proof (cases rule: request_task_cases [where H = H])
    case idle
    have "eligible m w = {}"
      using idle(2) eligible_iff [OF L, of _ w] by (auto simp: m_def)
    with idle(1) show ?thesis
      by (simp add: m_def Let_def)
  next
    case (claim tid t e)
    have tid: "tid \<in> eligible m w"
      using claim(1,2) by (simp add: eligible_iff [OF L] flip: m_def)
    have id: "t_id t = tid"
      using claim(3) lifecycle_slot [OF L, of tid] by (simp add: slot_ok_def task_ok_def flip: m_def)
    have "priority_of m j < priority_of m tid \<or> priority_of m j = priority_of m tid \<and> tid \<le> j"
      if "j \<in> eligible m w" for j
    proof -
      have "task_priority_key m j \<le> task_priority_key m tid"
        using claim(6) that by (simp add: eligible_iff [OF L] flip: m_def)
      then show ?thesis
        by (auto simp: eligible_key [OF L that] eligible_key [OF L tid])
    qed
    then show ?thesis
      using claim(3-5) tid id by (simp add: m_def assigned_def Let_def)
  qed
qed

theorem request_task_best_witness:
  "let n = replay length_hash default_config (take 6 demo_log);
       m = reclaim_expired_leases length_hash n;
       e = current_tick m + lease_timeout_ticks (config m) in
    case request_task length_hash 2 n of
      (Inl err, n') \<Rightarrow> err = NoPendingTasks \<and> n' = m \<and> eligible m 2 = {}
    | (Inr t, n') \<Rightarrow> t_id t \<in> eligible m 2 \<and> t_status t = Assigned 2 e
        \<and> hm_get (tasks n') (t_id t) = Some t
        \<and> hm_get (leases n') (t_id t) = Some \<lparr>lease_worker = 2, expires_at_tick = e\<rparr>
        \<and> (\<forall>tid\<in>eligible m 2. priority_of m tid < priority_of m (t_id t)
             \<or> priority_of m tid = priority_of m (t_id t) \<and> t_id t \<le> tid)"
  unfolding Let_def
  by (rule request_task_best [unfolded Let_def, OF lifecycle_replay [OF short_demo_log]]) code_simp

section \<open>Leases\<close>

lemma reclaim_one_leases:
  "leases (fst (reclaim_one tid s)) = hm_remove tid (leases (fst s))
   \<and> current_tick (fst (reclaim_one tid s)) = current_tick (fst s)"
  by (cases s) (auto simp: reclaim_one_def Let_def net_steps enqueue_pending_def split: option.splits)

lemma fold_reclaim_leases:
  "hm_get (leases (fst (fold reclaim_one tids s))) tid
     = (if tid \<in> set tids then None else hm_get (leases (fst s)) tid)
   \<and> current_tick (fst (fold reclaim_one tids s)) = current_tick (fst s)"
  by (induction tids arbitrary: s) (auto simp: reclaim_one_leases)

lemma expired_leases_iff:
  assumes "hm_ok (leases n)"
  shows "tid \<in> set (expired_leases n) \<longleftrightarrow>
     (\<exists>l. hm_get (leases n) tid = Some l \<and> expires_at_tick l \<le> current_tick n)"
proof -
  have "tid \<in> set (expired_leases n) \<longleftrightarrow>
      (\<exists>l. (tid, l) \<in> set (leases n) \<and> expires_at_tick l \<le> current_tick n)"
    unfolding expired_leases_def by (force simp: image_iff)
  also have "\<dots> \<longleftrightarrow> (\<exists>l. hm_get (leases n) tid = Some l \<and> expires_at_tick l \<le> current_tick n)"
    by (simp only: hm.entries_get [OF assms, unfolded id_apply])
  finally show ?thesis .
qed

lemma reclaim_fields:
  "current_tick (reclaim_expired_leases H n) = current_tick n \<and>
   hm_get (leases (reclaim_expired_leases H n)) tid =
     (if tid \<in> set (expired_leases n) then None else hm_get (leases n) tid)"
  using fold_reclaim_leases [of "expired_leases n" "(n, [])" tid]
  by (cases "fold reclaim_one (expired_leases n) (n, [])")
    (simp add: reclaim_expired_leases_def net_steps)

text \<open>After the expired leases are reclaimed, exactly the leases that end after the current
  tick are left, unchanged; it does not matter in which order the hash map yields them.\<close>

theorem reclaim_exact:
  assumes "hm_ok (leases n)"
  shows "hm_get (leases (reclaim_expired_leases H n)) tid =
    (case hm_get (leases n) tid of
       Some l \<Rightarrow> if current_tick n < expires_at_tick l then Some l else None
     | None \<Rightarrow> None)"
  using reclaim_fields [of H n tid] expired_leases_iff [OF assms, of tid]
  by (cases "hm_get (leases n) tid") (simp_all add: not_less)

theorem reclaim_exact_witness:
  "hm_get (leases (reclaim_expired_leases length_hash
     ((network_default length_hash)\<lparr>leases := [(4, \<lparr>lease_worker = 2, expires_at_tick = 9\<rparr>)],
        current_tick := 3\<rparr>))) 4 = Some \<lparr>lease_worker = 2, expires_at_tick = 9\<rparr>"
  by (rule trans [OF reclaim_exact]) simp_all

section \<open>Failed operations\<close>

text \<open>
  A lease ends in the future when it is made, and only ticks move the clock, which reclaim what
  they let expire. So while the clock stays below the 64-bit limit, reclaiming at any other
  time finds nothing to do.
\<close>

definition fresh_leases :: "network \<Rightarrow> bool" where
  "fresh_leases n \<longleftrightarrow>
     (\<forall>tid l. hm_get (leases n) tid = Some l \<longrightarrow> current_tick n < expires_at_tick l)"

lemma fresh_reclaim:
  assumes "lifecycle n"
  shows "fresh_leases (reclaim_expired_leases H n)"
  unfolding fresh_leases_def
proof (intro allI impI)
  fix tid l
  assume l: "hm_get (leases (reclaim_expired_leases H n)) tid = Some l"
  have ok: "hm_ok (leases n)"
    using assms by (simp add: lifecycle_def store_ok_def)
  have "tid \<notin> set (expired_leases n)" "hm_get (leases n) tid = Some l"
    using l reclaim_fields [of H n tid] by (simp_all split: if_splits)
  then show "current_tick (reclaim_expired_leases H n) < expires_at_tick l"
    using expired_leases_iff [OF ok, of tid] reclaim_fields [of H n tid] by (simp add: not_le)
qed

lemma fresh_no_reclaim:
  assumes "hm_ok (leases n)" and "fresh_leases n"
  shows "reclaim_expired_leases H n = n"
proof -
  have "tid \<notin> set (expired_leases n)" for tid
    using assms(2) expired_leases_iff [OF assms(1), of tid] by (auto simp: fresh_leases_def not_le)
  then have "expired_leases n = []"
    by (cases "expired_leases n") auto
  then show ?thesis
    by (simp add: reclaim_expired_leases_def)
qed

fun op_ticks :: "ledger_op \<Rightarrow> nat" where
  "op_ticks (Tick k) = unat k"
| "op_ticks _ = 0"

definition clock_of :: "ledger_op list \<Rightarrow> nat" where
  "clock_of ops = sum_list (map op_ticks ops)"

lemma fresh_cong: "leases m = leases n \<Longrightarrow> current_tick m = current_tick n \<Longrightarrow> fresh_leases n \<Longrightarrow> fresh_leases m"
  by (simp add: fresh_leases_def)

lemma lifecycle_leases: "lifecycle n \<Longrightarrow> hm_ok (leases n)"
  by (simp add: lifecycle_def store_ok_def)

definition clock_room :: "network \<Rightarrow> nat \<Rightarrow> bool" where
  "clock_room n k \<longleftrightarrow> 0 < lease_timeout_ticks (config n)
     \<and> unat (current_tick n) + k + unat (lease_timeout_ticks (config n)) < 2 ^ 64"

lemma fresh_assigned:
  assumes "fresh_leases n" and "clock_room n 0"
  shows "fresh_leases (assigned w (current_tick n + lease_timeout_ticks (config n)) tid n)"
proof -
  have "unat (current_tick n + lease_timeout_ticks (config n))
      = unat (current_tick n) + unat (lease_timeout_ticks (config n))"
    using assms(2) by (intro unat_add_no_wrap) (simp add: clock_room_def)
  then have "current_tick n < current_tick n + lease_timeout_ticks (config n)"
    using assms(2) by (simp add: word_less_nat_alt clock_room_def unat_gt_0)
  then show ?thesis
    using assms(1) by (simp add: fresh_leases_def assigned_def)
qed

lemma fresh_request_task:
  assumes L: "lifecycle n" and F: "fresh_leases n" and room: "clock_room n 0"
  shows "fresh_leases (snd (request_task H w n))
    \<and> current_tick (snd (request_task H w n)) = current_tick n
    \<and> (fst (request_task H w n) = Inl e \<longrightarrow> snd (request_task H w n) = n)"
proof (cases "hm_has (participants n) w")
  case False
  with F show ?thesis
    by (simp add: request_task_def ensure_participant_def)
next
  case True
  have same: "reclaim_expired_leases H n = n"
    by (rule fresh_no_reclaim [OF lifecycle_leases [OF L] F])
  then have "lifecycle (reclaim_expired_leases H n)"
    using L by simp
  with True show ?thesis
  proof (cases rule: request_task_cases [where H = H])
    case idle
    with F show ?thesis by (simp add: same)
  next
    case (claim tid t e)
    then show ?thesis
      using fresh_assigned [OF F room, of w tid] by (simp add: same) (simp add: assigned_def)
  qed
qed

lemma fresh_submit_result:
  assumes L: "lifecycle n" and F: "fresh_leases n"
  shows "fresh_leases (snd (submit_result H w tid digest cost enc n))
    \<and> current_tick (snd (submit_result H w tid digest cost enc n)) = current_tick n
    \<and> (fst (submit_result H w tid digest cost enc n) = Inl e \<longrightarrow>
        snd (submit_result H w tid digest cost enc n) = n)"
proof -
  have same: "reclaim_expired_leases H n = n"
    by (rule fresh_no_reclaim [OF lifecycle_leases [OF L] F])
  show ?thesis
  proof (cases rule: submit_result_cases [OF L, of w H tid digest cost enc])
    case 1
    with F show ?thesis by simp
  next
    case 2
    with F show ?thesis by (simp add: same)
  next
    case (3 t r)
    have "fresh_leases (reported tid r n)"
      using F by (simp add: fresh_leases_def reported_def)
    then show ?thesis
      using settle_verdict [OF 3(6,5), of H] 3(7) fresh_cong
      by (simp add: same) (simp add: reported_def)
  qed
qed

text \<open>The error an operation of the log returns, which \<open>apply_op\<close> ignores.\<close>

definition err_of :: "'a result \<Rightarrow> network_error option" where
  "err_of res = (case fst res of Inl e \<Rightarrow> Some e | Inr _ \<Rightarrow> None)"

fun op_error :: "hash_fun \<Rightarrow> ledger_op \<Rightarrow> network \<Rightarrow> network_error option" where
  "op_error H (CreateProject owner nm key) n = err_of (create_project owner nm key n)"
| "op_error H (TransferOp from to amount memo) n = err_of (transfer H from to amount memo n)"
| "op_error H (FundProject owner pid amount) n = err_of (fund_project_from_owner H owner pid amount n)"
| "op_error H (DonateToProject supporter pid amount) n =
     err_of (donate_to_project H supporter pid amount n)"
| "op_error H (SubmitTask owner pid rew payload) n = err_of (submit_task owner pid rew payload n)"
| "op_error H (RequestTask w _) n = err_of (request_task H w n)"
| "op_error H (SubmitResult w tid digest cost enc) n =
     err_of (submit_result H w tid digest cost enc n)"
| "op_error H _ n = None"

lemma err_of_Some: "err_of res = Some e \<longleftrightarrow> fst res = Inl e"
  by (simp add: err_of_def split: sum.split)

text \<open>What an operation does to the clock and the leases, and what a failed one does.\<close>

definition calm_step :: "hash_fun \<Rightarrow> ledger_op \<Rightarrow> network \<Rightarrow> bool" where
  "calm_step H op n \<longleftrightarrow> fresh_leases (apply_op H op n)
     \<and> unat (current_tick (apply_op H op n)) = unat (current_tick n) + op_ticks op
     \<and> (op_error H op n \<noteq> None \<longrightarrow> apply_op H op n = n)"

lemma donate_calm:
  "leases (snd (donate_to_project H supporter pid amount n)) = leases n
   \<and> current_tick (snd (donate_to_project H supporter pid amount n)) = current_tick n
   \<and> (fst (donate_to_project H supporter pid amount n) = Inl e
        \<longrightarrow> snd (donate_to_project H supporter pid amount n) = n)"
  by (cases rule: donate_to_project_cases [of H supporter pid amount n]) simp_all

lemma calm_donate:
  "fresh_leases n \<Longrightarrow> calm_step H (DonateToProject supporter pid amount) n"
  using donate_calm [of H supporter pid amount n]
  by (auto simp: calm_step_def err_of_Some intro: fresh_cong)

lemma calm_fund:
  assumes "fresh_leases n"
  shows "calm_step H (FundProject owner pid amount) n"
proof (cases "ensure_project_owner owner pid n")
  case (Inl e)
  with assms show ?thesis
    by (simp add: calm_step_def fund_project_from_owner_def)
next
  case (Inr u)
  then have "fund_project_from_owner H owner pid amount n = donate_to_project H owner pid amount n"
    by (simp only: fund_project_from_owner_def on_ok_simps)
  then show ?thesis
    using calm_donate [OF assms, of H owner pid amount] by (simp add: calm_step_def)
qed

lemma calm_submit_task:
  assumes "fresh_leases n"
  shows "calm_step H (SubmitTask owner pid rew payload) n"
  by (cases rule: submit_task_cases [of owner pid rew payload n])
    (use assms in \<open>simp_all add: calm_step_def err_of_def enqueue_pending_eq fresh_leases_def\<close>)

lemma calm_create_project:
  assumes "fresh_leases n"
  shows "calm_step H (CreateProject owner nm key) n"
  using assms by (cases "hm_has (participants n) owner") (simp_all add: calm_step_def err_of_def
      create_project_def ensure_participant_def Let_def fresh_leases_def)

lemma calm_tick:
  assumes L: "lifecycle n" and room: "clock_room n (unat k)"
  shows "calm_step H (Tick k) n"
proof -
  have "unat (sat_add (current_tick n) k) = unat (current_tick n) + unat k"
    using room by (simp add: clock_room_def unat_sat_add)
  then show ?thesis
    using fresh_reclaim [OF lifecycle_tick [OF L]] reclaim_fields
    by (simp add: calm_step_def tick_def)
qed

lemma calm_apply_op:
  assumes "lifecycle n" and "fresh_leases n" and "clock_room n (op_ticks op)"
  shows "calm_step H op n"
proof (cases op)
  case (RegisterParticipant i nm key bal)
  with assms(2) show ?thesis
    by (simp add: calm_step_def register_participant_with_id_def Let_def net_steps fresh_leases_def)
next
  case (TransferOp f to amount memo)
  with assms(2) show ?thesis
    by (simp add: calm_step_def transfer_def Let_def net_steps fresh_leases_def err_of_def)
next
  case (RequestTask w k)
  with assms show ?thesis
    using fresh_request_task [OF assms(1,2), of H w] by (auto simp: calm_step_def err_of_Some)
next
  case (SubmitResult w tid digest cost enc)
  with assms show ?thesis
    using fresh_submit_result [OF assms(1,2), of H w tid digest cost enc]
    by (auto simp: calm_step_def err_of_Some)
qed (use assms in \<open>simp_all add: calm_donate calm_fund calm_submit_task calm_create_project calm_tick\<close>)

definition calm_log :: "network_config \<Rightarrow> ledger_op list \<Rightarrow> bool" where
  "calm_log cfg ops \<longleftrightarrow> short_log ops \<and> 0 < lease_timeout_ticks cfg
     \<and> clock_of ops + unat (lease_timeout_ticks cfg) < 2 ^ 64"

lemma calm_logD: "calm_log cfg (ops @ [op]) \<Longrightarrow> calm_log cfg ops"
  by (simp add: calm_log_def short_log_def clock_of_def)

lemma config_replay: "short_log ops \<Longrightarrow> config (replay H cfg ops) = cfg"
  using replay_evolves [of "[]" ops H cfg] by (simp add: evolves_def replay_def with_config_def)

lemma calm_room:
  assumes "calm_log cfg (ops @ [op])" and "unat (current_tick (replay H cfg ops)) = clock_of ops"
  shows "clock_room (replay H cfg ops) (op_ticks op)"
  using assms calm_logD [OF assms(1)] config_replay [of ops H cfg]
  by (simp add: calm_log_def clock_room_def clock_of_def)

lemma calm_replay:
  "calm_log cfg ops \<Longrightarrow>
   fresh_leases (replay H cfg ops) \<and> unat (current_tick (replay H cfg ops)) = clock_of ops"
proof (induction ops rule: rev_induct)
  case Nil
  then show ?case
    by (simp add: replay_def with_config_def fresh_leases_def clock_of_def)
next
  case (snoc op ops)
  have IH: "fresh_leases (replay H cfg ops)" "unat (current_tick (replay H cfg ops)) = clock_of ops"
    using snoc.IH calm_logD [OF snoc.prems] by simp_all
  have "lifecycle (replay H cfg ops)"
    using calm_logD [OF snoc.prems] by (intro lifecycle_replay) (simp add: calm_log_def)
  from calm_apply_op [OF this IH(1) calm_room [OF snoc.prems IH(2)], of H] show ?case
    by (simp add: replay_snoc calm_step_def IH(2) clock_of_def)
qed



text \<open>The promise fails for a lease time of zero, which the configuration allows: worker 3
  submits the result of the task it holds and is refused, but the lease is gone, the task is
  back in the queue and one token of worker 3 is burned.\<close>

theorem failed_op_changes_zero_timeout:
  "let cfg = default_config\<lparr>lease_timeout_ticks := 0\<rparr>;
       n = replay length_hash cfg (take 9 demo_log);
       m = apply_op length_hash (SubmitResult 3 1 ''d'' 3 None) n
   in op_error length_hash (SubmitResult 3 1 ''d'' 3 None) n = Some (TaskNotAssignedToWorker 1 3)
      \<and> holds_lease 3 1 n \<and> \<not> holds_lease 3 1 m \<and> pending_tasks n = [] \<and> pending_tasks m = [1]
      \<and> balance_of (chain n) 3 = 10 \<and> balance_of (chain m) 3 = 9"
  by code_simp

end
