(* ===== verification/Identity.thy ===== *)
theory Identity
  imports Blockchain
begin

text \<open>
  A node's keys (src/src/identity.rs): signing and verifying, sealing results for the owner of a
  project, and the identity file. The cryptography itself is the work of other crates: it is a
  record of functions, the parameter \<open>C\<close> of every definition that uses it, and what the node
  relies on is the hypothesis \<open>crypto_ok\<close>. Randomness is an argument.
\<close>

section \<open>The cryptographic crates\<close>

record crypto =
  sha256 :: hash_fun
  ed_key_ok :: "bytes \<Rightarrow> bool" \<comment> \<open>VerifyingKey::from_bytes accepts the key\<close>
  ed_public :: "bytes \<Rightarrow> bytes"
  ed_sign :: "bytes \<Rightarrow> bytes \<Rightarrow> bytes"
  ed_verify :: "bytes \<Rightarrow> bytes \<Rightarrow> bytes \<Rightarrow> bool"
  x_public :: "bytes \<Rightarrow> bytes"
  x_shared :: "bytes \<Rightarrow> bytes \<Rightarrow> bytes" \<comment> \<open>own secret, other public key\<close>
  hkdf_expand :: "bytes \<Rightarrow> string \<Rightarrow> bytes option" \<comment> \<open>shared secret, info; 32 bytes\<close>
  aead_encrypt :: "bytes \<Rightarrow> bytes \<Rightarrow> bytes \<Rightarrow> bytes" \<comment> \<open>key, nonce, plaintext\<close>
  aead_decrypt :: "bytes \<Rightarrow> bytes \<Rightarrow> bytes \<Rightarrow> bytes option"
  b64_encode :: "bytes \<Rightarrow> string"
  b64_decode :: "string \<Rightarrow> bytes option"
  hex_encode :: "bytes \<Rightarrow> string"
  ops_json :: "ledger_op list \<Rightarrow> bytes option" \<comment> \<open>serde_json::to_vec\<close>

text \<open>The documented behaviour the node relies on, for keys of 32 bytes.\<close>

definition signatures_ok :: "crypto \<Rightarrow> bool" where
  "signatures_ok C \<longleftrightarrow> (\<forall>seed msg. length seed = 32 \<longrightarrow>
     length (ed_public C seed) = 32 \<and> ed_key_ok C (ed_public C seed)
     \<and> length (ed_sign C seed msg) = 64 \<and> ed_verify C (ed_public C seed) msg (ed_sign C seed msg))"

definition sealing_ok :: "crypto \<Rightarrow> bool" where
  "sealing_ok C \<longleftrightarrow>
     (\<forall>a b. x_shared C a (x_public C b) = x_shared C b (x_public C a)) \<and>
     (\<forall>s info. hkdf_expand C s info \<noteq> None) \<and>
     (\<forall>key nonce plain. length nonce = 12 \<longrightarrow>
        aead_decrypt C key nonce (aead_encrypt C key nonce plain) = Some plain)"

definition base64_ok :: "crypto \<Rightarrow> bool" where
  "base64_ok C \<longleftrightarrow> (\<forall>bs. b64_decode C (b64_encode C bs) = Some bs)"

section \<open>Keys and signatures\<close>

record identity =
  signing_key :: bytes32
  encryption_secret :: bytes32

datatype crypto_error = InvalidKey | Decrypt

definition public_key_bytes :: "crypto \<Rightarrow> identity \<Rightarrow> bytes32" where
  "public_key_bytes C i = ed_public C (signing_key i)"

definition public_key_short :: "crypto \<Rightarrow> identity \<Rightarrow> string" where
  "public_key_short C i = hex_encode C (take 8 (public_key_bytes C i))"

definition public_key_hex :: "crypto \<Rightarrow> identity \<Rightarrow> string" where
  "public_key_hex C i = hex_encode C (public_key_bytes C i)"

definition encryption_pubkey_bytes :: "crypto \<Rightarrow> identity \<Rightarrow> bytes32" where
  "encryption_pubkey_bytes C i = x_public C (encryption_secret i)"

definition encryption_pubkey_short :: "crypto \<Rightarrow> identity \<Rightarrow> string" where
  "encryption_pubkey_short C i = hex_encode C (take 8 (encryption_pubkey_bytes C i))"

definition sign_nonce :: "crypto \<Rightarrow> identity \<Rightarrow> bytes32 \<Rightarrow> bytes" where
  "sign_nonce C i nonce = ed_sign C (signing_key i) nonce"

definition verify_sig :: "crypto \<Rightarrow> bytes32 \<Rightarrow> bytes32 \<Rightarrow> bytes \<Rightarrow> bool" where
  "verify_sig C key nonce sig =
     (if \<not> ed_key_ok C key then False
      else if length sig \<noteq> 64 then False
      else ed_verify C key nonce sig)"

section \<open>Sealing a result for the owner of a project\<close>

definition RESULT_ENCRYPTION_INFO :: string where
  "RESULT_ENCRYPTION_INFO = ''boinc-quota-result-encryption''"

text \<open>The expect on the key derivation panics on None; the nonce and the ephemeral secret are random.\<close>

definition encrypt_for ::
  "crypto \<Rightarrow> bytes32 \<Rightarrow> bytes \<Rightarrow> bytes32 \<Rightarrow> bytes \<Rightarrow> encrypted_blob option" where
  "encrypt_for C ephemeral_secret nonce recipient plaintext =
     (let shared = x_shared C ephemeral_secret recipient
      in case hkdf_expand C shared RESULT_ENCRYPTION_INFO of
           None \<Rightarrow> None
         | Some key \<Rightarrow> Some \<lparr>ephemeral_pubkey = x_public C ephemeral_secret, blob_nonce = nonce,
                              ciphertext = aead_encrypt C key nonce plaintext\<rparr>)"

definition decrypt_blob :: "crypto \<Rightarrow> identity \<Rightarrow> encrypted_blob \<Rightarrow> crypto_error + bytes" where
  "decrypt_blob C i b =
     (let shared = x_shared C (encryption_secret i) (ephemeral_pubkey b)
      in case hkdf_expand C shared RESULT_ENCRYPTION_INFO of
           None \<Rightarrow> Inl InvalidKey
         | Some key \<Rightarrow>
             if length (blob_nonce b) \<noteq> 12 then Inl InvalidKey
             else case aead_decrypt C key (blob_nonce b) (ciphertext b) of
                    None \<Rightarrow> Inl Decrypt
                  | Some plain \<Rightarrow> Inr plain)"

section \<open>The identity file\<close>

text \<open>
  The file is the struct that serde_json reads and writes; a missing, unreadable or malformed
  file is None. The source ignores the errors of writing: whether the file can be written is an
  argument, and a file that cannot stays as it is.
\<close>

record identity_file =
  signing_key_b64 :: string
  encryption_key_b64 :: "string option"

definition from_identity :: "crypto \<Rightarrow> identity \<Rightarrow> identity_file" where
  "from_identity C i =
     \<lparr>signing_key_b64 = b64_encode C (signing_key i),
      encryption_key_b64 = Some (b64_encode C (encryption_secret i))\<rparr>"

definition decode_fixed_key :: "crypto \<Rightarrow> nat \<Rightarrow> string \<Rightarrow> bytes option" where
  "decode_fixed_key C n encoded =
     (case b64_decode C encoded of
        None \<Rightarrow> None
      | Some bs \<Rightarrow> if length bs = n then Some bs else None)"

definition file_signing_key :: "crypto \<Rightarrow> identity_file \<Rightarrow> bytes32 option" where
  "file_signing_key C f = decode_fixed_key C 32 (signing_key_b64 f)"

definition file_encryption_secret :: "crypto \<Rightarrow> identity_file \<Rightarrow> bytes32 option" where
  "file_encryption_secret C f = Option.bind (encryption_key_b64 f) (decode_fixed_key C 32)"

definition load_identity :: "crypto \<Rightarrow> bytes32 \<Rightarrow> identity_file option \<Rightarrow> identity option" where
  "load_identity C fresh_secret file =
     Option.bind file (\<lambda>f. Option.bind (file_signing_key C f) (\<lambda>key.
       Some \<lparr>signing_key = key,
             encryption_secret = (case file_encryption_secret C f of
                                    None \<Rightarrow> fresh_secret | Some s \<Rightarrow> s)\<rparr>))"

definition needs_encryption_key_migration :: "identity_file option \<Rightarrow> bool" where
  "needs_encryption_key_migration file =
     (case file of None \<Rightarrow> False | Some f \<Rightarrow> encryption_key_b64 f = None)"

text \<open>A new identity from the two draws of the generator.\<close>

definition generate_identity :: "bytes32 \<Rightarrow> bytes32 \<Rightarrow> identity" where
  "generate_identity seed secret = \<lparr>signing_key = seed, encryption_secret = secret\<rparr>"

text \<open>The variable BOINC_IDENTITY and the home directory, when there are any. A path is the string that
  names it; a slash at the end of the home directory would be doubled here, which names the same file.\<close>

definition home_or_dot :: "string option \<Rightarrow> string" where
  "home_or_dot home = (case home of None \<Rightarrow> ''.'' | Some dir \<Rightarrow> dir)"

definition default_path :: "string option \<Rightarrow> string option \<Rightarrow> string" where
  "default_path env home =
     (case env of Some path \<Rightarrow> path | None \<Rightarrow> home_or_dot home @ ''/.boinc-quota/identity.json'')"

definition save_identity :: "crypto \<Rightarrow> bool \<Rightarrow> identity \<Rightarrow> identity_file option \<Rightarrow> identity_file option" where
  "save_identity C writable i file = (if writable then Some (from_identity C i) else file)"

text \<open>The identity and the file afterwards; the secret is what a load draws when it finds none, the
  new identity what generate returns.\<close>

definition load_or_generate ::
  "crypto \<Rightarrow> bool \<Rightarrow> bytes32 \<Rightarrow> identity \<Rightarrow> identity_file option \<Rightarrow> identity \<times> identity_file option" where
  "load_or_generate C writable fresh_secret fresh file =
     (case load_identity C fresh_secret file of
        Some i \<Rightarrow> (i, if needs_encryption_key_migration file then save_identity C writable i file else file)
      | None \<Rightarrow> (fresh, save_identity C writable fresh file))"

section \<open>Lemmas\<close>

lemma verify_own: "signatures_ok C \<Longrightarrow> length (signing_key i) = 32 \<Longrightarrow>
  verify_sig C (public_key_bytes C i) m (sign_nonce C i m)"
  by (simp add: verify_sig_def public_key_bytes_def sign_nonce_def signatures_ok_def)

lemma load_saved:
  "base64_ok C \<Longrightarrow> length (signing_key i) = 32 \<Longrightarrow> length (encryption_secret i) = 32 \<Longrightarrow>
   load_identity C fresh (Some (from_identity C i)) = Some i"
  by (simp add: load_identity_def from_identity_def file_signing_key_def
      file_encryption_secret_def decode_fixed_key_def base64_ok_def)

text \<open>A toy crate that satisfies the hypotheses: signatures repeat the key, sealing is the identity.\<close>

definition toy_crypto :: crypto where
  "toy_crypto =
     \<lparr>sha256 = length_hash, ed_key_ok = (\<lambda>k. length k = 32), ed_public = id,
      ed_sign = (\<lambda>seed m. seed @ seed), ed_verify = (\<lambda>key m sig. sig = key @ key),
      x_public = id, x_shared = (\<lambda>a b. zero32), hkdf_expand = (\<lambda>s info. Some s),
      aead_encrypt = (\<lambda>k n p. k @ p), aead_decrypt = (\<lambda>k n c. Some (drop (length k) c)),
      b64_encode = map (\<lambda>b. char_of (unat b)), b64_decode = (\<lambda>s. Some (map of_char s)),
      hex_encode = map (\<lambda>b. char_of (unat b)), ops_json = (\<lambda>ops. Some [of_nat (length ops)])\<rparr>"

lemma toy_signatures_ok: "signatures_ok toy_crypto"
  by (simp add: signatures_ok_def toy_crypto_def)

lemma toy_sealing_ok: "sealing_ok toy_crypto"
  by (simp add: sealing_ok_def toy_crypto_def)

lemma toy_base64_ok: "base64_ok toy_crypto"
proof -
  have "(of_char (char_of (unat b) :: char) :: u8) = b" for b :: u8
  proof -
    have "unat b < 256"
      using unsigned_less [of b, where ?'a = nat] by simp
    then have "(of_nat (of_char (char_of (unat b) :: char)) :: u8) = b"
      by simp
    then show ?thesis
      by (simp only: of_nat_of_char)
  qed
  then show ?thesis
    by (simp add: base64_ok_def toy_crypto_def o_def)
qed

section \<open>Properties\<close>

text \<open>The owner of a project can read the result a worker sealed for it: decrypting with the
  secret that belongs to the recipient's public key gives back the plaintext, whatever the
  ephemeral secret and the nonce were.\<close>

theorem sealed_result_opens:
  assumes "sealing_ok C" and "length nonce = 12"
  shows "\<exists>b. encrypt_for C ephemeral nonce (encryption_pubkey_bytes C i) plaintext = Some b
           \<and> decrypt_blob C i b = Inr plaintext"
proof -
  define k where "k = x_shared C (encryption_secret i) (x_public C ephemeral)"
  obtain key where key: "hkdf_expand C k RESULT_ENCRYPTION_INFO = Some key"
    using assms(1) unfolding sealing_ok_def by blast
  have same: "x_shared C ephemeral (x_public C (encryption_secret i)) = k"
    using assms(1) unfolding sealing_ok_def k_def by blast
  have opens: "aead_decrypt C key nonce (aead_encrypt C key nonce plaintext) = Some plaintext"
    using assms unfolding sealing_ok_def by blast
  show ?thesis
    by (simp add: encrypt_for_def decrypt_blob_def encryption_pubkey_bytes_def Let_def same key
        opens assms(2) flip: k_def)
qed

definition demo_identity :: identity where
  "demo_identity = \<lparr>signing_key = replicate 32 7, encryption_secret = replicate 32 9\<rparr>"

theorem sealed_result_opens_witness:
  "\<exists>b. encrypt_for toy_crypto zero32 (replicate 12 1) (encryption_pubkey_bytes toy_crypto demo_identity)
         [1, 2, 3] = Some b \<and> decrypt_blob toy_crypto demo_identity b = Inr [1, 2, 3]"
  by (rule sealed_result_opens [OF toy_sealing_ok]) simp

text \<open>A blob whose nonce does not have 12 bytes is refused as an invalid key before any
  decryption, and a node never accepts a signature that is not 64 bytes long or a malformed
  public key.\<close>

theorem malformed_input_refused:
  assumes "length (blob_nonce b) \<noteq> 12" and "length sig \<noteq> 64 \<or> \<not> ed_key_ok C key"
  shows "decrypt_blob C i b = Inl InvalidKey \<and> \<not> verify_sig C key m sig"
  using assms by (auto simp: decrypt_blob_def verify_sig_def Let_def split: option.split)

theorem malformed_input_refused_witness:
  "decrypt_blob toy_crypto demo_identity
     \<lparr>ephemeral_pubkey = zero32, blob_nonce = [1], ciphertext = []\<rparr> = Inl InvalidKey
   \<and> \<not> verify_sig toy_crypto zero32 zero32 [1]"
  by (rule malformed_input_refused) simp_all


text \<open>Where the file cannot be written, every start of a new node makes another identity.\<close>

lemma unwritable_identity_lost:
  assumes "load_or_generate C False secret fresh None = (i, file')"
  shows "i = fresh \<and> load_or_generate C False secret' fresh' file' = (fresh', None)"
  using assms by (simp add: load_or_generate_def save_identity_def load_identity_def)

text \<open>The file of an older version, with no encryption key.\<close>

definition old_file :: identity_file where
  "old_file = \<lparr>signing_key_b64 = b64_encode toy_crypto (signing_key demo_identity),
               encryption_key_b64 = None\<rparr>"


end
