(* ===== verification/Consensus.thy ===== *)
theory Consensus
  imports Outcomes Identity
begin

text \<open>
  The consensus engine (src/src/consensus.rs): blocks of operations sealed by a certificate of
  votes, one proposer per height in rotation, fork choice by length, and the replica the engine
  keeps by applying committed operations.

  A handler returns the messages it originates and the engine afterwards. A \<open>BTreeSet\<close> is its
  sorted list of elements. Lengths of collections in memory are below 2 ^ 64, so they are
  compared as natural numbers; \<open>next_index\<close> and the quorum are machine words as in the source.
\<close>

section \<open>Blocks of operations\<close>

type_synonym node_key = bytes32

record op_block =
  ob_index :: u64
  ob_prev :: bytes32
  ob_proposer :: node_key
  ob_ops :: "ledger_op list"
  ob_quorum :: usize
  ob_hash :: bytes32
  ob_votes :: "block_vote list"

definition op_block_hash ::
  "crypto \<Rightarrow> u64 \<Rightarrow> bytes32 \<Rightarrow> node_key \<Rightarrow> ledger_op list \<Rightarrow> usize \<Rightarrow> bytes32" where
  "op_block_hash C index prev proposer ops quorum =
     sha256 C (le_bytes index @ prev @ proposer
       @ (case ops_json C ops of None \<Rightarrow> [] | Some bs \<Rightarrow> bs) @ le_bytes quorum)"

definition op_block_proposed ::
  "crypto \<Rightarrow> u64 \<Rightarrow> bytes32 \<Rightarrow> node_key \<Rightarrow> ledger_op list \<Rightarrow> usize \<Rightarrow> op_block" where
  "op_block_proposed C index prev proposer ops quorum =
     \<lparr>ob_index = index, ob_prev = prev, ob_proposer = proposer, ob_ops = ops, ob_quorum = quorum,
      ob_hash = op_block_hash C index prev proposer ops quorum, ob_votes = []\<rparr>"

definition op_genesis :: "crypto \<Rightarrow> op_block" where
  "op_genesis C =
     \<lparr>ob_index = 0, ob_prev = zero32, ob_proposer = zero32, ob_ops = [], ob_quorum = 0,
      ob_hash = op_block_hash C 0 zero32 zero32 [] 0, ob_votes = []\<rparr>"

text \<open>\<open>floor(2n/3) + 1\<close>.\<close>

definition quorum_for :: "usize \<Rightarrow> usize" where
  "quorum_for n = (2 * n) div 3 + 1"

section \<open>Messages and the engine\<close>

datatype consensus_msg =
    OpMsg ledger_op
  | Propose op_block
  | Vote u64 bytes32 node_key bytes \<comment> \<open>height, block hash, voter, signature\<close>
  | Committed op_block
  | SyncRequest u64
  | SyncResponse "op_block list"

type_synonym height_votes = "(bytes32, (node_key, bytes) hmap) hmap"

record engine =
  e_identity :: identity
  me :: node_key
  e_state :: network
  e_chain :: "op_block list"
  mempool :: "ledger_op list"
  validators :: "node_key list"
  active :: "node_key list"
  proposals :: "(u64, (bytes32, op_block) hmap) hmap"
  votes :: "(u64, height_votes) hmap"
  voted :: "(u64, bytes32) hmap"

definition consensus_config :: network_config where
  "consensus_config = default_config\<lparr>consensus_quorum := 1\<rparr>"

definition fresh_state :: "crypto \<Rightarrow> network" where
  "fresh_state C = with_config (sha256 C) consensus_config"

definition engine_new :: "crypto \<Rightarrow> identity \<Rightarrow> node_key list \<Rightarrow> engine" where
  "engine_new C i initial_validators =
     (let key = public_key_bytes C i;
          vs = insort_insert key (fold insort_insert initial_validators [])
      in \<lparr>e_identity = i, me = key, e_state = fresh_state C, e_chain = [op_genesis C],
          mempool = [], validators = vs, active = vs, proposals = [], votes = [], voted = []\<rparr>)"

subsection \<open>Reading the engine\<close>

definition e_head_hash :: "engine \<Rightarrow> bytes32" where
  "e_head_hash e = (if e_chain e = [] then zero32 else ob_hash (last (e_chain e)))"

definition e_next_index :: "engine \<Rightarrow> u64" where
  "e_next_index e = usize_of (length (e_chain e))"

definition e_quorum :: "engine \<Rightarrow> usize" where
  "e_quorum e = quorum_for (usize_of (length (active e)))"

definition proposer_for :: "engine \<Rightarrow> u64 \<Rightarrow> node_key option" where
  "proposer_for e height =
     (let n = length (active e)
      in if n = 0 then None
         else let idx = unat (height mod usize_of n)
              in if idx < n then Some (active e ! idx) else None)"

definition am_proposer_for :: "engine \<Rightarrow> u64 \<Rightarrow> bool" where
  "am_proposer_for e height \<longleftrightarrow> proposer_for e height = Some (me e)"

definition verify_certificate :: "crypto \<Rightarrow> engine \<Rightarrow> op_block \<Rightarrow> bool" where
  "verify_certificate C e b \<longleftrightarrow>
     (if ob_index b = 0 then True
      else
        let quorum = max (ob_quorum b) 1;
            valid = remdups (map voter (filter (\<lambda>v. voter v \<in> set (validators e)
                      \<and> verify_sig C (voter v) (ob_hash b) (signature v)) (ob_votes b)))
        in unat quorum \<le> length valid)"

subsection \<open>Membership\<close>

definition add_validator :: "node_key \<Rightarrow> engine \<Rightarrow> engine" where
  "add_validator key e =
     e\<lparr>validators := insort_insert key (validators e), active := insort_insert key (active e)\<rparr>"

definition note_validator :: "node_key \<Rightarrow> engine \<Rightarrow> engine" where
  "note_validator key e = e\<lparr>validators := insort_insert key (validators e)\<rparr>"

definition mark_inactive :: "node_key \<Rightarrow> engine \<Rightarrow> engine" where
  "mark_inactive key e =
     (if key \<noteq> me e then e\<lparr>active := removeAll key (active e)\<rparr> else e)"

definition note_members :: "op_block \<Rightarrow> engine \<Rightarrow> engine" where
  "note_members b e = fold (\<lambda>v. note_validator (voter v)) (ob_votes b) (note_validator (ob_proposer b) e)"

subsection \<open>The pool of operations and the chain\<close>

definition add_to_mempool :: "ledger_op \<Rightarrow> engine \<Rightarrow> bool \<times> engine" where
  "add_to_mempool op e =
     (if op \<in> set (mempool e) then (False, e)
      else if \<exists>b\<in>set (e_chain e). op \<in> set (ob_ops b) then (False, e)
      else (True, e\<lparr>mempool := mempool e @ [op]\<rparr>))"

definition append_and_apply :: "crypto \<Rightarrow> op_block \<Rightarrow> engine \<Rightarrow> engine" where
  "append_and_apply C b e =
     (if ob_index b \<noteq> e_next_index e \<or> ob_prev b \<noteq> e_head_hash e then e
      else e\<lparr>e_state := fold (apply_op (sha256 C)) (ob_ops b) (e_state e),
             mempool := filter (\<lambda>op. op \<notin> set (ob_ops b)) (mempool e),
             e_chain := e_chain e @ [b],
             proposals := hm_remove (ob_index b) (proposals e),
             votes := hm_remove (ob_index b) (votes e),
             voted := hm_remove (ob_index b) (voted e)\<rparr>)"

fun restore_chain :: "crypto \<Rightarrow> op_block list \<Rightarrow> engine \<Rightarrow> engine" where
  "restore_chain C [] e = e"
| "restore_chain C (b # bs) e =
     (if ob_index b \<noteq> e_next_index e then restore_chain C bs e
      else restore_chain C bs (append_and_apply C b (note_members b e)))"

section \<open>Proposing and voting\<close>

definition store_proposal :: "op_block \<Rightarrow> engine \<Rightarrow> engine" where
  "store_proposal b e =
     (let m = (case hm_get (proposals e) (ob_index b) of None \<Rightarrow> [] | Some m \<Rightarrow> m)
      in e\<lparr>proposals := hm_insert (ob_index b) (hm_insert (ob_hash b) b m) (proposals e)\<rparr>)"

definition store_vote ::
  "u64 \<Rightarrow> bytes32 \<Rightarrow> node_key \<Rightarrow> bytes \<Rightarrow> engine \<Rightarrow> engine" where
  "store_vote height bhash key sig e =
     (let m = (case hm_get (votes e) height of None \<Rightarrow> [] | Some m \<Rightarrow> m);
          sigs = (case hm_get m bhash of None \<Rightarrow> [] | Some s \<Rightarrow> s)
      in e\<lparr>votes := hm_insert height (hm_insert bhash (hm_insert key sig sigs) m) (votes e)\<rparr>)"

definition cast_vote ::
  "crypto \<Rightarrow> u64 \<Rightarrow> bytes32 \<Rightarrow> engine \<Rightarrow> consensus_msg list \<times> engine" where
  "cast_vote C height bhash e =
     (if hm_has (voted e) height then ([], e)
      else
        let sig = sign_nonce C (e_identity e) bhash;
            e = e\<lparr>voted := hm_insert height bhash (voted e)\<rparr>
        in ([Vote height bhash (me e) sig], store_vote height bhash (me e) sig e))"

text \<open>The votes gathered for a block hash, in the order the hash map yields them.\<close>

definition tally_of :: "engine \<Rightarrow> u64 \<Rightarrow> bytes32 \<Rightarrow> (node_key, bytes) hmap" where
  "tally_of e height bhash =
     (case Option.bind (hm_get (votes e) height) (\<lambda>m. hm_get m bhash) of
        None \<Rightarrow> [] | Some sigs \<Rightarrow> sigs)"

definition maybe_commit ::
  "crypto \<Rightarrow> u64 \<Rightarrow> bytes32 \<Rightarrow> engine \<Rightarrow> consensus_msg list \<times> engine" where
  "maybe_commit C height bhash e =
     (if height \<noteq> e_next_index e then ([], e)
      else
        case Option.bind (hm_get (proposals e) height) (\<lambda>m. hm_get m bhash) of
          None \<Rightarrow> ([], e)
        | Some b \<Rightarrow>
            if length (tally_of e height bhash) < unat (max (ob_quorum b) 1) then ([], e)
            else
              let b = b\<lparr>ob_votes := map (\<lambda>(key, sig). \<lparr>voter = key, signature = sig\<rparr>)
                                      (tally_of e height bhash)\<rparr>
              in ([Committed b], append_and_apply C b e))"

definition submit_local_op :: "ledger_op \<Rightarrow> engine \<Rightarrow> consensus_msg list \<times> engine" where
  "submit_local_op op e =
     (let (added, e) = add_to_mempool op e in (if added then [OpMsg op] else [], e))"

text \<open>Casting a vote and then trying to commit, as both ends of a proposal do.\<close>

definition vote_and_commit ::
  "crypto \<Rightarrow> u64 \<Rightarrow> bytes32 \<Rightarrow> engine \<Rightarrow> consensus_msg list \<times> engine" where
  "vote_and_commit C height bhash e =
     (let (out, e) = cast_vote C height bhash e;
          (out', e) = maybe_commit C height bhash e
      in (out @ out', e))"

definition try_propose :: "crypto \<Rightarrow> engine \<Rightarrow> consensus_msg list \<times> engine" where
  "try_propose C e =
     (let height = e_next_index e
      in if \<not> am_proposer_for e height \<or> mempool e = [] then ([], e)
         else if (case hm_get (proposals e) height of
                    None \<Rightarrow> False | Some m \<Rightarrow> \<exists>(k, b)\<in>set m. ob_proposer b = me e) then ([], e)
         else
           let b = op_block_proposed C height (e_head_hash e) (me e) (mempool e) (e_quorum e);
               (out, e) = vote_and_commit C height (ob_hash b) (store_proposal b e)
           in (Propose b # out, e))"

definition on_propose :: "crypto \<Rightarrow> op_block \<Rightarrow> engine \<Rightarrow> consensus_msg list \<times> engine" where
  "on_propose C b e =
     (let e = add_validator (ob_proposer b) e; height = ob_index b
      in if height \<noteq> e_next_index e then
           (if e_next_index e < height then [SyncRequest (e_next_index e)] else [], e)
         else if ob_prev b \<noteq> e_head_hash e then ([], e)
         else if proposer_for e height \<noteq> Some (ob_proposer b) then ([], e)
         else if ob_hash b \<noteq> op_block_hash C (ob_index b) (ob_prev b) (ob_proposer b)
                               (ob_ops b) (ob_quorum b) then ([], e)
         else vote_and_commit C height (ob_hash b) (store_proposal b e))"

definition on_vote ::
  "crypto \<Rightarrow> u64 \<Rightarrow> bytes32 \<Rightarrow> node_key \<Rightarrow> bytes \<Rightarrow> engine \<Rightarrow> consensus_msg list \<times> engine" where
  "on_vote C height bhash key sig e =
     (let e = add_validator key e
      in if height < e_next_index e then ([], e)
         else if \<not> verify_sig C key bhash sig then ([], e)
         else maybe_commit C height bhash (store_vote height bhash key sig e))"

section \<open>Committed blocks and catching up\<close>

definition on_committed :: "crypto \<Rightarrow> op_block \<Rightarrow> engine \<Rightarrow> consensus_msg list \<times> engine" where
  "on_committed C b e =
     (let e = add_validator (ob_proposer b) e; next_i = e_next_index e
      in if ob_index b < next_i then
           (if ob_hash (e_chain e ! unat (ob_index b)) \<noteq> ob_hash b then [SyncRequest 0] else [], e)
         else if next_i < ob_index b then ([SyncRequest next_i], e)
         else if ob_prev b \<noteq> e_head_hash e then ([SyncRequest 0], e)
         else if verify_certificate C e b then ([], append_and_apply C b e)
         else ([], e))"

fun links_ok :: "crypto \<Rightarrow> nat \<Rightarrow> bytes32 \<Rightarrow> op_block list \<Rightarrow> bool" where
  "links_ok C i prev [] = True"
| "links_ok C i prev (b # bs) =
     (if ob_index b \<noteq> usize_of i \<or> ob_prev b \<noteq> prev then False
      else if ob_hash b \<noteq> op_block_hash C (ob_index b) (ob_prev b) (ob_proposer b) (ob_ops b)
                            (ob_quorum b) then False
      else links_ok C (i + 1) (ob_hash b) bs)"

definition ops_of :: "op_block list \<Rightarrow> ledger_op list" where
  "ops_of bs = concat (map ob_ops bs)"

definition try_adopt_chain :: "crypto \<Rightarrow> op_block list \<Rightarrow> engine \<Rightarrow> bool \<times> engine" where
  "try_adopt_chain C bs e =
     (if bs = [] \<or> ob_index (hd bs) \<noteq> 0 then (False, e)
      else if \<not> links_ok C 0 zero32 bs then (False, e)
      else
        let e = fold note_members bs e
        in if \<not> list_all (verify_certificate C e) bs then (False, e)
           else if length bs \<le> length (e_chain e) then (False, e)
           else (True, e\<lparr>e_state := fold (apply_op (sha256 C)) (ops_of bs) (fresh_state C),
                         e_chain := bs,
                         mempool := filter (\<lambda>op. \<forall>b\<in>set bs. op \<notin> set (ob_ops b)) (mempool e),
                         proposals := [], votes := [], voted := []\<rparr>))"

text \<open>The loop over a partial response, with its flag.\<close>

fun link_blocks :: "crypto \<Rightarrow> op_block list \<Rightarrow> bool \<Rightarrow> engine \<Rightarrow> bool \<times> engine" where
  "link_blocks C [] linked e = (linked, e)"
| "link_blocks C (b # bs) linked e =
     (if ob_index b \<noteq> e_next_index e \<or> ob_prev b \<noteq> e_head_hash e then link_blocks C bs linked e
      else if ob_index b = 0 \<or> verify_certificate C e b
        then link_blocks C bs True (append_and_apply C b e)
      else link_blocks C bs linked e)"

definition apply_sync_blocks ::
  "crypto \<Rightarrow> op_block list \<Rightarrow> engine \<Rightarrow> consensus_msg list \<times> engine" where
  "apply_sync_blocks C bs e =
     (let sorted_bs = sort_key ob_index bs
      in if sorted_bs \<noteq> [] \<and> ob_index (hd sorted_bs) = 0
           then ([], snd (try_adopt_chain C sorted_bs e))
         else
           let (linked_any, e) = link_blocks C sorted_bs False e
           in (if \<not> linked_any \<and> (\<exists>b\<in>set sorted_bs. e_next_index e \<le> ob_index b)
               then [SyncRequest 0] else [], e))"

fun on_message :: "crypto \<Rightarrow> consensus_msg \<Rightarrow> engine \<Rightarrow> consensus_msg list \<times> engine" where
  "on_message C (OpMsg op) e = ([], snd (add_to_mempool op e))"
| "on_message C (Propose b) e = on_propose C b e"
| "on_message C (Vote height bhash key sig) e = on_vote C height bhash key sig e"
| "on_message C (Committed b) e = on_committed C b e"
| "on_message C (SyncRequest from_height) e =
     (let bs = filter (\<lambda>b. from_height \<le> ob_index b) (e_chain e)
      in (if bs = [] then [] else [SyncResponse bs], e))"
| "on_message C (SyncResponse bs) e = apply_sync_blocks C bs e"

section \<open>Runs of an engine\<close>

text \<open>Everything a driver may do to an engine after it is built or restored.\<close>

datatype engine_event =
    Receive consensus_msg
  | SubmitLocal ledger_op
  | TryPropose
  | LinkUp node_key
  | LinkDown node_key

fun engine_step :: "crypto \<Rightarrow> engine_event \<Rightarrow> engine \<Rightarrow> consensus_msg list \<times> engine" where
  "engine_step C (Receive msg) e = on_message C msg e"
| "engine_step C (SubmitLocal op) e = submit_local_op op e"
| "engine_step C TryPropose e = try_propose C e"
| "engine_step C (LinkUp key) e = ([], add_validator key e)"
| "engine_step C (LinkDown key) e = ([], mark_inactive key e)"

fun engine_run :: "crypto \<Rightarrow> engine_event list \<Rightarrow> engine \<Rightarrow> consensus_msg list \<times> engine" where
  "engine_run C [] e = ([], e)"
| "engine_run C (ev # evs) e =
     (let (out, e) = engine_step C ev e; (out', e) = engine_run C evs e in (out @ out', e))"

end
