(* ===== verification/Engine.thy ===== *)
theory Engine
  imports Consensus
begin

text \<open>
  The invariants of a consensus engine and their preservation by every event: the chain is
  linked, the replica is the replay of the chain, the pool holds each pending operation once and
  none that is committed, the engine is one of its active validators, and what it keeps of the
  current round fits the head of the chain. From these follow the properties of whole runs.
\<close>

section \<open>Invariants\<close>

definition chain_linked :: "op_block list \<Rightarrow> bool" where
  "chain_linked bs \<longleftrightarrow> bs \<noteq> [] \<and> (\<forall>i<length bs. ob_index (bs ! i) = usize_of i
     \<and> ob_prev (bs ! i) = (if i = 0 then zero32 else ob_hash (bs ! (i - 1))))"

definition replica_ok :: "crypto \<Rightarrow> engine \<Rightarrow> bool" where
  "replica_ok C e \<longleftrightarrow> e_state e = replay (sha256 C) consensus_config (ops_of (e_chain e))"

definition pool_ok :: "engine \<Rightarrow> bool" where
  "pool_ok e \<longleftrightarrow> distinct (mempool e) \<and> set (mempool e) \<inter> set (ops_of (e_chain e)) = {}"

definition members_ok :: "crypto \<Rightarrow> engine \<Rightarrow> bool" where
  "members_ok C e \<longleftrightarrow> public_key_bytes C (e_identity e) = me e \<and> me e \<in> set (active e)
     \<and> set (active e) \<subseteq> set (validators e)
     \<and> sorted (active e) \<and> distinct (active e) \<and> sorted (validators e) \<and> distinct (validators e)"

definition proposal_ok :: "crypto \<Rightarrow> engine \<Rightarrow> bytes32 \<Rightarrow> op_block \<Rightarrow> bool" where
  "proposal_ok C e k b \<longleftrightarrow> ob_hash b = k \<and> ob_index b = e_next_index e \<and> ob_prev b = e_head_hash e
     \<and> k = op_block_hash C (ob_index b) (ob_prev b) (ob_proposer b) (ob_ops b) (ob_quorum b)"

definition round_ok :: "crypto \<Rightarrow> engine \<Rightarrow> bool" where
  "round_ok C e \<longleftrightarrow>
     (\<forall>h m. hm_get (proposals e) h = Some m \<longrightarrow> h = e_next_index e
        \<and> (\<forall>k b. hm_get m k = Some b \<longrightarrow> proposal_ok C e k b))
     \<and> (\<forall>h. hm_has (voted e) h \<longrightarrow> h = e_next_index e)"

definition sigs_ok :: "crypto \<Rightarrow> engine \<Rightarrow> bytes32 \<Rightarrow> (node_key, bytes) hmap \<Rightarrow> bool" where
  "sigs_ok C e k sigs \<longleftrightarrow> hm_ok sigs \<and>
     (\<forall>v s. hm_get sigs v = Some s \<longrightarrow> v \<in> set (validators e) \<and> verify_sig C v k s)"

definition votes_ok :: "crypto \<Rightarrow> engine \<Rightarrow> bool" where
  "votes_ok C e \<longleftrightarrow> (\<forall>h m k sigs. hm_get (votes e) h = Some m \<longrightarrow> hm_get m k = Some sigs \<longrightarrow>
     sigs_ok C e k sigs)"

definition engine_ok :: "crypto \<Rightarrow> engine \<Rightarrow> bool" where
  "engine_ok C e \<longleftrightarrow> chain_linked (e_chain e) \<and> replica_ok C e \<and> pool_ok e \<and> members_ok C e
     \<and> round_ok C e \<and> votes_ok C e"

text \<open>Every block the engine holds has a certificate that verifies with what it knows.\<close>

definition certified :: "crypto \<Rightarrow> engine \<Rightarrow> bool" where
  "certified C e \<longleftrightarrow> list_all (verify_certificate C e) (e_chain e)"

text \<open>The engine's own key pair works.\<close>

definition own_key_ok :: "crypto \<Rightarrow> engine \<Rightarrow> bool" where
  "own_key_ok C e \<longleftrightarrow> signatures_ok C \<and> length (signing_key (e_identity e)) = 32"

text \<open>The head depends on the chain alone.\<close>

lemma head_frame [simp]:
  "e_next_index (e\<lparr>validators := V\<rparr>) = e_next_index e" "e_head_hash (e\<lparr>validators := V\<rparr>) = e_head_hash e"
  "e_next_index (e\<lparr>active := A\<rparr>) = e_next_index e" "e_head_hash (e\<lparr>active := A\<rparr>) = e_head_hash e"
  "e_next_index (e\<lparr>mempool := M\<rparr>) = e_next_index e" "e_head_hash (e\<lparr>mempool := M\<rparr>) = e_head_hash e"
  "e_next_index (e\<lparr>proposals := P\<rparr>) = e_next_index e" "e_head_hash (e\<lparr>proposals := P\<rparr>) = e_head_hash e"
  "e_next_index (e\<lparr>votes := W\<rparr>) = e_next_index e" "e_head_hash (e\<lparr>votes := W\<rparr>) = e_head_hash e"
  "e_next_index (e\<lparr>voted := U\<rparr>) = e_next_index e" "e_head_hash (e\<lparr>voted := U\<rparr>) = e_head_hash e"
  "e_next_index (e\<lparr>e_state := n\<rparr>) = e_next_index e" "e_head_hash (e\<lparr>e_state := n\<rparr>) = e_head_hash e"
  by (simp_all add: e_next_index_def e_head_hash_def)

lemma proposal_frame [simp]:
  "proposal_ok C (e\<lparr>validators := V\<rparr>) k b = proposal_ok C e k b"
  "proposal_ok C (e\<lparr>active := A\<rparr>) k b = proposal_ok C e k b"
  "proposal_ok C (e\<lparr>mempool := M\<rparr>) k b = proposal_ok C e k b"
  "proposal_ok C (e\<lparr>proposals := P\<rparr>) k b = proposal_ok C e k b"
  "proposal_ok C (e\<lparr>votes := W\<rparr>) k b = proposal_ok C e k b"
  "proposal_ok C (e\<lparr>voted := U\<rparr>) k b = proposal_ok C e k b"
  by (simp_all add: proposal_ok_def)

lemma sigs_frame [simp]:
  "sigs_ok C (e\<lparr>active := A\<rparr>) k sigs = sigs_ok C e k sigs"
  "sigs_ok C (e\<lparr>mempool := M\<rparr>) k sigs = sigs_ok C e k sigs"
  "sigs_ok C (e\<lparr>proposals := P\<rparr>) k sigs = sigs_ok C e k sigs"
  "sigs_ok C (e\<lparr>votes := W\<rparr>) k sigs = sigs_ok C e k sigs"
  "sigs_ok C (e\<lparr>voted := U\<rparr>) k sigs = sigs_ok C e k sigs"
  "sigs_ok C (e\<lparr>e_chain := bs\<rparr>) k sigs = sigs_ok C e k sigs"
  "sigs_ok C (e\<lparr>e_state := n\<rparr>) k sigs = sigs_ok C e k sigs"
  by (simp_all add: sigs_ok_def)

section \<open>Membership\<close>

lemma verify_certificate_mono:
  assumes "set (validators e) \<subseteq> set (validators e')" and "verify_certificate C e b"
  shows "verify_certificate C e' b"
proof -
  define good where "good e = set (map voter (filter (\<lambda>v. voter v \<in> set (validators e)
      \<and> verify_sig C (voter v) (ob_hash b) (signature v)) (ob_votes b)))" for e :: engine
  have "good e \<subseteq> good e'"
    using assms(1) by (auto simp: good_def)
  then have "card (good e) \<le> card (good e')"
    by (intro card_mono) (simp_all add: good_def)
  moreover have "length (remdups xs) = card (set xs)" for xs :: "node_key list"
    by (simp add: length_remdups_card_conv)
  ultimately show ?thesis
    using assms(2) unfolding verify_certificate_def Let_def good_def by (auto split: if_splits)
qed

lemma certified_mono:
  "certified C e \<Longrightarrow> set (validators e) \<subseteq> set (validators e') \<Longrightarrow> e_chain e' = e_chain e \<Longrightarrow>
   certified C e'"
  using verify_certificate_mono [of e e' C] by (auto simp: certified_def list_all_iff)

lemma sigs_ok_mono:
  "sigs_ok C e k sigs \<Longrightarrow> set (validators e) \<subseteq> set (validators e') \<Longrightarrow> sigs_ok C e' k sigs"
  by (auto simp: sigs_ok_def)

text \<open>Changes of the membership alone.\<close>

lemma engine_ok_members:
  assumes "engine_ok C e" and "members_ok C e'" and "set (validators e) \<subseteq> set (validators e')"
    and "e' = e\<lparr>validators := V, active := A\<rparr>"
  shows "engine_ok C e'"
proof -
  have "round_ok C e'"
    using assms(1) by (simp add: engine_ok_def round_ok_def assms(4))
  moreover have "votes_ok C e'"
    using assms(1,3) sigs_ok_mono [of C e _ _ e'] unfolding engine_ok_def votes_ok_def
    by (simp add: assms(4))
  ultimately show ?thesis
    using assms(1,2) by (simp add: engine_ok_def replica_ok_def pool_ok_def assms(4))
qed

lemma engine_ok_add_validator: "engine_ok C e \<Longrightarrow> engine_ok C (add_validator key e)"
  by (rule engine_ok_members [where V = "insort_insert key (validators e)"
        and A = "insort_insert key (active e)"])
    (auto simp: engine_ok_def members_ok_def add_validator_def set_insort_insert
      sorted_insort_insert distinct_insort_insert)

lemma engine_ok_note_validator: "engine_ok C e \<Longrightarrow> engine_ok C (note_validator key e)"
  by (rule engine_ok_members [where V = "insort_insert key (validators e)" and A = "active e"])
    (auto simp: engine_ok_def members_ok_def note_validator_def set_insort_insert
      sorted_insort_insert distinct_insort_insert)

lemma engine_ok_mark_inactive: "engine_ok C e \<Longrightarrow> engine_ok C (mark_inactive key e)"
  by (rule engine_ok_members [where V = "validators e"
        and A = "if key \<noteq> me e then removeAll key (active e) else active e"])
    (auto simp: engine_ok_def members_ok_def mark_inactive_def distinct_removeAll
      removeAll_filter_not_eq sorted_filter [where f = id, simplified])

lemma note_validator_fields [simp]:
  "e_chain (note_validator key e) = e_chain e" "active (note_validator key e) = active e"
  "e_identity (note_validator key e) = e_identity e" "mempool (note_validator key e) = mempool e"
  "set (validators (note_validator key e)) = insert key (set (validators e))"
  "me (note_validator key e) = me e"
  by (simp_all add: note_validator_def set_insort_insert)

lemma note_voters_fields [simp]:
  "e_chain (fold (\<lambda>v. note_validator (f v)) vs e) = e_chain e"
  "active (fold (\<lambda>v. note_validator (f v)) vs e) = active e"
  "e_identity (fold (\<lambda>v. note_validator (f v)) vs e) = e_identity e"
  "mempool (fold (\<lambda>v. note_validator (f v)) vs e) = mempool e"
  "set (validators (fold (\<lambda>v. note_validator (f v)) vs e)) = set (validators e) \<union> f ` set vs"
  "me (fold (\<lambda>v. note_validator (f v)) vs e) = me e"
  by (induction vs arbitrary: e) auto

lemma note_members_fields [simp]:
  "e_chain (note_members b e) = e_chain e" "active (note_members b e) = active e"
  "e_identity (note_members b e) = e_identity e" "mempool (note_members b e) = mempool e"
  "set (validators (note_members b e))
     = insert (ob_proposer b) (set (validators e)) \<union> voter ` set (ob_votes b)"
  "me (note_members b e) = me e"
  by (simp_all add: note_members_def)

lemma engine_ok_note_members: "engine_ok C e \<Longrightarrow> engine_ok C (note_members b e)"
proof -
  have "engine_ok C e \<Longrightarrow> engine_ok C (fold (\<lambda>v. note_validator (f v)) vs e)"
    for f :: "block_vote \<Rightarrow> node_key" and vs e
    by (induction vs arbitrary: e) (simp_all add: engine_ok_note_validator)
  then show "engine_ok C e \<Longrightarrow> engine_ok C (note_members b e)"
    by (simp add: note_members_def engine_ok_note_validator)
qed

lemma note_all_fields [simp]:
  "e_chain (fold note_members bs e) = e_chain e" "active (fold note_members bs e) = active e"
  "e_identity (fold note_members bs e) = e_identity e" "mempool (fold note_members bs e) = mempool e"
  "set (validators e) \<subseteq> set (validators (fold note_members bs e))"
  "me (fold note_members bs e) = me e"
proof -
  show "set (validators e) \<subseteq> set (validators (fold note_members bs e))"
  proof (induction bs arbitrary: e)
    case (Cons b bs)
    have "set (validators e) \<subseteq> set (validators (note_members b e))"
      by auto
    also have "\<dots> \<subseteq> set (validators (fold note_members bs (note_members b e)))"
      by (rule Cons.IH)
    finally show ?case by simp
  qed simp
qed (induction bs arbitrary: e; simp)+

lemma engine_ok_note_all: "engine_ok C e \<Longrightarrow> engine_ok C (fold note_members bs e)"
  by (induction bs arbitrary: e) (simp_all add: engine_ok_note_members)

section \<open>The pool and the chain\<close>

lemma ops_of_simps [simp]:
  "ops_of [] = []" "ops_of (b # bs) = ob_ops b @ ops_of bs" "ops_of (bs @ cs) = ops_of bs @ ops_of cs"
  by (simp_all add: ops_of_def)

lemma in_ops_of: "op \<in> set (ops_of bs) \<longleftrightarrow> (\<exists>b\<in>set bs. op \<in> set (ob_ops b))"
  by (simp add: ops_of_def)

lemma replay_append: "replay H cfg (ops @ ops') = fold (apply_op H) ops' (replay H cfg ops)"
  by (simp add: replay_def)

lemma fresh_state_replay: "fresh_state C = replay (sha256 C) consensus_config []"
  by (simp add: fresh_state_def replay_def)

lemma chain_linked_snoc:
  assumes "chain_linked bs" and "ob_index b = usize_of (length bs)" and "ob_prev b = ob_hash (last bs)"
  shows "chain_linked (bs @ [b])"
proof -
  have bs: "bs \<noteq> []"
    using assms(1) by (simp add: chain_linked_def)
  have "ob_index ((bs @ [b]) ! i) = usize_of i
      \<and> ob_prev ((bs @ [b]) ! i) = (if i = 0 then zero32 else ob_hash ((bs @ [b]) ! (i - 1)))"
    if "i < length (bs @ [b])" for i
  proof (cases "i < length bs")
    case True
    then show ?thesis
      using assms(1) by (auto simp: chain_linked_def nth_append)
  next
    case False
    then have "i = length bs"
      using that by simp
    then show ?thesis
      using assms(2,3) bs by (simp add: nth_append last_conv_nth)
  qed
  then show ?thesis
    by (simp add: chain_linked_def)
qed

lemma engine_ok_add_to_mempool:
  assumes "engine_ok C e"
  shows "engine_ok C (snd (add_to_mempool op e))"
  using assms by (simp add: add_to_mempool_def engine_ok_def replica_ok_def pool_ok_def members_ok_def
      round_ok_def votes_ok_def in_ops_of)

lemma append_and_apply_fits:
  "ob_index b = e_next_index e \<Longrightarrow> ob_prev b = e_head_hash e \<Longrightarrow>
   append_and_apply C b e =
     e\<lparr>e_state := fold (apply_op (sha256 C)) (ob_ops b) (e_state e),
       mempool := filter (\<lambda>op. op \<notin> set (ob_ops b)) (mempool e), e_chain := e_chain e @ [b],
       proposals := hm_remove (ob_index b) (proposals e), votes := hm_remove (ob_index b) (votes e),
       voted := hm_remove (ob_index b) (voted e)\<rparr>"
  by (simp add: append_and_apply_def)

lemma append_and_apply_unfit:
  "\<not> (ob_index b = e_next_index e \<and> ob_prev b = e_head_hash e) \<Longrightarrow> append_and_apply C b e = e"
  by (auto simp: append_and_apply_def)

text \<open>When a block is appended, nothing of the round is left over.\<close>

lemma engine_ok_append:
  assumes "engine_ok C e"
  shows "engine_ok C (append_and_apply C b e)"
proof (cases "ob_index b = e_next_index e \<and> ob_prev b = e_head_hash e")
  case False
  then show ?thesis
    using assms by (simp add: append_and_apply_unfit)
next
  case True
  let ?e = "append_and_apply C b e"
  have eq: "?e = e\<lparr>e_state := fold (apply_op (sha256 C)) (ob_ops b) (e_state e),
       mempool := filter (\<lambda>op. op \<notin> set (ob_ops b)) (mempool e), e_chain := e_chain e @ [b],
       proposals := hm_remove (ob_index b) (proposals e), votes := hm_remove (ob_index b) (votes e),
       voted := hm_remove (ob_index b) (voted e)\<rparr>"
    using True by (intro append_and_apply_fits) simp_all
  have "chain_linked (e_chain ?e)"
    using assms True by (simp add: eq engine_ok_def chain_linked_snoc e_next_index_def e_head_hash_def
        split: if_splits) (simp add: chain_linked_def)
  moreover have "replica_ok C ?e"
    using assms by (simp add: eq engine_ok_def replica_ok_def replay_append)
  moreover have "pool_ok ?e"
    using assms by (auto simp: eq engine_ok_def pool_ok_def)
  moreover have "members_ok C ?e"
    using assms by (auto simp: eq engine_ok_def members_ok_def)
  moreover have "round_ok C ?e"
    using assms True by (auto simp: eq engine_ok_def round_ok_def)
  moreover have "votes_ok C ?e"
    using assms by (simp add: eq engine_ok_def votes_ok_def)
  ultimately show ?thesis
    by (simp add: engine_ok_def)
qed

lemma validators_append [simp]:
  "validators (append_and_apply C b e) = validators e" "active (append_and_apply C b e) = active e"
  "me (append_and_apply C b e) = me e" "e_identity (append_and_apply C b e) = e_identity e"
  by (simp_all add: append_and_apply_def)

lemma verify_certificate_cong:
  "validators e' = validators e \<Longrightarrow> verify_certificate C e' b = verify_certificate C e b"
  by (simp add: verify_certificate_def)

lemma certified_append:
  assumes "certified C e" and "verify_certificate C e b"
  shows "certified C (append_and_apply C b e)"
proof -
  have "verify_certificate C (append_and_apply C b e) = verify_certificate C e"
    by (intro ext verify_certificate_cong) simp
  then show ?thesis
    using assms by (simp add: certified_def append_and_apply_def)
qed

section \<open>Adopting a longer chain\<close>

lemma links_ok_nth:
  "links_ok C i prev bs \<Longrightarrow> j < length bs \<Longrightarrow>
   ob_index (bs ! j) = usize_of (i + j)
   \<and> ob_prev (bs ! j) = (if j = 0 then prev else ob_hash (bs ! (j - 1)))
   \<and> ob_hash (bs ! j) = op_block_hash C (ob_index (bs ! j)) (ob_prev (bs ! j)) (ob_proposer (bs ! j))
        (ob_ops (bs ! j)) (ob_quorum (bs ! j))"
proof (induction bs arbitrary: i prev j)
  case (Cons b bs)
  then show ?case
    by (cases j) (auto split: if_splits)
qed simp

lemma chain_linked_links: "links_ok C 0 zero32 bs \<Longrightarrow> bs \<noteq> [] \<Longrightarrow> chain_linked bs"
  using links_ok_nth [of C 0 zero32 bs] by (simp add: chain_linked_def)

lemma engine_ok_adopt:
  assumes "engine_ok C e"
  shows "engine_ok C (snd (try_adopt_chain C bs e))"
proof -
  let ?e = "fold note_members bs e"
  have ok: "engine_ok C ?e"
    by (rule engine_ok_note_all [OF assms])
  have "engine_ok C (?e\<lparr>e_state := fold (apply_op (sha256 C)) (ops_of bs) (fresh_state C),
      e_chain := bs, mempool := filter (\<lambda>op. \<forall>b\<in>set bs. op \<notin> set (ob_ops b)) (mempool ?e),
      proposals := [], votes := [], voted := []\<rparr>)"
    if "links_ok C 0 zero32 bs" "bs \<noteq> []"
    using ok chain_linked_links [OF that]
    by (simp add: engine_ok_def replica_ok_def pool_ok_def members_ok_def round_ok_def votes_ok_def
        replay_def fresh_state_def) (auto simp: in_ops_of)
  then show ?thesis
    using assms ok by (simp add: try_adopt_chain_def Let_def)
qed

lemma certified_adopt:
  assumes "certified C e"
  shows "certified C (snd (try_adopt_chain C bs e))"
proof -
  let ?e = "fold note_members bs e"
  have "certified C ?e"
    by (rule certified_mono [OF assms]) simp_all
  moreover have "certified C (?e\<lparr>e_state := n, e_chain := bs, mempool := m, proposals := [],
      votes := [], voted := []\<rparr>)" (is "certified C (?e' n m)")
    if "list_all (verify_certificate C ?e) bs" for n m
  proof -
    have "verify_certificate C (?e' n m) = verify_certificate C ?e"
      by (intro ext verify_certificate_cong) simp
    then show ?thesis
      using that by (simp add: certified_def)
  qed
  ultimately show ?thesis
    using assms by (simp add: try_adopt_chain_def Let_def)
qed

section \<open>Votes and proposals\<close>

lemma engine_ok_store_proposal:
  assumes "engine_ok C e" and "proposal_ok C e (ob_hash b) b"
  shows "engine_ok C (store_proposal b e)"
proof -
  define m where "m = (case hm_get (proposals e) (ob_index b) of None \<Rightarrow> [] | Some m \<Rightarrow> m)"
  have i: "ob_index b = e_next_index e"
    using assms(2) by (simp add: proposal_ok_def)
  have old: "proposal_ok C e k b'" if "hm_get m k = Some b'" for k b'
    using assms(1) that by (auto simp: m_def engine_ok_def round_ok_def split: option.splits)
  have new: "proposal_ok C e k b'" if "hm_get (hm_insert (ob_hash b) b m) k = Some b'" for k b'
    using that old assms(2) by (cases "k = ob_hash b") simp_all
  define M where "M = hm_insert (ob_hash b) b m"
  have "round_ok C (e\<lparr>proposals := hm_insert (ob_index b) M (proposals e)\<rparr>)"
    using assms(1) new [folded M_def] i by (auto simp: round_ok_def engine_ok_def)
  then show ?thesis
    using assms(1) by (simp add: store_proposal_def m_def [symmetric] M_def engine_ok_def replica_ok_def
        pool_ok_def members_ok_def votes_ok_def)
qed

lemma engine_ok_store_vote:
  assumes "engine_ok C e" and "key \<in> set (validators e)" and "verify_sig C key bhash sig"
  shows "engine_ok C (store_vote height bhash key sig e)"
proof -
  define m where "m = (case hm_get (votes e) height of None \<Rightarrow> [] | Some m \<Rightarrow> m)"
  define sigs where "sigs = (case hm_get m bhash of None \<Rightarrow> [] | Some s \<Rightarrow> s)"
  define M where "M = hm_insert bhash (hm_insert key sig sigs) m"
  have old: "sigs_ok C e k s" if "hm_get m k = Some s" for k s
    using assms(1) that by (auto simp: m_def engine_ok_def votes_ok_def split: option.splits)
  have "sigs_ok C e bhash sigs"
    using old by (auto simp: sigs_def sigs_ok_def split: option.splits)
  then have "sigs_ok C e bhash (hm_insert key sig sigs)"
    using assms(2,3) by (simp add: sigs_ok_def)
  then have new: "sigs_ok C e k s" if "hm_get M k = Some s" for k s
    using that old by (cases "k = bhash") (simp_all add: M_def)
  have "votes_ok C (e\<lparr>votes := hm_insert height M (votes e)\<rparr>)"
    unfolding votes_ok_def
  proof (intro allI impI)
    fix h m' k s
    assume "hm_get (votes (e\<lparr>votes := hm_insert height M (votes e)\<rparr>)) h = Some m'"
      and s: "hm_get m' k = Some s"
    then have "(if h = height then m' = M else hm_get (votes e) h = Some m')"
      by (simp split: if_splits)
    then have "sigs_ok C e k s"
      using s new assms(1) by (auto simp: engine_ok_def votes_ok_def split: if_splits)
    then show "sigs_ok C (e\<lparr>votes := hm_insert height M (votes e)\<rparr>) k s"
      by simp
  qed
  then show ?thesis
    using assms(1) by (simp add: store_vote_def Let_def m_def [symmetric] sigs_def [symmetric]
        M_def engine_ok_def replica_ok_def pool_ok_def members_ok_def round_ok_def)
qed

lemma engine_ok_cast_vote:
  assumes "engine_ok C e" and "own_key_ok C e" and "height = e_next_index e"
  shows "engine_ok C (snd (cast_vote C height bhash e))"
proof -
  have "engine_ok C (e\<lparr>voted := hm_insert height bhash (voted e)\<rparr>)"
    using assms(1,3) by (simp add: engine_ok_def replica_ok_def pool_ok_def members_ok_def
        round_ok_def votes_ok_def)
  moreover have "me e \<in> set (validators e)" "public_key_bytes C (e_identity e) = me e"
    using assms(1) by (auto simp: engine_ok_def members_ok_def)
  ultimately have "engine_ok C (store_vote height bhash (me e) (sign_nonce C (e_identity e) bhash)
      (e\<lparr>voted := hm_insert height bhash (voted e)\<rparr>))"
    using assms(2) verify_own [of C "e_identity e" bhash]
    by (intro engine_ok_store_vote) (simp_all add: own_key_ok_def)
  then show ?thesis
    using assms(1) by (simp add: cast_vote_def Let_def)
qed

lemma cast_vote_fields [simp]:
  "e_chain (snd (cast_vote C h k e)) = e_chain e" "validators (snd (cast_vote C h k e)) = validators e"
  "active (snd (cast_vote C h k e)) = active e" "me (snd (cast_vote C h k e)) = me e"
  "e_identity (snd (cast_vote C h k e)) = e_identity e"
  "proposals (snd (cast_vote C h k e)) = proposals e" "mempool (snd (cast_vote C h k e)) = mempool e"
  by (simp_all add: cast_vote_def store_vote_def Let_def)

text \<open>The tally consists of good signatures of distinct validators.\<close>

lemma tally_ok:
  assumes "engine_ok C e"
  shows "sigs_ok C e k (tally_of e h k)"
  using assms by (auto simp: tally_of_def engine_ok_def votes_ok_def sigs_ok_def
      split: option.splits bind_splits)

lemma sealed_certificate:
  assumes "sigs_ok C e (ob_hash b) sigs" and "unat (max (ob_quorum b) 1) \<le> length sigs"
  shows "verify_certificate C e
    (b\<lparr>ob_votes := map (\<lambda>(key, sig). \<lparr>voter = key, signature = sig\<rparr>) sigs\<rparr>)"
proof -
  define vs where "vs = map (\<lambda>(key, sig). \<lparr>voter = key, signature = sig\<rparr>) sigs"
  have ok: "hm_ok sigs"
    using assms(1) by (simp add: sigs_ok_def)
  have good: "voter v \<in> set (validators e) \<and> verify_sig C (voter v) (ob_hash b) (signature v)"
    if v: "v \<in> set vs" for v
  proof -
    obtain key sig where "(key, sig) \<in> set sigs" "v = \<lparr>voter = key, signature = sig\<rparr>"
      using v by (auto simp: vs_def)
    then show ?thesis
      using assms(1) hm.entries_get [OF ok, of key sig] by (simp add: sigs_ok_def)
  qed
  have "filter (\<lambda>v. voter v \<in> set (validators e) \<and> verify_sig C (voter v) (ob_hash b) (signature v)) vs
      = vs"
    using good by (simp add: filter_id_conv)
  moreover have "map voter vs = map fst sigs"
    by (simp add: vs_def case_prod_unfold)
  moreover have "length (remdups (map fst sigs)) = length sigs"
    using ok by (metis distinct_remdups_id length_map)
  ultimately show ?thesis
    using assms(2) by (simp add: verify_certificate_def Let_def vs_def [symmetric])
qed

lemma maybe_commit_cases:
  obtains (waiting) "maybe_commit C h k e = ([], e)"
  | (sealed) m b where "h = e_next_index e" and "hm_get (proposals e) h = Some m"
    and "hm_get m k = Some b" and "unat (max (ob_quorum b) 1) \<le> length (tally_of e h k)"
    and "maybe_commit C h k e =
      ([Committed (b\<lparr>ob_votes := map (\<lambda>(key, sig). \<lparr>voter = key, signature = sig\<rparr>) (tally_of e h k)\<rparr>)],
       append_and_apply C
         (b\<lparr>ob_votes := map (\<lambda>(key, sig). \<lparr>voter = key, signature = sig\<rparr>) (tally_of e h k)\<rparr>) e)"
proof -
  have "maybe_commit C h k e = ([], e) \<or> (\<exists>m b. h = e_next_index e \<and> hm_get (proposals e) h = Some m
    \<and> hm_get m k = Some b \<and> unat (max (ob_quorum b) 1) \<le> length (tally_of e h k)
    \<and> maybe_commit C h k e =
      ([Committed (b\<lparr>ob_votes := map (\<lambda>(key, sig). \<lparr>voter = key, signature = sig\<rparr>) (tally_of e h k)\<rparr>)],
       append_and_apply C
         (b\<lparr>ob_votes := map (\<lambda>(key, sig). \<lparr>voter = key, signature = sig\<rparr>) (tally_of e h k)\<rparr>) e))"
    by (auto simp: maybe_commit_def Let_def not_less split: option.split bind_splits)
  then show thesis
    using waiting sealed by blast
qed

lemma engine_ok_maybe_commit: "engine_ok C e \<Longrightarrow> engine_ok C (snd (maybe_commit C h k e))"
  by (cases rule: maybe_commit_cases [of C h k e]) (simp_all add: engine_ok_append)

lemma certified_maybe_commit:
  assumes "engine_ok C e" and "certified C e"
  shows "certified C (snd (maybe_commit C h k e))"
proof (cases rule: maybe_commit_cases [of C h k e])
  case waiting
  with assms show ?thesis by simp
next
  case (sealed m b)
  have "ob_hash b = k"
    using assms(1) sealed(2,3) by (auto simp: engine_ok_def round_ok_def proposal_ok_def)
  then show ?thesis
    using sealed(4,5) tally_ok [OF assms(1), of k h]
    by (simp add: certified_append [OF assms(2)] sealed_certificate)
qed

section \<open>Every event keeps the invariants\<close>

definition sound_engine :: "crypto \<Rightarrow> engine \<Rightarrow> bool" where
  "sound_engine C e \<longleftrightarrow> engine_ok C e \<and> own_key_ok C e"

lemma own_key_cong: "e_identity e' = e_identity e \<Longrightarrow> own_key_ok C e' = own_key_ok C e"
  by (simp add: own_key_ok_def)

lemma certified_cast_vote: "certified C e \<Longrightarrow> certified C (snd (cast_vote C h k e))"
  by (rule certified_mono) simp_all

lemma vote_and_commit_parts:
  "snd (vote_and_commit C h k e) = snd (maybe_commit C h k (snd (cast_vote C h k e)))"
  "fst (vote_and_commit C h k e)
     = fst (cast_vote C h k e) @ fst (maybe_commit C h k (snd (cast_vote C h k e)))"
  by (simp_all add: vote_and_commit_def case_prod_beta)

lemma vote_and_commit_keeps:
  assumes "sound_engine C e" and "h = e_next_index e"
  shows "engine_ok C (snd (vote_and_commit C h k e))"
    and "certified C e \<Longrightarrow> certified C (snd (vote_and_commit C h k e))"
proof -
  have ok: "engine_ok C (snd (cast_vote C h k e))"
    using assms by (simp add: engine_ok_cast_vote sound_engine_def)
  show "engine_ok C (snd (vote_and_commit C h k e))"
    using engine_ok_maybe_commit [OF ok] by (simp add: vote_and_commit_parts)
  show "certified C (snd (vote_and_commit C h k e))" if "certified C e"
    using certified_maybe_commit [OF ok certified_cast_vote [OF that]]
    by (simp add: vote_and_commit_parts)
qed

lemma add_validator_fields [simp]:
  "e_chain (add_validator key e) = e_chain e" "me (add_validator key e) = me e"
  "e_identity (add_validator key e) = e_identity e" "mempool (add_validator key e) = mempool e"
  "set (validators (add_validator key e)) = insert key (set (validators e))"
  "set (active (add_validator key e)) = insert key (set (active e))"
  "e_next_index (add_validator key e) = e_next_index e"
  "e_head_hash (add_validator key e) = e_head_hash e"
  "voted (add_validator key e) = voted e"
  by (simp_all add: add_validator_def set_insort_insert)

lemma sound_add_validator: "sound_engine C e \<Longrightarrow> sound_engine C (add_validator key e)"
  by (simp add: sound_engine_def engine_ok_add_validator own_key_ok_def)

lemma certified_add_validator: "certified C e \<Longrightarrow> certified C (add_validator key e)"
  by (erule certified_mono) auto

lemma store_proposal_fields [simp]:
  "e_chain (store_proposal b e) = e_chain e" "e_identity (store_proposal b e) = e_identity e"
  "validators (store_proposal b e) = validators e" "voted (store_proposal b e) = voted e"
  "e_next_index (store_proposal b e) = e_next_index e" "me (store_proposal b e) = me e"
  "e_head_hash (store_proposal b e) = e_head_hash e" "active (store_proposal b e) = active e"
  by (simp_all add: store_proposal_def Let_def)

lemma propose_keeps:
  assumes "sound_engine C e" and "proposal_ok C e (ob_hash b) b"
  shows "engine_ok C (snd (vote_and_commit C (ob_index b) (ob_hash b) (store_proposal b e)))"
    and "certified C e \<Longrightarrow>
      certified C (snd (vote_and_commit C (ob_index b) (ob_hash b) (store_proposal b e)))"
proof -
  have sound: "sound_engine C (store_proposal b e)"
    using assms by (simp add: sound_engine_def engine_ok_store_proposal own_key_ok_def)
  have h: "ob_index b = e_next_index (store_proposal b e)"
    using assms(2) by (simp add: proposal_ok_def)
  show "engine_ok C (snd (vote_and_commit C (ob_index b) (ob_hash b) (store_proposal b e)))"
    by (rule vote_and_commit_keeps(1) [OF sound h])
  have "certified C e \<Longrightarrow> certified C (store_proposal b e)"
    by (erule certified_mono) simp_all
  then show "certified C e \<Longrightarrow>
      certified C (snd (vote_and_commit C (ob_index b) (ob_hash b) (store_proposal b e)))"
    using vote_and_commit_keeps(2) [OF sound h] by blast
qed

lemma on_propose_keeps:
  assumes "sound_engine C e"
  shows "engine_ok C (snd (on_propose C b e))"
    and "certified C e \<Longrightarrow> certified C (snd (on_propose C b e))"
proof -
  let ?e = "add_validator (ob_proposer b) e"
  have "snd (on_propose C b e) = ?e \<or> proposal_ok C ?e (ob_hash b) b \<and>
      snd (on_propose C b e) = snd (vote_and_commit C (ob_index b) (ob_hash b) (store_proposal b ?e))"
    by (simp add: on_propose_def Let_def proposal_ok_def)
  then show "engine_ok C (snd (on_propose C b e))"
    and "certified C e \<Longrightarrow> certified C (snd (on_propose C b e))"
    using propose_keeps [OF sound_add_validator [OF assms]] sound_add_validator [OF assms]
      certified_add_validator [of C e] unfolding sound_engine_def by metis+
qed

lemma try_propose_keeps:
  assumes "sound_engine C e"
  shows "engine_ok C (snd (try_propose C e))"
    and "certified C e \<Longrightarrow> certified C (snd (try_propose C e))"
proof -
  let ?b = "op_block_proposed C (e_next_index e) (e_head_hash e) (me e) (mempool e) (e_quorum e)"
  have b: "ob_index ?b = e_next_index e" "proposal_ok C e (ob_hash ?b) ?b"
    by (simp_all add: proposal_ok_def op_block_proposed_def)
  have "snd (try_propose C e) = e \<or> snd (try_propose C e)
      = snd (vote_and_commit C (ob_index ?b) (ob_hash ?b) (store_proposal ?b e))"
    by (simp add: try_propose_def Let_def b(1) split: prod.split)
  then show "engine_ok C (snd (try_propose C e))"
    and "certified C e \<Longrightarrow> certified C (snd (try_propose C e))"
    using propose_keeps [OF assms b(2)] assms unfolding sound_engine_def by metis+
qed

lemma on_vote_keeps:
  assumes "sound_engine C e"
  shows "engine_ok C (snd (on_vote C h k key sig e))"
    and "certified C e \<Longrightarrow> certified C (snd (on_vote C h k key sig e))"
proof -
  let ?e = "add_validator key e"
  have ok: "engine_ok C ?e"
    using assms by (simp add: sound_engine_def engine_ok_add_validator)
  have stored: "engine_ok C (store_vote h k key sig ?e)" if "verify_sig C key k sig"
    using ok that by (intro engine_ok_store_vote) simp_all
  have cert: "certified C e \<Longrightarrow> certified C (store_vote h k key sig ?e)"
    by (erule certified_mono) (auto simp: store_vote_def Let_def)
  show "engine_ok C (snd (on_vote C h k key sig e))"
    using ok stored engine_ok_maybe_commit by (simp add: on_vote_def Let_def)
  show "certified C (snd (on_vote C h k key sig e))" if "certified C e"
    using that stored cert certified_add_validator certified_maybe_commit
    by (simp add: on_vote_def Let_def)
qed

lemma on_committed_keeps:
  assumes "engine_ok C e"
  shows "engine_ok C (snd (on_committed C b e))"
    and "certified C e \<Longrightarrow> certified C (snd (on_committed C b e))"
  using assms by (simp_all add: on_committed_def Let_def engine_ok_add_validator engine_ok_append
      certified_add_validator certified_append)

lemma link_blocks_keeps:
  "engine_ok C e \<Longrightarrow> engine_ok C (snd (link_blocks C bs flag e))"
  "certified C e \<Longrightarrow> certified C (snd (link_blocks C bs flag e))"
proof (induction bs arbitrary: flag e)
  case (Cons b bs)
  { case 1
    then show ?case
      using Cons.IH(1) by (simp add: engine_ok_append) }
  { case 2
    have "ob_index b = 0 \<Longrightarrow> verify_certificate C e b"
      by (simp add: verify_certificate_def)
    then show ?case
      using Cons.IH(2) 2 by (auto simp: certified_append) }
qed simp_all

lemma apply_sync_blocks_keeps:
  assumes "engine_ok C e"
  shows "engine_ok C (snd (apply_sync_blocks C bs e))"
    and "certified C e \<Longrightarrow> certified C (snd (apply_sync_blocks C bs e))"
  using engine_ok_adopt [OF assms] certified_adopt [of C e] link_blocks_keeps [of C e] assms
  by (simp_all add: apply_sync_blocks_def Let_def split: prod.split) (metis snd_conv)+

lemma on_message_keeps:
  assumes "sound_engine C e"
  shows "engine_ok C (snd (on_message C msg e))"
    and "certified C e \<Longrightarrow> certified C (snd (on_message C msg e))"
proof -
  have ok: "engine_ok C e"
    using assms by (simp add: sound_engine_def)
  have pool: "certified C e \<Longrightarrow> certified C (snd (add_to_mempool op e))" for op
    by (erule certified_mono) (simp_all add: add_to_mempool_def)
  show "engine_ok C (snd (on_message C msg e))"
    by (cases msg) (simp_all add: assms ok engine_ok_add_to_mempool on_propose_keeps on_vote_keeps
        on_committed_keeps apply_sync_blocks_keeps Let_def)
  show "certified C (snd (on_message C msg e))" if "certified C e"
    using that by (cases msg) (simp_all add: assms ok pool on_propose_keeps on_vote_keeps
        on_committed_keeps apply_sync_blocks_keeps Let_def)
qed

end
