(* ===== verification/Transitions.thy ===== *)
theory Transitions
  imports Main
begin

text \<open>
  Runs of a component: what follows for a whole sequence of events from what is proved for one.
  A component has a step, which may end the run (the value None), and a run over a list of
  events; the engine and the node are its instances.
\<close>

locale transition_runs =
  fixes step :: "'ev \<Rightarrow> 's \<Rightarrow> 's option" and run :: "'ev list \<Rightarrow> 's \<Rightarrow> 's option"
  assumes run_Nil: "run [] s = Some s"
    and run_Cons: "run (ev # evs) s = Option.bind (step ev s) (run evs)"
begin

lemma run_append: "run (evs @ evs') s = Option.bind (run evs s) (run evs')"
proof (induction evs arbitrary: s)
  case (Cons ev evs)
  then show ?case
    by (cases "step ev s") (simp_all add: run_Cons)
qed (simp add: run_Nil)

text \<open>An invariant that every step with an admissible event keeps holds after every run of such
  events.\<close>

lemma run_keeps:
  assumes "run evs s = Some s'" and "list_all allowed evs" and "ok_state s"
    and step: "\<And>ev s s'. allowed ev \<Longrightarrow> ok_state s \<Longrightarrow> step ev s = Some s' \<Longrightarrow> ok_state s'"
  shows "ok_state s'"
  using assms(1-3)
proof (induction evs arbitrary: s)
  case (Cons ev evs)
  obtain t where "step ev s = Some t" "run evs t = Some s'"
    using Cons.prems(1) by (auto simp: run_Cons bind_eq_Some_conv)
  with Cons step show ?case
    by auto
qed (simp add: run_Nil)

lemma run_keeps_always:
  assumes "run evs s = Some s'" and "ok_state s"
    and "\<And>ev s s'. ok_state s \<Longrightarrow> step ev s = Some s' \<Longrightarrow> ok_state s'"
  shows "ok_state s'"
  using assms(1) _ assms(2)
proof (rule run_keeps)
  show "list_all (\<lambda>ev. True) evs"
    by (simp add: list_all_iff)
qed (rule assms(3))

text \<open>A reflexive and transitive relation between the states before and after every step relates
  the ends of every run.\<close>

lemma run_relates:
  assumes "run evs s = Some s'" and "\<And>s. rel s s"
    and "\<And>s t u. rel s t \<Longrightarrow> rel t u \<Longrightarrow> rel s u"
    and "\<And>ev s t. step ev s = Some t \<Longrightarrow> rel s t"
  shows "rel s s'"
  using assms(1)
proof (rule run_keeps_always [where ok_state = "rel s"])
  show "rel s s"
    by (rule assms(2))
next
  fix ev t t'
  assume "rel s t" and "step ev t = Some t'"
  then show "rel s t'"
    using assms(3,4) by blast
qed

end

end
