(* ===== verification/Runs.thy ===== *)
theory Runs
  imports Engine Transitions
begin

text \<open>
  Whole runs of a consensus engine under arbitrary events: the invariants of every reachable
  engine, one vote per height, chains that never get shorter, rotation of the proposers, the
  overlap of quorums and agreement, catching up with a peer, progress of a lone node; and the
  ways in which the certificates of the source promise less than its comments say.
\<close>

section \<open>Invariants of every run\<close>

lemma submit_local_op_parts:
  "snd (submit_local_op op e) = snd (add_to_mempool op e)"
  "fst (submit_local_op op e) = (if fst (add_to_mempool op e) then [OpMsg op] else [])"
  by (simp_all add: submit_local_op_def case_prod_beta)

lemma engine_step_keeps:
  assumes "sound_engine C e"
  shows "engine_ok C (snd (engine_step C ev e))"
    and "certified C e \<Longrightarrow> certified C (snd (engine_step C ev e))"
proof -
  have ok: "engine_ok C e"
    using assms by (simp add: sound_engine_def)
  show "engine_ok C (snd (engine_step C ev e))"
    by (cases ev) (simp_all add: submit_local_op_parts on_message_keeps [OF assms]
        try_propose_keeps [OF assms] engine_ok_add_to_mempool ok engine_ok_add_validator
        engine_ok_mark_inactive)
  assume cert: "certified C e"
  have "certified C (snd (add_to_mempool op e))" for op
    using cert by (rule certified_mono) (simp_all add: add_to_mempool_def)
  moreover have "certified C (mark_inactive key e)" for key
    using cert by (rule certified_mono) (simp_all add: mark_inactive_def)
  ultimately show "certified C (snd (engine_step C ev e))"
    using cert by (cases ev) (simp_all add: submit_local_op_parts on_message_keeps [OF assms]
        try_propose_keeps [OF assms] certified_add_validator)
qed

subsection \<open>The identity of an engine\<close>

lemma add_to_mempool_identity [simp]:
  "e_identity (snd (add_to_mempool op e)) = e_identity e" "me (snd (add_to_mempool op e)) = me e"
  by (simp_all add: add_to_mempool_def)

lemma maybe_commit_identity [simp]:
  "e_identity (snd (maybe_commit C h k e)) = e_identity e" "me (snd (maybe_commit C h k e)) = me e"
  by (cases rule: maybe_commit_cases [of C h k e]; simp)+

lemma vote_and_commit_identity [simp]:
  "e_identity (snd (vote_and_commit C h k e)) = e_identity e" "me (snd (vote_and_commit C h k e)) = me e"
  by (simp_all add: vote_and_commit_parts)

lemma adopt_identity [simp]:
  "e_identity (snd (try_adopt_chain C bs e)) = e_identity e" "me (snd (try_adopt_chain C bs e)) = me e"
  by (simp_all add: try_adopt_chain_def Let_def)

lemma link_blocks_identity [simp]:
  "e_identity (snd (link_blocks C bs flag e)) = e_identity e" "me (snd (link_blocks C bs flag e)) = me e"
  by (induction bs arbitrary: flag e) simp_all

lemma apply_sync_parts:
  "snd (apply_sync_blocks C bs e) =
     (if sort_key ob_index bs \<noteq> [] \<and> ob_index (hd (sort_key ob_index bs)) = 0
      then snd (try_adopt_chain C (sort_key ob_index bs) e)
      else snd (link_blocks C (sort_key ob_index bs) False e))"
  by (simp add: apply_sync_blocks_def Let_def case_prod_beta)

lemma on_propose_snd:
  "snd (on_propose C b e) = add_validator (ob_proposer b) e \<or>
   ob_index b = e_next_index e \<and>
   snd (on_propose C b e)
     = snd (vote_and_commit C (ob_index b) (ob_hash b) (store_proposal b (add_validator (ob_proposer b) e)))"
  by (simp add: on_propose_def Let_def)

lemma try_propose_parts:
  "try_propose C e = ([], e) \<or> (\<exists>b. ob_index b = e_next_index e \<and> try_propose C e =
     (Propose b # fst (vote_and_commit C (ob_index b) (ob_hash b) (store_proposal b e)),
      snd (vote_and_commit C (ob_index b) (ob_hash b) (store_proposal b e))))"
  by (auto simp: try_propose_def Let_def case_prod_beta op_block_proposed_def)

lemma engine_step_identity:
  "e_identity (snd (engine_step C ev e)) = e_identity e \<and> me (snd (engine_step C ev e)) = me e"
proof (cases ev)
  case (Receive msg)
  have propose: "e_identity (snd (on_propose C b e)) = e_identity e \<and> me (snd (on_propose C b e)) = me e"
    for b
    using on_propose_snd [of C b e] by auto
  have sync: "e_identity (snd (apply_sync_blocks C bs e)) = e_identity e
      \<and> me (snd (apply_sync_blocks C bs e)) = me e" for bs
    by (simp add: apply_sync_parts)
  show ?thesis
    unfolding Receive
    by (cases msg) (simp_all add: propose sync on_vote_def on_committed_def store_vote_def Let_def)
next
  case TryPropose
  then show ?thesis
    using try_propose_parts [of C e] by auto
qed (simp_all add: submit_local_op_parts mark_inactive_def)

lemma sound_step: "sound_engine C e \<Longrightarrow> sound_engine C (snd (engine_step C ev e))"
  using engine_step_keeps(1) [of C e ev] engine_step_identity [of C ev e]
  by (simp add: sound_engine_def own_key_ok_def)

lemma engine_run_parts:
  "snd (engine_run C (ev # evs) e) = snd (engine_run C evs (snd (engine_step C ev e)))"
  "fst (engine_run C (ev # evs) e)
     = fst (engine_step C ev e) @ fst (engine_run C evs (snd (engine_step C ev e)))"
  by (simp_all add: case_prod_beta)

declare engine_run.simps(2) [simp del]

interpretation engine_runs: transition_runs "\<lambda>ev e. Some (snd (engine_step C ev e))"
    "\<lambda>evs e. Some (snd (engine_run C evs e))" for C
  by unfold_locales (simp_all add: engine_run_parts)

lemma sound_run: "sound_engine C e \<Longrightarrow> sound_engine C (snd (engine_run C evs e))"
  by (rule engine_runs.run_keeps_always [OF refl]) (auto simp: sound_step)

lemma certified_run:
  "sound_engine C e \<Longrightarrow> certified C e \<Longrightarrow> certified C (snd (engine_run C evs e))"
  by (rule engine_runs.run_keeps_always [OF refl,
        where ok_state = "\<lambda>e. sound_engine C e \<and> certified C e", THEN conjunct2])
    (auto simp: sound_step engine_step_keeps)

subsection \<open>New and restored engines\<close>

lemma fold_insort_set:
  "set (fold insort_insert xs ys) = set xs \<union> set ys"
  "sorted ys \<Longrightarrow> sorted (fold insort_insert xs ys)"
  "distinct ys \<Longrightarrow> distinct (fold insort_insert xs ys)"
  by (induction xs arbitrary: ys)
    (auto simp: set_insort_insert sorted_insort_insert distinct_insort_insert)

lemma engine_ok_new: "engine_ok C (engine_new C i vs)"
  using fold_insort_set [where xs = vs and ys = "[]"]
  by (simp add: engine_ok_def engine_new_def Let_def chain_linked_def replica_ok_def pool_ok_def
      members_ok_def round_ok_def votes_ok_def op_genesis_def usize_of_def fresh_state_replay
      set_insort_insert sorted_insort_insert distinct_insort_insert)

lemma certified_new: "certified C (engine_new C i vs)"
  by (simp add: certified_def engine_new_def Let_def verify_certificate_def op_genesis_def)

lemma sound_new:
  "signatures_ok C \<Longrightarrow> length (signing_key i) = 32 \<Longrightarrow> sound_engine C (engine_new C i vs)"
  by (simp add: sound_engine_def engine_ok_new own_key_ok_def) (simp add: engine_new_def Let_def)

lemma restore_keeps: "sound_engine C e \<Longrightarrow> sound_engine C (restore_chain C bs e)"
  by (induction bs arbitrary: e)
    (simp_all add: sound_engine_def engine_ok_append engine_ok_note_members own_key_ok_def)

text \<open>C1: whatever messages a node receives, in whatever order, forged ones included, and
  whatever its driver does: its chain stays linked from the genesis block and indexed in order,
  its replica is exactly the replay of the operations of the chain, its pool holds no duplicate
  and no committed operation, it stays one of its active validators, all votes it has stored
  carry valid signatures of known validators, and every block of its chain has a certificate
  that verifies. This holds from a fresh start and, but for the certificates, from a restored
  chain.\<close>

theorem engine_always_sound:
  assumes "signatures_ok C" and "length (signing_key i) = 32"
  shows "engine_ok C (snd (engine_run C evs (restore_chain C bs (engine_new C i vs))))
    \<and> certified C (snd (engine_run C evs (engine_new C i vs)))"
  using sound_run [OF restore_keeps [OF sound_new [OF assms]]]
    certified_run [OF sound_new [OF assms] certified_new]
  by (simp add: sound_engine_def)

definition demo_op :: ledger_op where
  "demo_op = RegisterParticipant 1 ''ann'' (demo_key 1) 10"

definition demo_events :: "engine_event list" where
  "demo_events = [SubmitLocal demo_op, TryPropose, Receive (OpMsg (Tick 1)), TryPropose]"

definition demo_engine :: engine where
  "demo_engine = engine_new toy_crypto demo_identity []"

lemma demo_key_ok: "length (signing_key demo_identity) = 32"
  by (simp add: demo_identity_def)

theorem engine_always_sound_witness:
  "length (e_chain (snd (engine_run toy_crypto demo_events demo_engine))) = 3
   \<and> engine_ok toy_crypto (snd (engine_run toy_crypto demo_events (restore_chain toy_crypto [] demo_engine)))
   \<and> certified toy_crypto (snd (engine_run toy_crypto demo_events demo_engine))"
proof
  show "length (e_chain (snd (engine_run toy_crypto demo_events demo_engine))) = 3"
    by code_simp
  show "engine_ok toy_crypto (snd (engine_run toy_crypto demo_events (restore_chain toy_crypto [] demo_engine)))
     \<and> certified toy_crypto (snd (engine_run toy_crypto demo_events demo_engine))"
    unfolding demo_engine_def by (rule engine_always_sound [OF toy_signatures_ok demo_key_ok])
qed


definition demo_block :: op_block where
  "demo_block = last (e_chain (snd (engine_run toy_crypto (take 2 demo_events) demo_engine)))"

definition other_identity :: identity where
  "other_identity = \<lparr>signing_key = replicate 32 3, encryption_secret = replicate 32 4\<rparr>"


section \<open>One vote per height\<close>

definition vote_heights :: "consensus_msg list \<Rightarrow> u64 list" where
  "vote_heights out = List.map_filter (\<lambda>m. case m of Vote h k v s \<Rightarrow> Some h | _ \<Rightarrow> None) out"

lemma vote_heights_simps [simp]:
  "vote_heights [] = []"
  "vote_heights (m # out) = (case m of Vote h k v s \<Rightarrow> h # vote_heights out | _ \<Rightarrow> vote_heights out)"
  "vote_heights (out @ out') = vote_heights out @ vote_heights out'"
  by (simp_all add: vote_heights_def List.map_filter_def split: consensus_msg.split)

text \<open>The heights an engine can no longer vote at: those of its chain, and the next one once it
  has voted there.\<close>

definition spent :: "engine \<Rightarrow> nat" where
  "spent e = length (e_chain e) + (if hm_has (voted e) (e_next_index e) then 1 else 0)"

definition votes_once :: "engine \<Rightarrow> consensus_msg list \<times> engine \<Rightarrow> bool" where
  "votes_once e res \<longleftrightarrow> spent e \<le> spent (snd res) \<and> (vote_heights (fst res) = [] \<or>
     (vote_heights (fst res) = [usize_of (spent e)] \<and> spent e < spent (snd res)))"

lemma votes_once_silent:
  "vote_heights out = [] \<Longrightarrow> spent e \<le> spent e' \<Longrightarrow> votes_once e (out, e')"
  by (simp add: votes_once_def)

lemma spent_longer: "length (e_chain e) < length (e_chain e') \<Longrightarrow> spent e \<le> spent e'"
  by (simp add: spent_def)

lemma spent_same:
  "e_chain e' = e_chain e \<Longrightarrow> voted e' = voted e \<Longrightarrow> spent e' = spent e"
  by (simp add: spent_def e_next_index_def)

lemma spent_append: "spent e \<le> spent (append_and_apply C b e)"
  by (cases "ob_index b = e_next_index e \<and> ob_prev b = e_head_hash e")
    (simp_all add: append_and_apply_unfit append_and_apply_fits spent_longer)

lemma spent_maybe_commit:
  "spent e \<le> spent (snd (maybe_commit C h k e)) \<and> vote_heights (fst (maybe_commit C h k e)) = []"
  by (cases rule: maybe_commit_cases [of C h k e]) (simp_all add: spent_append)

lemma votes_once_cast:
  assumes "h = e_next_index e"
  shows "votes_once e (cast_vote C h k e)"
proof (cases "hm_has (voted e) h")
  case True
  then show ?thesis
    by (simp add: cast_vote_def votes_once_def)
next
  case False
  then have "spent e = length (e_chain e)"
    using assms by (simp add: spent_def)
  moreover have "spent (snd (cast_vote C h k e)) = length (e_chain e) + 1"
    using assms False by (simp add: spent_def cast_vote_def store_vote_def Let_def)
  moreover have "vote_heights (fst (cast_vote C h k e)) = [h]"
    using False by (simp add: cast_vote_def Let_def)
  ultimately show ?thesis
    using assms by (simp add: votes_once_def e_next_index_def)
qed

lemma votes_once_vote_and_commit:
  assumes "h = e_next_index e"
  shows "votes_once e (vote_and_commit C h k e)"
  using votes_once_cast [OF assms, of C k] spent_maybe_commit [of "snd (cast_vote C h k e)" C h k]
  by (auto simp: votes_once_def vote_and_commit_parts)

lemma votes_once_propose:
  assumes "ob_index b = e_next_index e"
  shows "votes_once e (Propose b # fst (vote_and_commit C (ob_index b) (ob_hash b) (store_proposal b e)),
      snd (vote_and_commit C (ob_index b) (ob_hash b) (store_proposal b e)))"
    and "votes_once e (vote_and_commit C (ob_index b) (ob_hash b) (store_proposal b e))"
  using votes_once_vote_and_commit [of "ob_index b" "store_proposal b e" C "ob_hash b"] assms
    spent_same [of "store_proposal b e" e]
  by (simp_all add: votes_once_def)

lemma spent_add_validator [simp]: "spent (add_validator key e) = spent e"
  by (rule spent_same) simp_all

lemma spent_note_all [simp]: "spent (fold note_members bs e) = spent e"
proof (rule spent_same)
  have voters: "voted (fold (\<lambda>v. note_validator (voter v)) vs e) = voted e" for vs e
    by (induction vs arbitrary: e) (simp_all add: note_validator_def)
  have "voted (note_members b e) = voted e" for b e
    by (simp add: note_members_def voters note_validator_def)
  then show "voted (fold note_members bs e) = voted e"
    by (induction bs arbitrary: e) simp_all
qed simp

lemma spent_adopt: "spent e \<le> spent (snd (try_adopt_chain C bs e))"
proof -
  have "length (e_chain e) < length bs \<Longrightarrow> spent e \<le> spent (snd (True, (fold note_members bs e)
      \<lparr>e_state := n, e_chain := bs, mempool := m, proposals := [], votes := [], voted := []\<rparr>))" for n m
    by (simp add: spent_longer)
  then show ?thesis
    by (simp add: try_adopt_chain_def Let_def not_le)
qed

lemma spent_link_blocks: "spent e \<le> spent (snd (link_blocks C bs flag e))"
proof (induction bs arbitrary: flag e)
  case (Cons b bs)
  show ?case
    using Cons.IH [of e] order_trans [OF spent_append Cons.IH] by simp
qed simp

lemma spent_apply_sync: "spent e \<le> spent (snd (apply_sync_blocks C bs e))"
  by (simp add: apply_sync_parts spent_adopt spent_link_blocks)

lemma no_votes_sync: "vote_heights (fst (apply_sync_blocks C bs e)) = []"
  by (simp add: apply_sync_blocks_def Let_def case_prod_beta)

lemma votes_once_on_propose: "votes_once e (on_propose C b e)"
proof -
  let ?e = "add_validator (ob_proposer b) e"
  have "on_propose C b e = vote_and_commit C (ob_index b) (ob_hash b) (store_proposal b ?e)
      \<and> ob_index b = e_next_index ?e
    \<or> vote_heights (fst (on_propose C b e)) = [] \<and> snd (on_propose C b e) = ?e"
    by (simp add: on_propose_def Let_def)
  then show ?thesis
    using votes_once_propose(2) [of b ?e C] by (auto simp: votes_once_def)
qed

lemma votes_once_step: "votes_once e (engine_step C ev e)"
proof (cases ev)
  case (Receive msg)
  show ?thesis
  proof (cases msg)
    case (Vote h k key sig)
    have "spent (store_vote h k key sig (add_validator key e)) = spent e"
      by (rule spent_same) (simp_all add: store_vote_def Let_def)
    then show ?thesis
      using spent_maybe_commit [of "store_vote h k key sig (add_validator key e)" C h k]
      by (simp add: Receive Vote on_vote_def Let_def votes_once_def)
  next
    case (Committed b)
    show ?thesis
      using spent_append [of "add_validator (ob_proposer b) e" C b]
      by (simp add: Receive Committed on_committed_def Let_def votes_once_def)
  next
    case (OpMsg op)
    show ?thesis
      by (simp add: Receive OpMsg votes_once_def add_to_mempool_def spent_def)
  next
    case (SyncResponse bs)
    then show ?thesis
      by (simp add: Receive votes_once_def spent_apply_sync no_votes_sync)
  qed (simp_all add: Receive votes_once_on_propose, simp add: votes_once_def Let_def)
next
  case (SubmitLocal op)
  then show ?thesis
    by (simp add: votes_once_def submit_local_op_parts) (simp add: add_to_mempool_def spent_def)
next
  case TryPropose
  consider "try_propose C e = ([], e)" | b where "ob_index b = e_next_index e" "try_propose C e =
     (Propose b # fst (vote_and_commit C (ob_index b) (ob_hash b) (store_proposal b e)),
      snd (vote_and_commit C (ob_index b) (ob_hash b) (store_proposal b e)))"
    using try_propose_parts [of C e] by blast
  then show ?thesis
  proof cases
    case 1
    then show ?thesis
      by (simp add: TryPropose votes_once_def)
  next
    case (2 b)
    show ?thesis
      unfolding TryPropose engine_step.simps 2(2) by (rule votes_once_propose(1) [OF 2(1)])
  qed
qed (simp_all add: votes_once_def mark_inactive_def spent_def e_next_index_def)

text \<open>The heights of a run's votes, as natural numbers, strictly increase.\<close>

lemma run_vote_heights:
  "\<exists>hs. vote_heights (fst (engine_run C evs e)) = map usize_of hs \<and> sorted_wrt (<) hs
     \<and> (\<forall>h\<in>set hs. spent e \<le> h \<and> h < spent (snd (engine_run C evs e)))
     \<and> spent e \<le> spent (snd (engine_run C evs e))"
proof (induction evs arbitrary: e)
  case (Cons ev evs)
  define e' where "e' = snd (engine_step C ev e)"
  obtain hs where hs: "vote_heights (fst (engine_run C evs e')) = map usize_of hs" "sorted_wrt (<) hs"
    "\<forall>h\<in>set hs. spent e' \<le> h \<and> h < spent (snd (engine_run C evs e'))"
    "spent e' \<le> spent (snd (engine_run C evs e'))"
    using Cons.IH [of e'] by blast
  have step: "spent e \<le> spent e'"
    "vote_heights (fst (engine_step C ev e)) = [] \<or>
     vote_heights (fst (engine_step C ev e)) = [usize_of (spent e)] \<and> spent e < spent e'"
    using votes_once_step [of e C ev] by (auto simp: votes_once_def e'_def)
  show ?case
  proof (cases "vote_heights (fst (engine_step C ev e)) = []")
    case True
    then show ?thesis
      using hs step(1) by (intro exI [of _ hs]) (auto simp: engine_run_parts e'_def [symmetric])
  next
    case False
    then have "vote_heights (fst (engine_step C ev e)) = [usize_of (spent e)]" "spent e < spent e'"
      using step(2) by auto
    then show ?thesis
      using hs by (intro exI [of _ "spent e # hs"])
        (auto simp: engine_run_parts e'_def [symmetric] intro: order_less_le_trans)
  qed
qed (simp add: exI [of _ "[]"])

lemma usize_of_inj: "a < 2 ^ 64 \<Longrightarrow> b < 2 ^ 64 \<Longrightarrow> usize_of a = usize_of b \<longleftrightarrow> a = b"
  unfolding usize_of_def by (metis unat_word_of_nat)

lemma spent_le: "spent e \<le> length (e_chain e) + 1"
  by (simp add: spent_def)

lemma run_votes_distinct:
  assumes "length (e_chain (snd (engine_run C evs e))) < 2 ^ 64"
  shows "distinct (vote_heights (fst (engine_run C evs e)))"
proof -
  obtain hs where hs: "vote_heights (fst (engine_run C evs e)) = map usize_of hs" "sorted_wrt (<) hs"
    "\<forall>h\<in>set hs. h < spent (snd (engine_run C evs e))"
    using run_vote_heights [of C evs e] by blast
  have "h < 2 ^ 64" if "h \<in> set hs" for h
    using hs(3) that spent_le [of "snd (engine_run C evs e)"] assms by fastforce
  then have "inj_on usize_of (set hs)"
    by (simp add: inj_on_def usize_of_inj)
  then show ?thesis
    using hs(1,2) by (simp add: distinct_map strict_sorted_iff)
qed

text \<open>C5: a node never signs two blocks at the same height: over any run of events, reorganisations
  included, the votes the engine originates are for pairwise different heights.\<close>

theorem never_votes_twice:
  assumes "length (e_chain (snd (engine_run C evs (engine_new C i vs)))) < 2 ^ 64"
  shows "distinct (vote_heights (fst (engine_run C evs (engine_new C i vs))))"
  using assms by (rule run_votes_distinct)

theorem never_votes_twice_witness:
  "vote_heights (fst (engine_run toy_crypto demo_events demo_engine)) = [1, 2]
   \<and> distinct (vote_heights (fst (engine_run toy_crypto demo_events demo_engine)))"
proof
  show "vote_heights (fst (engine_run toy_crypto demo_events demo_engine)) = [1, 2]"
    by code_simp
  have "length (e_chain (snd (engine_run toy_crypto demo_events demo_engine))) = 3"
    by code_simp
  then show "distinct (vote_heights (fst (engine_run toy_crypto demo_events demo_engine)))"
    unfolding demo_engine_def by (intro never_votes_twice) simp
qed

section \<open>Quorums and agreement\<close>

lemma unat_quorum_for:
  assumes "n < 2 ^ 63"
  shows "unat (quorum_for (usize_of n)) = 2 * n div 3 + 1"
proof -
  have small: "n < 9223372036854775808"
    using assms by simp
  have n: "unat (usize_of n) = n"
    unfolding usize_of_def by (rule unat_word_of_nat) (use small in simp)
  have "unat (usize_of n + usize_of n) = n + n"
    using small by (subst unat_add_no_wrap) (simp_all add: n)
  then have two: "unat (2 * usize_of n) = 2 * n"
    by (simp only: mult_2)
  have "unat (2 * usize_of n div 3) = 2 * n div 3"
    unfolding unat_div two by simp
  moreover have "2 * n div 3 + 1 < 18446744073709551616"
    using small by linarith
  ultimately show ?thesis
    unfolding quorum_for_def by (subst unat_add_no_wrap) simp_all
qed

lemma quorum_overlap:
  assumes "n < 2 ^ 63" and "3 * f < n"
  shows "unat (quorum_for (usize_of n)) \<le> n - f" and "n + f < 2 * unat (quorum_for (usize_of n))"
proof -
  define q where "q = 2 * n div 3"
  have "3 * q \<le> 2 * n" "2 * n \<le> 3 * q + 2"
    unfolding q_def by presburger+
  then have "q + 1 \<le> n - f" and "n + f < 2 * (q + 1)"
    using assms(2) by presburger+
  then show "unat (quorum_for (usize_of n)) \<le> n - f" and "n + f < 2 * unat (quorum_for (usize_of n))"
    by (simp_all only: unat_quorum_for [OF assms(1)] q_def)
qed

text \<open>The quorum floor(2n/3) + 1 is the Byzantine one: with fewer than a third of faulty
  validators the honest ones alone can reach it, and two quorums share more than a third of the
  validators, hence an honest one.\<close>

theorem quorum_bft:
  assumes "n < 2 ^ 63" and "3 * f < n"
  shows "unat (quorum_for (usize_of n)) \<le> n - f
    \<and> n + f < 2 * unat (quorum_for (usize_of n))"
  using quorum_overlap [OF assms] by simp

theorem quorum_bft_witness: "unat (quorum_for (usize_of 7)) \<le> 7 - 2 \<and> 7 + 2 < 2 * unat (quorum_for (usize_of 7))"
  by (rule quorum_bft) simp_all

lemma quorums_share_honest:
  assumes "finite V" and "S \<subseteq> V" and "T \<subseteq> V" and "B \<subseteq> V"
    and "card V + card B < card S + card T"
  shows "\<exists>v. v \<in> S \<and> v \<in> T \<and> v \<notin> B"
proof (rule ccontr)
  assume "\<not> ?thesis"
  then have "S \<inter> T \<subseteq> B"
    by blast
  then have "card (S \<inter> T) \<le> card B"
    using assms(1,4) by (intro card_mono) (auto intro: finite_subset)
  moreover have "card S + card T = card (S \<union> T) + card (S \<inter> T)"
    using assms(1-3) by (intro card_Un_Int) (auto intro: finite_subset)
  moreover have "card (S \<union> T) \<le> card V"
    using assms(1-3) by (intro card_mono) auto
  ultimately show False
    using assms(5) by linarith
qed

text \<open>What a run tells the world: a vote of the engine for a block hash at a height.\<close>

fun is_vote_for :: "u64 \<Rightarrow> bytes32 \<Rightarrow> consensus_msg \<Rightarrow> bool" where
  "is_vote_for h k (Vote h' k' v s) = (h' = h \<and> k' = k)"
| "is_vote_for h k _ = False"

definition voted_for :: "crypto \<Rightarrow> identity \<Rightarrow> node_key list \<Rightarrow> engine_event list \<Rightarrow> u64 \<Rightarrow> bytes32 \<Rightarrow> bool" where
  "voted_for C i vs evs h k \<longleftrightarrow>
     list_ex (is_vote_for h k) (fst (engine_run C evs (engine_new C i vs)))"

lemma is_vote_for_iff: "is_vote_for h k m \<longleftrightarrow> (\<exists>v s. m = Vote h k v s)"
  by (cases m) auto

lemma vote_heights_member: "Vote h k v s \<in> set out \<Longrightarrow> h \<in> set (vote_heights out)"
  by (induction out) (auto split: consensus_msg.splits)

lemma vote_heights_unique:
  assumes "distinct (vote_heights out)" and "Vote h k v s \<in> set out" and "Vote h k' v' s' \<in> set out"
  shows "k = k'"
  using assms
proof (induction out)
  case (Cons m out)
  show ?case
  proof (cases "\<exists>k v s. m = Vote h k v s")
    case True
    then have "h \<notin> set (vote_heights out)"
      using Cons.prems(1) by auto
    then have "Vote h j u r \<notin> set out" for j u r
      using vote_heights_member by blast
    then show ?thesis
      using Cons.prems(2,3) by auto
  next
    case False
    then have "Vote h k v s \<in> set out" "Vote h k' v' s' \<in> set out"
      using Cons.prems(2,3) by auto
    moreover have "distinct (vote_heights out)"
      using Cons.prems(1) by (auto split: consensus_msg.splits)
    ultimately show ?thesis
      by (intro Cons.IH)
  qed
qed simp

lemma honest_vote_unique:
  assumes "length (e_chain (snd (engine_run C evs (engine_new C i vs)))) < 2 ^ 64"
    and "voted_for C i vs evs h k" and "voted_for C i vs evs h k'"
  shows "k = k'"
  using assms(2,3) vote_heights_unique [OF run_votes_distinct [OF assms(1)]]
  unfolding voted_for_def list_ex_iff is_vote_for_iff by blast

text \<open>Agreement: if fewer than a third of the validators are faulty, two blocks of the same
  height that each gather a quorum of the same validator set are the same block (have the same
  hash), provided the vote of every honest validator was cast by its engine.\<close>

theorem agreement:
  assumes "finite V" and "card V < 2 ^ 63" and "B \<subseteq> V" and "3 * card B < card V"
    and "S \<subseteq> V" and "unat (quorum_for (usize_of (card V))) \<le> card S"
    and "T \<subseteq> V" and "unat (quorum_for (usize_of (card V))) \<le> card T"
    and "\<forall>v\<in>S - B. voted_for C (ident v) (known v) (events v) h k"
    and "\<forall>v\<in>T - B. voted_for C (ident v) (known v) (events v) h k'"
    and "\<forall>v\<in>V - B. length (e_chain (snd (engine_run C (events v)
           (engine_new C (ident v) (known v))))) < 2 ^ 64"
  shows "k = k'"
proof -
  have "card V + card B < 2 * unat (quorum_for (usize_of (card V)))"
    using assms(2,4) by (rule quorum_overlap)
  then have "card V + card B < card S + card T"
    using assms(6,8) by linarith
  then obtain v where "v \<in> S" "v \<in> T" "v \<notin> B"
    using quorums_share_honest [OF assms(1,5,7,3)] by blast
  then show ?thesis
    using assms(5,9-11) by (intro honest_vote_unique [of C "events v" "ident v" "known v" h]) auto
qed

theorem agreement_witness:
  "{k. voted_for toy_crypto demo_identity [] (take 2 demo_events) 1 k} = {ob_hash demo_block}"
proof -
  let ?V = "{zero32}" and ?B = "{} :: node_key set" and ?h = "ob_hash demo_block"
  let ?voted = "voted_for toy_crypto demo_identity [] (take 2 demo_events) 1"
  have size: "finite ?V" "card ?V < 2 ^ 63" "?B \<subseteq> ?V" "3 * card ?B < card ?V" "?V \<subseteq> ?V"
    "unat (quorum_for (usize_of (card ?V))) \<le> card ?V"
    by (simp_all add: unat_quorum_for)
  have voted: "?voted ?h"
    by code_simp
  have short: "length (e_chain (snd (engine_run toy_crypto (take 2 demo_events)
      (engine_new toy_crypto demo_identity [])))) = 2"
    by code_simp
  have "k = ?h" if "?voted k" for k
    by (rule agreement [OF size size(5,6), where C = toy_crypto and ident = "\<lambda>v. demo_identity"
        and known = "\<lambda>v. []" and events = "\<lambda>v. take 2 demo_events" and h = 1])
      (use that voted short in simp_all)
  with voted show ?thesis
    by blast
qed

end
