(* ===== verification/Sync.thy ===== *)
theory Sync
  imports Runs
begin

text \<open>
  How chains of different nodes come together and how a node makes progress: growth and fork
  choice, catching up with a peer, the rotation of proposers, the lone node. The last section
  shows what the certificates do not protect against.
\<close>

section \<open>Chains only grow\<close>

definition chain_step_ok :: "op_block list \<Rightarrow> op_block list \<Rightarrow> bool" where
  "chain_step_ok bs bs' \<longleftrightarrow> (\<exists>cs. bs' = bs @ cs) \<or> length bs < length bs'"

lemma chain_step_refl [simp]: "chain_step_ok bs bs"
  by (simp add: chain_step_ok_def)

lemma chain_step_trans: "chain_step_ok a b \<Longrightarrow> chain_step_ok b c \<Longrightarrow> chain_step_ok a c"
  by (auto simp: chain_step_ok_def)

lemma chain_step_append [simp]: "chain_step_ok (e_chain e) (e_chain (append_and_apply C b e))"
  by (simp add: append_and_apply_def chain_step_ok_def)

lemma chain_step_commit [simp]: "chain_step_ok (e_chain e) (e_chain (snd (maybe_commit C h k e)))"
  by (cases rule: maybe_commit_cases [of C h k e]) simp_all

lemma chain_step_vote_and_commit [simp]:
  "chain_step_ok (e_chain e) (e_chain (snd (vote_and_commit C h k e)))"
  using chain_step_commit [of "snd (cast_vote C h k e)" C h k] by (simp add: vote_and_commit_parts)

lemma chain_step_adopt [simp]:
  "chain_step_ok (e_chain e) (e_chain (snd (try_adopt_chain C bs e)))"
  by (simp add: try_adopt_chain_def Let_def) (simp add: chain_step_ok_def)

lemma chain_step_link_blocks [simp]:
  "chain_step_ok (e_chain e) (e_chain (snd (link_blocks C bs flag e)))"
proof (induction bs arbitrary: flag e)
  case (Cons b bs)
  show ?case
    using Cons.IH chain_step_trans [OF chain_step_append Cons.IH] by simp
qed simp

lemma store_vote_chain [simp]: "e_chain (store_vote h k key sig e) = e_chain e"
  by (simp add: store_vote_def Let_def)

lemma chain_step_event: "chain_step_ok (e_chain e) (e_chain (snd (engine_step C ev e)))"
proof (cases ev)
  case (Receive msg)
  show ?thesis
  proof (cases msg)
    case (Propose b)
    show ?thesis
      using on_propose_snd [of C b e] chain_step_vote_and_commit
        [of "store_proposal b (add_validator (ob_proposer b) e)" C "ob_index b" "ob_hash b"]
      by (auto simp: Receive Propose)
  next
    case (Vote h k key sig)
    show ?thesis
      using chain_step_commit [of "store_vote h k key sig (add_validator key e)" C h k]
      by (simp add: Receive Vote on_vote_def Let_def)
  next
    case (Committed b)
    show ?thesis
      using chain_step_append [of "add_validator (ob_proposer b) e" C b]
      by (simp add: Receive Committed on_committed_def Let_def)
  qed (simp_all add: Receive add_to_mempool_def apply_sync_parts Let_def)
next
  case TryPropose
  consider "try_propose C e = ([], e)"
    | b where "snd (try_propose C e)
        = snd (vote_and_commit C (ob_index b) (ob_hash b) (store_proposal b e))"
    using try_propose_parts [of C e] by (metis snd_conv)
  then show ?thesis
  proof cases
    case (2 b)
    then show ?thesis
      using chain_step_vote_and_commit [of "store_proposal b e" C "ob_index b" "ob_hash b"]
      by (simp add: TryPropose)
  qed (simp add: TryPropose)
qed (simp_all add: submit_local_op_parts add_to_mempool_def mark_inactive_def)

text \<open>C15: fork choice: whatever happens, a node's chain is either extended or replaced by a
  strictly longer one. It is never shortened, and a competing chain of the same length never
  displaces committed blocks.\<close>

theorem chain_never_displaced:
  "(\<exists>bs. e_chain (snd (engine_run C evs e)) = e_chain e @ bs)
   \<or> length (e_chain e) < length (e_chain (snd (engine_run C evs e)))"
proof -
  have "chain_step_ok (e_chain e) (e_chain (snd (engine_run C evs e)))"
    by (rule engine_runs.run_relates [OF refl, where rel = "\<lambda>e e'. chain_step_ok (e_chain e) (e_chain e')"])
      (auto intro: chain_step_trans chain_step_event)
  then show ?thesis
    by (simp add: chain_step_ok_def)
qed

section \<open>Catching up with a peer\<close>

lemma e_next_index_snoc: "e_chain e' = e_chain e @ [b] \<Longrightarrow> e_next_index e' = usize_of (length (e_chain e) + 1)"
  by (simp add: e_next_index_def)

lemma link_blocks_all:
  assumes "chain_linked (e_chain e @ bs)" and "e_chain e \<noteq> []"
    and "list_all (verify_certificate C e) bs"
  shows "fst (link_blocks C bs flag e) = (flag \<or> bs \<noteq> [])
    \<and> e_chain (snd (link_blocks C bs flag e)) = e_chain e @ bs
    \<and> e_state (snd (link_blocks C bs flag e)) = fold (apply_op (sha256 C)) (ops_of bs) (e_state e)"
  using assms
proof (induction bs arbitrary: e flag)
  case (Cons b bs)
  have at: "ob_index b = e_next_index e" "ob_prev b = e_head_hash e"
  proof -
    have "length (e_chain e) < length (e_chain e @ b # bs)" "length (e_chain e) \<noteq> 0"
      using Cons.prems(2) by simp_all
    then have "ob_index ((e_chain e @ b # bs) ! length (e_chain e)) = usize_of (length (e_chain e))
      \<and> ob_prev ((e_chain e @ b # bs) ! length (e_chain e))
        = ob_hash ((e_chain e @ b # bs) ! (length (e_chain e) - 1))"
      using Cons.prems(1) unfolding chain_linked_def by metis
    then show "ob_index b = e_next_index e" "ob_prev b = e_head_hash e"
      using Cons.prems(2) by (simp_all add: e_next_index_def e_head_hash_def nth_append last_conv_nth)
  qed
  let ?e = "append_and_apply C b e"
  note app = append_and_apply_fits [OF at, of C]
  have "verify_certificate C ?e = verify_certificate C e"
    by (intro ext verify_certificate_cong) simp
  then have "list_all (verify_certificate C ?e) bs"
    using Cons.prems(3) by simp
  moreover have "chain_linked (e_chain ?e @ bs)" "e_chain ?e \<noteq> []"
    using Cons.prems(1) by (simp_all add: app)
  ultimately show ?case
    using Cons.IH [of ?e True] Cons.prems(3) at by simp (simp add: app)
qed simp

lemma sort_linked:
  assumes "chain_linked (bs @ cs)" and "length (bs @ cs) < 2 ^ 64"
  shows "sort_key ob_index cs = cs" and "filter (\<lambda>b. usize_of (length bs) \<le> ob_index b) (bs @ cs) = cs"
proof -
  have at: "unat (ob_index ((bs @ cs) ! i)) = i" if "i < length (bs @ cs)" for i
  proof -
    have "ob_index ((bs @ cs) ! i) = usize_of i"
      using assms(1) that by (simp add: chain_linked_def)
    then show ?thesis
      using assms(2) that by (simp add: usize_of_def unat_word_of_nat)
  qed
  have cs: "unat (ob_index (cs ! j)) = length bs + j" if "j < length cs" for j
    using at [of "length bs + j"] that by (simp add: nth_append)
  have "sorted (map ob_index cs)"
    by (auto simp: sorted_iff_nth_mono word_le_nat_alt cs)
  then show "sort_key ob_index cs = cs"
    by (rule sort_key_id_if_sorted)
  have n: "unat (usize_of (length bs)) = length bs"
    using assms(2) by (simp add: usize_of_def unat_word_of_nat)
  have "\<not> usize_of (length bs) \<le> ob_index b" if b: "b \<in> set bs" for b
  proof -
    obtain i where "i < length bs" "b = bs ! i"
      using b by (metis in_set_conv_nth)
    then show ?thesis
      using at [of i] n by (simp add: word_le_nat_alt nth_append)
  qed
  moreover have "usize_of (length bs) \<le> ob_index b" if b: "b \<in> set cs" for b
  proof -
    obtain i where "i < length cs" "b = cs ! i"
      using b by (metis in_set_conv_nth)
    then show ?thesis
      using cs [of i] n by (simp add: word_le_nat_alt)
  qed
  ultimately show "filter (\<lambda>b. usize_of (length bs) \<le> ob_index b) (bs @ cs) = cs"
    by (auto simp: filter_empty_conv filter_id_conv)
qed



section \<open>Proposers\<close>

lemma mod_shift_inj:
  fixes a i j n :: nat
  assumes "(a + i) mod n = (a + j) mod n" and "i < n" and "j < n"
  shows "i = j"
proof -
  have le: "u = v" if "(a + u) mod n = (a + v) mod n" "u \<le> v" "v < n" for u v
  proof -
    have "n dvd v - u"
      using that mod_eq_dvd_iff_nat [of "a + u" "a + v" n] by simp
    then show ?thesis
      using that by (auto dest: dvd_imp_le)
  qed
  show ?thesis
    using le [of i j] le [of j i] assms by (cases "i \<le> j") auto
qed

lemma proposer_at:
  assumes "active e \<noteq> []" and "unat h + length (active e) < 2 ^ 64" and "i < length (active e)"
  shows "proposer_for e (h + usize_of i) = Some (active e ! ((unat h + i) mod length (active e)))"
proof -
  let ?n = "length (active e)"
  have small: "unat (usize_of i) = i" "unat (usize_of ?n) = ?n"
    using assms(2,3) by (simp_all add: usize_of_def unat_word_of_nat)
  then have "unat (h + usize_of i) = unat h + i"
    using assms(2,3) by (subst unat_add_no_wrap) simp_all
  then have "unat ((h + usize_of i) mod usize_of ?n) = (unat h + i) mod ?n"
    by (simp add: unat_mod_distrib small(2))
  then show ?thesis
    using assms(1) by (simp add: proposer_for_def Let_def)
qed

text \<open>A shift modulo the length permutes the positions of a list.\<close>

lemma rotated_positions:
  fixes k n :: nat
  assumes "0 < n"
  shows "inj_on (\<lambda>i. (k + i) mod n) {0..<n}" and "(\<lambda>i. (k + i) mod n) ` {0..<n} = {0..<n}"
proof -
  show inj: "inj_on (\<lambda>i. (k + i) mod n) {0..<n}"
  proof (rule inj_onI)
    fix i j
    assume ij: "i \<in> {0..<n}" "j \<in> {0..<n}" and same: "(k + i) mod n = (k + j) mod n"
    show "i = j"
      using ij by (intro mod_shift_inj [OF same]) (simp_all only: atLeastLessThan_iff simp_thms)
  qed
  have "(\<lambda>i. (k + i) mod n) ` {0..<n} \<subseteq> {0..<n}"
    using assms by auto
  then show "(\<lambda>i. (k + i) mod n) ` {0..<n} = {0..<n}"
    using inj by (intro endo_inj_surj) simp_all
qed

lemma rotated_list:
  assumes "distinct xs" and "xs \<noteq> []"
  shows "distinct (map (\<lambda>i. xs ! ((k + i) mod length xs)) [0..<length xs])"
    and "set (map (\<lambda>i. xs ! ((k + i) mod length xs)) [0..<length xs]) = set xs"
proof -
  let ?f = "\<lambda>i. (k + i) mod length xs"
  have pos: "inj_on ?f {0..<length xs}" "?f ` {0..<length xs} = {0..<length xs}"
    using rotated_positions [of "length xs" k] assms(2) by simp_all
  have "inj_on ((!) xs) (?f ` {0..<length xs})"
    unfolding pos(2) by (rule inj_on_nth [OF assms(1)]) simp
  from comp_inj_on [OF pos(1) this]
  show "distinct (map (\<lambda>i. xs ! ?f i) [0..<length xs])"
    by (simp add: distinct_map comp_def)
  have "(\<lambda>i. xs ! i) ` ?f ` {0..<length xs} = set xs"
    unfolding pos(2) using nth_image [of "length xs" xs] by simp
  then show "set (map (\<lambda>i. xs ! ?f i) [0..<length xs]) = set xs"
    by (simp only: image_image set_map set_upt)
qed

text \<open>Proposing rotates fairly: over as many consecutive heights as there are active
  validators, each of them is the proposer exactly once.\<close>

theorem proposer_rotation:
  assumes "engine_ok C e" and "unat h + length (active e) < 2 ^ 64"
  shows "distinct (map (\<lambda>i. proposer_for e (h + usize_of i)) [0..<length (active e)])
    \<and> set (map (\<lambda>i. proposer_for e (h + usize_of i)) [0..<length (active e)]) = Some ` set (active e)"
proof -
  let ?xs = "active e"
  have ok: "distinct ?xs" "?xs \<noteq> []"
    using assms(1) by (auto simp: engine_ok_def members_ok_def)
  let ?ys = "map (\<lambda>i. ?xs ! ((unat h + i) mod length ?xs)) [0..<length ?xs]"
  have "map (\<lambda>i. proposer_for e (h + usize_of i)) [0..<length ?xs] = map Some ?ys"
    using proposer_at [OF ok(2) assms(2)] by simp
  moreover have "distinct (map Some ?ys) \<and> set (map Some ?ys) = Some ` set ?xs"
    using rotated_list [OF ok, of "unat h"] by (simp only: distinct_map set_map) simp
  ultimately show ?thesis
    by (simp only:)
qed

theorem proposer_rotation_witness:
  "distinct (map (\<lambda>i. proposer_for (add_validator zero32 demo_engine) (1 + usize_of i)) [0..<2])"
proof -
  have "engine_ok toy_crypto (add_validator zero32 demo_engine)"
    unfolding demo_engine_def by (intro engine_ok_add_validator engine_ok_new)
  moreover have "length (active (add_validator zero32 demo_engine)) = 2"
    by code_simp
  ultimately show ?thesis
    using proposer_rotation [of toy_crypto "add_validator zero32 demo_engine" 1] by simp
qed

section \<open>The lone node\<close>

lemma quorum_for_1: "quorum_for 1 = 1"
  by (simp add: quorum_for_def)

lemma store_vote_tally: "tally_of (store_vote h k key sig e) h k \<noteq> []"
proof -
  have "hm_insert key sig xs \<noteq> []" for xs :: "(node_key, bytes) hmap"
    by (cases xs) auto
  then show ?thesis
    by (simp add: tally_of_def store_vote_def Let_def)
qed

lemma tally_cast:
  assumes "hm_get (voted e) h = None"
  shows "tally_of (snd (cast_vote C h k e)) h k \<noteq> []"
  using assms store_vote_tally by (simp add: cast_vote_def Let_def)

text \<open>A lone node makes progress by itself: if it is its only active validator, has pending
  operations and no unfinished proposal or vote at the next height, proposing at once appends a
  block with all pending operations, applies them and empties the pool.\<close>

theorem lone_node_commits:
  assumes "active e = [me e]" and "mempool e \<noteq> []"
    and "hm_get (proposals e) (e_next_index e) = None" and "hm_get (voted e) (e_next_index e) = None"
  shows "\<exists>b. e_chain (snd (try_propose C e)) = e_chain e @ [b] \<and> ob_ops b = mempool e
    \<and> e_state (snd (try_propose C e)) = fold (apply_op (sha256 C)) (mempool e) (e_state e)
    \<and> mempool (snd (try_propose C e)) = [] \<and> Committed b \<in> set (fst (try_propose C e))"
proof -
  define h where "h = e_next_index e"
  define b where "b = op_block_proposed C h (e_head_hash e) (me e) (mempool e) (e_quorum e)"
  define c where "c = snd (cast_vote C h (ob_hash b) (store_proposal b e))"
  define b' where "b' = b\<lparr>ob_votes := map (\<lambda>(key, sig). \<lparr>voter = key, signature = sig\<rparr>)
    (tally_of c h (ob_hash b))\<rparr>"
  have bf: "ob_index b = h" "ob_prev b = e_head_hash e" "ob_ops b = mempool e" "ob_quorum b = 1"
    using assms(1) by (simp_all add: b_def op_block_proposed_def e_quorum_def usize_of_def quorum_for_1)
  have "am_proposer_for e h"
    using assms(1) by (simp add: am_proposer_for_def proposer_for_def usize_of_def)
  then have tp: "try_propose C e = (Propose b # fst (vote_and_commit C h (ob_hash b) (store_proposal b e)),
      snd (vote_and_commit C h (ob_hash b) (store_proposal b e)))"
    using assms(2,3) by (simp add: try_propose_def Let_def h_def [symmetric] b_def [symmetric] case_prod_beta)
  have cf: "e_next_index c = h" "e_head_hash c = e_head_hash e" "e_chain c = e_chain e"
    "e_state c = e_state e" "mempool c = mempool e" "proposals c = proposals (store_proposal b e)"
    by (simp_all add: c_def cast_vote_def store_vote_def Let_def h_def store_proposal_def)
  have stored: "Option.bind (hm_get (proposals c) h) (\<lambda>m. hm_get m (ob_hash b)) = Some b"
    by (simp add: cf(6) store_proposal_def Let_def bf(1))
  have "tally_of c h (ob_hash b) \<noteq> []"
    using assms(4) unfolding c_def by (intro tally_cast) (simp add: h_def)
  then have "\<not> length (tally_of c h (ob_hash b)) < unat (max (ob_quorum b) 1)"
    by (simp add: bf(4) not_less Suc_leI)
  then have mc: "maybe_commit C h (ob_hash b) c = ([Committed b'], append_and_apply C b' c)"
    by (simp add: maybe_commit_def cf(1) stored b'_def Let_def)
  have "append_and_apply C b' c = c\<lparr>e_state := fold (apply_op (sha256 C)) (mempool e) (e_state e),
      mempool := [], e_chain := e_chain e @ [b'], proposals := hm_remove h (proposals c),
      votes := hm_remove h (votes c), voted := hm_remove h (voted c)\<rparr>"
    using append_and_apply_fits [of b' c C] by (simp add: b'_def bf cf)
  then show ?thesis
    by (intro exI [of _ b']) (simp add: tp vote_and_commit_parts c_def [symmetric] mc b'_def bf)
qed

theorem lone_node_commits_witness:
  "\<exists>b. e_chain (snd (try_propose toy_crypto (snd (submit_local_op demo_op demo_engine))))
         = e_chain (snd (submit_local_op demo_op demo_engine)) @ [b] \<and> ob_ops b = [demo_op]"
proof -
  let ?e = "snd (submit_local_op demo_op demo_engine)"
  have e: "active ?e = [me ?e]" "mempool ?e = [demo_op]" "proposals ?e = []" "voted ?e = []"
    by code_simp+
  then show ?thesis
    using lone_node_commits [of ?e toy_crypto] by auto
qed

section \<open>What the certificates do not protect against\<close>

lemma one_vote_suffices:
  assumes "v \<in> set (ob_votes b)" and "voter v \<in> set (validators e)"
    and "verify_sig C (voter v) (ob_hash b) (signature v)" and "ob_quorum b \<le> 1"
  shows "verify_certificate C e b"
proof -
  define good where "good = filter (\<lambda>v. voter v \<in> set (validators e)
      \<and> verify_sig C (voter v) (ob_hash b) (signature v)) (ob_votes b)"
  have "v \<in> set good"
    using assms(1-3) by (simp add: good_def)
  then have "remdups (map voter good) \<noteq> []"
    by (metis image_eqI empty_iff list.set(1) list.set_map set_remdups)
  then have "1 \<le> length (remdups (map voter good))"
    by (cases "remdups (map voter good)") simp_all
  moreover have "max (ob_quorum b) 1 = 1"
    using assms(4) by (simp add: max_def)
  ultimately show ?thesis
    by (simp only: verify_certificate_def Let_def good_def unat_1 if_cancel simp_thms)
qed

text \<open>An outsider can put any block on any node: a key no node has ever heard of signs a hash
  of its choice, claims a quorum of at most one, names itself as proposer and sends the block as
  committed. The node registers the proposer as a validator, finds the one vote sufficient and
  applies the operations, whatever they are; the hash is not even compared with the contents.\<close>

theorem outsider_block_accepted:
  assumes "ob_index b = e_next_index e" and "ob_prev b = e_head_hash e" and "e_next_index e \<noteq> 0"
    and "ob_quorum b \<le> 1" and "v \<in> set (ob_votes b)" and "voter v = ob_proposer b"
    and "verify_sig C (ob_proposer b) (ob_hash b) (signature v)"
  shows "e_chain (snd (on_message C (Committed b) e)) = e_chain e @ [b]
    \<and> e_state (snd (on_message C (Committed b) e))
        = fold (apply_op (sha256 C)) (ob_ops b) (e_state e)"
proof -
  let ?e = "add_validator (ob_proposer b) e"
  have "verify_certificate C ?e b"
    using assms(4-7) by (intro one_vote_suffices [of v]) simp_all
  then show ?thesis
    using assms(1,2) by (simp add: on_committed_def Let_def append_and_apply_fits)
      (simp add: add_validator_def)
qed

definition outsider :: node_key where
  "outsider = replicate 32 99"

definition forged_block :: op_block where
  "forged_block =
     \<lparr>ob_index = 1, ob_prev = e_head_hash demo_engine, ob_proposer = outsider,
      ob_ops = [RegisterParticipant 666 ''mallory'' outsider 1000000], ob_quorum = 0,
      ob_hash = zero32, ob_votes = [\<lparr>voter = outsider, signature = outsider @ outsider\<rparr>]\<rparr>"

theorem outsider_block_accepted_witness:
  "outsider \<notin> set (validators demo_engine)
   \<and> balance_of (chain (e_state (snd (on_message toy_crypto (Committed forged_block) demo_engine)))) 666 = 1000000
   \<and> e_chain (snd (on_message toy_crypto (Committed forged_block) demo_engine))
       = e_chain demo_engine @ [forged_block]"
proof (intro conjI)
  show "outsider \<notin> set (validators demo_engine)"
    and "balance_of (chain (e_state (snd (on_message toy_crypto (Committed forged_block) demo_engine)))) 666 = 1000000"
    by code_simp+
  have "ob_index forged_block = e_next_index demo_engine" "ob_prev forged_block = e_head_hash demo_engine"
    "e_next_index demo_engine \<noteq> 0" "ob_quorum forged_block \<le> 1"
    "verify_sig toy_crypto (ob_proposer forged_block) (ob_hash forged_block)
       (signature (hd (ob_votes forged_block)))"
    by code_simp+
  moreover have "hd (ob_votes forged_block) \<in> set (ob_votes forged_block)"
    "voter (hd (ob_votes forged_block)) = ob_proposer forged_block"
    by (simp_all add: forged_block_def)
  ultimately show "e_chain (snd (on_message toy_crypto (Committed forged_block) demo_engine))
       = e_chain demo_engine @ [forged_block]"
    using outsider_block_accepted [of forged_block demo_engine _ toy_crypto] by blast
qed

lemma noted_voter_known:
  assumes "b \<in> set cs" and "v \<in> set (ob_votes b)"
  shows "voter v \<in> set (validators (fold note_members cs e))"
  using assms
proof (induction cs arbitrary: e)
  case (Cons c cs)
  have "voter v \<in> set (validators (note_members b e))"
    using Cons.prems(2) by simp
  then show ?case
    using Cons note_all_fields(5) [of "note_members b e" cs] by (cases "b = c") auto
qed simp

text \<open>C36: an outsider can rewrite the whole history of a node with a longer chain it has made up:
  adoption registers the proposers and voters of the offered chain as validators before it
  checks the certificates against the validators, so blocks that claim a quorum of one need a
  single signature by their own proposer.\<close>

theorem outsider_rewrites_history:
  assumes "links_ok C 0 zero32 bs" and "length (e_chain e) < length bs"
    and "\<forall>b\<in>set bs. ob_index b \<noteq> 0 \<longrightarrow> ob_quorum b \<le> 1
      \<and> (\<exists>v\<in>set (ob_votes b). verify_sig C (voter v) (ob_hash b) (signature v))"
  shows "fst (try_adopt_chain C bs e) \<and> e_chain (snd (try_adopt_chain C bs e)) = bs
    \<and> e_state (snd (try_adopt_chain C bs e)) = replay (sha256 C) consensus_config (ops_of bs)"
proof -
  let ?e = "fold note_members bs e"
  have "verify_certificate C ?e b" if b: "b \<in> set bs" for b
  proof (cases "ob_index b = 0")
    case True
    then show ?thesis
      by (simp add: verify_certificate_def)
  next
    case False
    then obtain v where v: "v \<in> set (ob_votes b)" "verify_sig C (voter v) (ob_hash b) (signature v)"
      and q: "ob_quorum b \<le> 1"
      using assms(3) b by blast
    show ?thesis
      using v(1) noted_voter_known [OF b v(1)] v(2) q by (rule one_vote_suffices)
  qed
  then have "list_all (verify_certificate C ?e) bs"
    by (simp add: list_all_iff)
  moreover have ne: "bs \<noteq> []"
    using assms(2) by auto
  moreover have "ob_index (hd bs) = 0"
    using links_ok_nth [OF assms(1), of 0] ne by (simp add: hd_conv_nth usize_of_def)
  moreover have "\<not> length bs \<le> length (e_chain ?e)"
    using assms(2) by simp
  ultimately show ?thesis
    using assms(1) by (simp add: try_adopt_chain_def Let_def replay_def fresh_state_def)
qed

definition forged_chain :: "op_block list" where
  "forged_chain = [op_genesis toy_crypto,
     (op_block_proposed toy_crypto 1 (ob_hash (op_genesis toy_crypto)) outsider (ob_ops forged_block) 0)
       \<lparr>ob_votes := ob_votes forged_block\<rparr>]"

theorem outsider_rewrites_history_witness:
  "fst (try_adopt_chain toy_crypto forged_chain demo_engine)
   \<and> e_chain (snd (try_adopt_chain toy_crypto forged_chain demo_engine)) = forged_chain
   \<and> e_state (snd (try_adopt_chain toy_crypto forged_chain demo_engine))
       = replay (sha256 toy_crypto) consensus_config (ops_of forged_chain)"
proof (rule outsider_rewrites_history)
  show "links_ok toy_crypto 0 zero32 forged_chain" "length (e_chain demo_engine) < length forged_chain"
    "\<forall>b\<in>set forged_chain. ob_index b \<noteq> 0 \<longrightarrow> ob_quorum b \<le> 1
      \<and> (\<exists>v\<in>set (ob_votes b). verify_sig toy_crypto (voter v) (ob_hash b) (signature v))"
    by code_simp+
qed

text \<open>A single vote with a worthless signature changes the quorum: the voter is made an active
  validator before its signature is looked at, so the quorum of a lone node rises from one to
  two, more signatures than there are nodes to give them.\<close>

theorem bad_vote_raises_quorum:
  assumes "active e = [me e]" and "key \<noteq> me e" and "\<not> verify_sig C key k sig"
  shows "e_quorum e = 1 \<and> e_quorum (snd (on_message C (Vote h k key sig) e)) = 2
    \<and> e_chain (snd (on_message C (Vote h k key sig) e)) = e_chain e"
proof -
  have "snd (on_message C (Vote h k key sig) e) = add_validator key e"
    using assms(3) by (simp add: on_vote_def Let_def)
  moreover have "length (active (add_validator key e)) = 2"
    using assms(1,2) by (simp add: add_validator_def insort_insert_key_def insort_key.simps)
  ultimately show ?thesis
    using assms(1) by (simp add: e_quorum_def usize_of_def quorum_for_def)
qed

theorem bad_vote_raises_quorum_witness:
  "e_quorum demo_engine = 1
   \<and> e_quorum (snd (on_message toy_crypto (Vote 1 zero32 outsider []) demo_engine)) = 2
   \<and> e_chain (snd (on_message toy_crypto (Vote 1 zero32 outsider []) demo_engine)) = e_chain demo_engine"
proof (rule bad_vote_raises_quorum)
  show "active demo_engine = [me demo_engine]" "outsider \<noteq> me demo_engine"
    "\<not> verify_sig toy_crypto outsider zero32 []"
    by code_simp+
qed

section \<open>A proposal that can never be sealed\<close>

fun local_event :: "engine_event \<Rightarrow> bool" where
  "local_event (SubmitLocal _) = True"
| "local_event TryPropose = True"
| "local_event _ = False"

definition proposed_already :: "engine \<Rightarrow> bool" where
  "proposed_already e \<longleftrightarrow> (case hm_get (proposals e) (e_next_index e) of
     None \<Rightarrow> False | Some m \<Rightarrow> \<exists>(k, b)\<in>set m. ob_proposer b = me e)"

lemma add_to_mempool_fields [simp]:
  "proposals (snd (add_to_mempool op e)) = proposals e" "e_chain (snd (add_to_mempool op e)) = e_chain e"
  "e_next_index (snd (add_to_mempool op e)) = e_next_index e"
  by (simp_all add: add_to_mempool_def)

lemma proposed_already_silent:
  assumes "proposed_already e" and "local_event ev"
  shows "proposed_already (snd (engine_step C ev e)) \<and> e_chain (snd (engine_step C ev e)) = e_chain e"
proof (cases ev)
  case (SubmitLocal op)
  then show ?thesis
    using assms(1) by (simp add: submit_local_op_parts proposed_already_def split: option.splits)
next
  case TryPropose
  have "try_propose C e = ([], e)"
    using assms(1) by (simp add: try_propose_def Let_def proposed_already_def split: option.splits)
  with assms(1) TryPropose show ?thesis
    by simp
qed (use assms(2) in simp_all)

lemma proposed_already_run:
  "proposed_already e \<Longrightarrow> list_all local_event evs \<Longrightarrow>
   e_chain (snd (engine_run C evs e)) = e_chain e"
  by (rule engine_runs.run_keeps [OF refl, where allowed = local_event
        and ok_state = "\<lambda>e'. proposed_already e' \<and> e_chain e' = e_chain e", THEN conjunct2])
    (auto simp: proposed_already_silent)

definition stuck_engine :: engine where
  "stuck_engine = snd (engine_run toy_crypto
     [LinkUp (replicate 32 3), SubmitLocal demo_op, TryPropose, LinkDown (replicate 32 3)] demo_engine)"

text \<open>A node whose only peer leaves between its proposal and the peer's vote never makes
  progress again by itself, although its active set is then just itself: the proposal keeps the
  quorum of two, and as long as it is stored no other is made. Whatever operations are submitted
  and however often it tries to propose, its chain stays as it is.\<close>

theorem lone_node_stuck:
  assumes "list_all local_event evs"
  shows "active stuck_engine = [me stuck_engine] \<and> mempool stuck_engine = [demo_op]
    \<and> e_chain (snd (engine_run toy_crypto evs stuck_engine)) = e_chain stuck_engine"
proof (intro conjI)
  show "active stuck_engine = [me stuck_engine]" and "mempool stuck_engine = [demo_op]"
    by code_simp+
  have "proposed_already stuck_engine"
    by code_simp
  then show "e_chain (snd (engine_run toy_crypto evs stuck_engine)) = e_chain stuck_engine"
    using assms by (rule proposed_already_run)
qed

theorem lone_node_stuck_witness:
  "e_chain (snd (engine_run toy_crypto [TryPropose, SubmitLocal (Tick 1), TryPropose] stuck_engine))
     = e_chain stuck_engine"
  using lone_node_stuck [of "[TryPropose, SubmitLocal (Tick 1), TryPropose]"] by simp

end
