(* ===== verification/Protocol.thy ===== *)
theory Protocol
  imports Sync
begin

text \<open>
  The vocabulary of a node (src/src/protocol.rs): the views the user interface shows, the
  envelope of the peer-to-peer mesh, the commands of the user interface and the events of the
  node, and the requests and responses of the older coordinator protocol, which no function of
  the program uses any more.
\<close>

section \<open>Views\<close>

record tx_view =
  tv_kind :: string
  tv_from :: "u64 option"
  tv_to :: "u64 option"
  tv_amount :: u64
  tv_memo :: "string option"

record block_view =
  bv_index :: u64
  bv_tick :: u64
  bv_hash :: string
  bv_prev_hash :: string
  bv_transactions :: "tx_view list"

record participant_view =
  pv_id :: participant_id
  pv_name :: string
  pv_balance :: u64
  pv_reputation :: u64

record project_view =
  prv_id :: project_id
  prv_owner :: participant_id
  prv_name :: string
  prv_available :: u64
  prv_locked :: u64

record task_view =
  tkv_id :: task_id
  tkv_project :: project_id
  tkv_reward :: u64
  tkv_payload :: string
  tkv_label :: string
  tkv_assigned :: "participant_id option"
  tkv_reported :: "participant_id list"
  tkv_has_result :: bool
  tkv_result :: "encrypted_blob option"

record network_snapshot =
  sn_participants :: "participant_view list"
  sn_projects :: "project_view list"
  sn_tasks :: "task_view list"
  sn_blocks :: "block_view list"
  sn_block_count :: usize
  sn_valid :: bool

definition empty_snapshot :: network_snapshot where
  "empty_snapshot = \<lparr>sn_participants = [], sn_projects = [], sn_tasks = [], sn_blocks = [],
     sn_block_count = 0, sn_valid = False\<rparr>"

datatype node_mode = ModeCoordinator | ModeWorker | ModePeer

record p2p_snapshot =
  ps_key_short :: string
  ps_peers :: usize
  ps_validators :: usize
  ps_mempool :: usize
  ps_block_count :: usize
  ps_valid :: bool
  ps_balance :: u64
  ps_blocks :: "block_view list"

section \<open>Messages\<close>

datatype p2p_message =
    PeerHello node_key string string \<comment> \<open>key, listen address, name\<close>
  | PeersMsg "string list"
  | ValidatorMsg node_key
  | ConsensusEnv consensus_msg

datatype app_command =
    ConnectCoordinator string string u64 u64 "string list"
      \<comment> \<open>listen address, name, balance, quorum, peer coordinators\<close>
  | ConnectWorker string string u64 "string list"
      \<comment> \<open>coordinator address, name, balance, allowed packages\<close>
  | CmdCreateProject string "bytes32 option"
  | CmdFundProject project_id u64
  | CmdDonateToProject project_id u64
  | CmdSubmitTask project_id u64 string
  | StartExecutor u8 u64 "string list"
      \<comment> \<open>reliability, compute ticks, allowed packages\<close>
  | StopExecutor
  | JoinP2P string "string list" string u64
      \<comment> \<open>listen address, bootstrap peers, name, balance\<close>
  | SendTokens participant_id u64
  | Disconnect

datatype app_event =
    Connected
  | Disconnected string
  | Registered participant_id
  | IdentityEvent string string \<comment> \<open>short signing key, short encryption key\<close>
  | StateUpdate network_snapshot
  | P2pUpdate p2p_snapshot
  | ExecutorStarted
  | ExecutorStopped
  | LogEvent string
  | ErrorEvent string

datatype peer_request =
    ReqHello string bytes32 u64
  | ReqAuth bytes32 bytes
  | ReqCreateProject string "bytes32 option"
  | ReqFundProject project_id u64
  | ReqDonateToProject project_id u64
  | ReqSubmitTask project_id u64 string
  | ReqRequestTask participant_id
  | ReqSubmitResult participant_id task_id string u64 "encrypted_blob option"
  | ReqHeartbeat participant_id task_id
  | ReqGetState

datatype peer_response =
    RespChallenge participant_id bytes32
  | RespDenied string
  | RespWelcome participant_id
  | RespProjectCreated project_id
  | RespTaskSubmitted task_id
  | RespTaskAssigned task_id project_id u64 string "bytes32 option"
  | RespResultAck bool
  | RespStateUpdate network_snapshot
  | RespNoPendingTasks
  | RespError string
  | RespOk

end
