(* ===== verification/Snapshot.thy ===== *)
theory Snapshot
  imports Protocol
begin

text \<open>
  What a node shows of its state (src/src/actor.rs, the first half): the snapshot of the
  replicated state and the snapshot of a peer-to-peer node. The hash maps of the state have no
  order; the snapshot sorts each list by identifier, so it is the same on every replica.
\<close>

section \<open>Views\<close>

definition transaction_view :: "transaction \<Rightarrow> tx_view" where
  "transaction_view tx =
     (case tx of
        Mint to a \<Rightarrow>
          \<lparr>tv_kind = ''mint'', tv_from = None, tv_to = Some to, tv_amount = a, tv_memo = None\<rparr>
      | Transfer src dst a memo \<Rightarrow>
          \<lparr>tv_kind = ''transfer'', tv_from = Some src, tv_to = Some dst, tv_amount = a,
           tv_memo = Some memo\<rparr>
      | Burn src a \<Rightarrow>
          \<lparr>tv_kind = ''burn'', tv_from = Some src, tv_to = None, tv_amount = a, tv_memo = None\<rparr>)"

definition block_to_view :: "crypto \<Rightarrow> block \<Rightarrow> block_view" where
  "block_to_view C b =
     \<lparr>bv_index = b_index b, bv_tick = b_tick b, bv_hash = hex_encode C (b_hash b),
      bv_prev_hash = hex_encode C (b_prev_hash b),
      bv_transactions = map transaction_view (b_transactions b)\<rparr>"

definition participant_view_of :: "network \<Rightarrow> participant \<Rightarrow> participant_view" where
  "participant_view_of n p =
     \<lparr>pv_id = p_id p, pv_name = p_name p, pv_balance = network_balance_of (p_id p) n,
      pv_reputation = reputation p\<rparr>"

definition project_view_of :: "project \<Rightarrow> project_view" where
  "project_view_of p =
     \<lparr>prv_id = pr_id p, prv_owner = owner_id p, prv_name = pr_name p,
      prv_available = quota_available p, prv_locked = quota_locked p\<rparr>"

definition status_label :: "task_status \<Rightarrow> string \<times> participant_id option" where
  "status_label st =
     (case st of
        Pending \<Rightarrow> (''Pending'', None)
      | Assigned w e \<Rightarrow> (''Assigned('' @ show_u64 w @ '')'', Some w)
      | Completed d ws \<Rightarrow> (''Done'', None)
      | QuotaExhausted d ws \<Rightarrow> (''Quota exhausted'', None)
      | Rejected \<Rightarrow> (''Rejected'', None))"

definition task_view_of :: "task \<Rightarrow> task_view" where
  "task_view_of t =
     (let (label, assigned_worker) = status_label (t_status t)
      in \<lparr>tkv_id = t_id t, tkv_project = t_project t, tkv_reward = t_reward t,
          tkv_payload = t_payload t, tkv_label = label, tkv_assigned = assigned_worker,
          tkv_reported = map report_worker (t_reports t),
          tkv_has_result = (t_encrypted t \<noteq> None), tkv_result = t_encrypted t\<rparr>)"

section \<open>The snapshot\<close>

text \<open>\<open>all_participants\<close>, \<open>all_projects\<close>, \<open>all_tasks\<close>: the values in the order of the map.\<close>

definition all_participants :: "network \<Rightarrow> participant list" where
  "all_participants n = map snd (participants n)"

definition all_projects :: "network \<Rightarrow> project list" where
  "all_projects n = map snd (projects n)"

definition all_tasks :: "network \<Rightarrow> task list" where
  "all_tasks n = map snd (tasks n)"

definition build_snapshot :: "crypto \<Rightarrow> network \<Rightarrow> network_snapshot" where
  "build_snapshot C n =
     \<lparr>sn_participants = sort_key pv_id (map (participant_view_of n) (all_participants n)),
      sn_projects = sort_key prv_id (map project_view_of (all_projects n)),
      sn_tasks = sort_key tkv_id (map task_view_of (all_tasks n)),
      sn_blocks = map (block_to_view C) (chain n),
      sn_block_count = usize_of (length (chain n)),
      sn_valid = verify_integrity (sha256 C) (chain n)\<rparr>"

definition build_p2p_snapshot ::
  "crypto \<Rightarrow> engine \<Rightarrow> nat \<Rightarrow> participant_id \<Rightarrow> string \<Rightarrow> p2p_snapshot" where
  "build_p2p_snapshot C e peer_count my_addr key_short =
     (let econ = chain (e_state e)
      in \<lparr>ps_key_short = key_short, ps_peers = usize_of peer_count,
          ps_validators = usize_of (length (active e)), ps_mempool = usize_of (length (mempool e)),
          ps_block_count = usize_of (length (e_chain e)),
          ps_valid = verify_integrity (sha256 C) econ, ps_balance = balance_of econ my_addr,
          ps_blocks = map (block_to_view C) econ\<rparr>)"

section \<open>What a snapshot shows\<close>

lemma view_keys:
  assumes "hm_ok m" and "\<And>k x. hm_get m k = Some x \<Longrightarrow> key (view x) = k"
  shows "map key (map view (map snd m)) = map fst m"
proof -
  have "key (view (snd e)) = fst e" if "e \<in> set m" for e
    using that assms(1) by (intro assms(2)) (simp add: map_of_eq_Some_iff)
  then show ?thesis
    by simp
qed

lemma listed:
  fixes m :: "('k :: linorder, 'a) hmap"
  assumes "hm_ok m" and "\<And>k x. hm_get m k = Some x \<Longrightarrow> key (view x) = k"
  shows "sorted_wrt (<) (map key (sort_key key (map view (map snd m))))"
    and "set (sort_key key (map view (map snd m))) = {view x | k x. hm_get m k = Some x}"
proof -
  have "distinct (map key (map view (map snd m)))"
    using assms(1) by (simp only: view_keys [OF assms(1), of key view, OF assms(2)])
  then have "distinct (map key (sort_key key (map view (map snd m))))"
    by (simp only: distinct_map distinct_sort set_sort simp_thms)
  then show "sorted_wrt (<) (map key (sort_key key (map view (map snd m))))"
    by (simp add: strict_sorted_iff)
  show "set (sort_key key (map view (map snd m))) = {view x | k x. hm_get m k = Some x}"
    unfolding map_of_eq_Some_iff [OF assms(1)] by (auto simp: image_image image_iff Bex_def; blast)
qed

text \<open>The order in which a hash map lists its entries does not show.\<close>

lemma listed_order_free:
  fixes m :: "('k :: linorder, 'a) hmap"
  assumes "hm_eq m m'" and "\<And>k x. hm_get m k = Some x \<Longrightarrow> key (view x) = k"
  shows "sort_key key (map view (map snd m)) = sort_key key (map view (map snd m'))"
proof (rule sort_key_inj_key_eq)
  show "mset (map view (map snd m)) = mset (sort_key key (map view (map snd m')))"
    using hm_eq_mset [OF assms(1)] by simp
  have "hm_ok m"
    using assms(1) by (simp add: hm_eq_def)
  then have "distinct (map key (map view (map snd m)))"
    by (simp only: view_keys [of m key view, OF _ assms(2)])
  then show "inj_on key (set (map view (map snd m)))"
    by (simp only: distinct_map simp_thms)
qed simp

lemma task_view_assigned:
  "tkv_assigned (task_view_of t) = Some w \<longleftrightarrow> (\<exists>e. t_status t = Assigned w e)"
  by (auto simp: task_view_of_def status_label_def split: task_status.split)

lemma view_ids [simp]:
  "pv_id (participant_view_of n p) = p_id p" "prv_id (project_view_of q) = pr_id q"
  "tkv_id (task_view_of t) = t_id t"
  by (simp_all add: participant_view_of_def project_view_of_def task_view_of_def Let_def split: prod.split)

lemma snapshot_of_replay:
  fixes C H cfg ops
  defines "n \<equiv> replay (sha256 C) cfg ops" and "s \<equiv> build_snapshot C (replay (sha256 C) cfg ops)"
  assumes "short_log ops"
  shows "sorted_wrt (<) (map pv_id (sn_participants s)) \<and> sorted_wrt (<) (map prv_id (sn_projects s))
    \<and> sorted_wrt (<) (map tkv_id (sn_tasks s))
    \<and> set (sn_participants s) = {participant_view_of n p | i p. hm_get (participants n) i = Some p}
    \<and> set (sn_projects s) = {project_view_of p | i p. hm_get (projects n) i = Some p}
    \<and> set (sn_tasks s) = {task_view_of t | i t. hm_get (tasks n) i = Some t}
    \<and> (\<forall>v w. v \<in> set (sn_tasks s) \<longrightarrow> tkv_assigned v = Some w \<longleftrightarrow>
          map_option lease_worker (hm_get (leases n) (tkv_id v)) = Some w)
    \<and> sn_valid s"
proof -
  have ok: "lifecycle n"
    unfolding n_def using assms(3) by (rule lifecycle_replay)
  have s: "s = build_snapshot C n"
    by (simp add: s_def n_def)
  have ids: "pv_id (participant_view_of n p) = i" if "hm_get (participants n) i = Some p" for i p
    using ok that by (simp add: lifecycle_def store_ok_def pmap_ok_def)
  have projects: "prv_id (project_view_of p) = i" if "hm_get (projects n) i = Some p" for i p
    using ok that by (simp add: lifecycle_def store_ok_def projects_ok_def)
  have slot: "task_ok n i t" "status_ok t (i \<in> set (pending_tasks n)) (hm_get (leases n) i)"
    if "hm_get (tasks n) i = Some t" for i t
    using lifecycle_slot [OF ok, of i] that by (simp_all add: slot_ok_def)
  have tasks: "tkv_id (task_view_of t) = i" if "hm_get (tasks n) i = Some t" for i t
    using slot(1) [OF that] by (simp add: task_ok_def)
  have oks: "hm_ok (participants n)" "hm_ok (projects n)" "hm_ok (tasks n)"
    using ok by (simp_all add: lifecycle_def store_ok_def pmap_ok_def projects_ok_def)
  have assigned: "tkv_assigned (task_view_of t) = Some w \<longleftrightarrow>
      map_option lease_worker (hm_get (leases n) (t_id t)) = Some w"
    if "hm_get (tasks n) i = Some t" for i t w
    using slot [OF that] unfolding task_view_assigned
    by (cases "t_status t") (auto simp: task_ok_def status_ok_def)
  have "sn_valid s"
    unfolding s build_snapshot_def using verify_replay [OF assms(3), of "sha256 C" cfg] by (simp add: n_def)
  then show ?thesis
    using listed [of _ pv_id "participant_view_of n", OF oks(1) ids]
      listed [of _ prv_id project_view_of, OF oks(2) projects]
      listed [of _ tkv_id task_view_of, OF oks(3) tasks] assigned
    unfolding s build_snapshot_def all_participants_def all_projects_def all_tasks_def network_snapshot.simps
    by (intro conjI) auto
qed

text \<open>C23: a snapshot tells the truth: of every state that a log of operations reaches it lists
  exactly the participants, projects and tasks, each once and in the order of their identifiers,
  it shows a task as assigned to the worker that holds the lease and to nobody else, and it shows
  the ledger as valid.\<close>

theorem snapshot_faithful:
  assumes "short_log ops"
  shows "let n = replay (sha256 C) cfg ops; s = build_snapshot C n
    in sorted_wrt (<) (map pv_id (sn_participants s)) \<and> sorted_wrt (<) (map prv_id (sn_projects s))
    \<and> sorted_wrt (<) (map tkv_id (sn_tasks s))
    \<and> set (sn_participants s) = {participant_view_of n p | i p. hm_get (participants n) i = Some p}
    \<and> set (sn_projects s) = {project_view_of p | i p. hm_get (projects n) i = Some p}
    \<and> set (sn_tasks s) = {task_view_of t | i t. hm_get (tasks n) i = Some t}
    \<and> (\<forall>v w. v \<in> set (sn_tasks s) \<longrightarrow> tkv_assigned v = Some w \<longleftrightarrow>
          map_option lease_worker (hm_get (leases n) (tkv_id v)) = Some w)
    \<and> sn_valid s"
  using snapshot_of_replay [OF assms] unfolding Let_def .

theorem snapshot_faithful_witness:
  "let n = replay length_hash default_config demo_log
   in set (sn_tasks (build_snapshot toy_crypto n)) = {task_view_of t | i t. hm_get (tasks n) i = Some t}
     \<and> sn_valid (build_snapshot toy_crypto n)"
  using snapshot_faithful [of demo_log toy_crypto default_config]
  by (simp add: Let_def short_log_def demo_log_def toy_crypto_def)

text \<open>Two replicas show the same snapshot: when their maps have the same entries and their
  ledgers the same blocks, the snapshots are equal, in whatever order the hash maps of each of
  them happen to list the entries.\<close>

theorem snapshot_order_free:
  assumes "lifecycle m" and "lifecycle n" and "hm_get (participants m) = hm_get (participants n)"
    and "hm_get (projects m) = hm_get (projects n)" and "hm_get (tasks m) = hm_get (tasks n)"
    and "chain m = chain n"
  shows "build_snapshot C m = build_snapshot C n"
proof -
  have oks: "hm_ok (participants k)" "hm_ok (projects k)" "hm_ok (tasks k)" if "lifecycle k" for k
    using that by (simp_all add: lifecycle_def store_ok_def pmap_ok_def projects_ok_def)
  have same: "participant_view_of m = participant_view_of n"
    by (rule ext) (simp add: participant_view_of_def network_balance_of_def assms(6))
  have "hm_eq (participants m) (participants n)" "hm_eq (projects m) (projects n)" "hm_eq (tasks m) (tasks n)"
    using assms oks by (simp_all add: hm_eq_def)
  moreover have "pv_id (participant_view_of n p) = i" if "hm_get (participants m) i = Some p" for i p
    using assms(1) that by (simp add: lifecycle_def store_ok_def pmap_ok_def)
  moreover have "prv_id (project_view_of p) = i" if "hm_get (projects m) i = Some p" for i p
    using assms(1) that by (simp add: lifecycle_def store_ok_def projects_ok_def)
  moreover have "tkv_id (task_view_of t) = i" if "hm_get (tasks m) i = Some t" for i t
    using lifecycle_slot [OF assms(1), of i] that by (simp add: slot_ok_def task_ok_def)
  ultimately show ?thesis
    unfolding build_snapshot_def all_participants_def all_projects_def all_tasks_def same
    by (simp add: listed_order_free [of "participants m" "participants n"]
        listed_order_free [of "projects m" "projects n"] listed_order_free [of "tasks m" "tasks n"] assms(6)
        del: map_map)
qed

theorem snapshot_order_free_witness:
  "let n = replay length_hash default_config demo_log
   in build_snapshot toy_crypto (n\<lparr>participants := rev (participants n)\<rparr>) = build_snapshot toy_crypto n"
proof -
  let ?n = "replay length_hash default_config demo_log"
  have ok: "lifecycle ?n"
    by (rule lifecycle_replay) (simp add: short_log_def demo_log_def)
  then have dist: "hm_ok (participants ?n)"
    by (simp add: lifecycle_def store_ok_def pmap_ok_def)
  then have same: "hm_get (rev (participants ?n)) = hm_get (participants ?n)"
    by (subst map_of_inject_set) (simp_all flip: rev_map)
  have "lifecycle (?n\<lparr>participants := rev (participants ?n)\<rparr>)"
    using ok dist same by (simp add: lifecycle_def store_ok_def pmap_ok_def projects_ok_def flip: rev_map)
  then show ?thesis
    using snapshot_order_free [of "?n\<lparr>participants := rev (participants ?n)\<rparr>" ?n toy_crypto] ok same
    by (simp add: Let_def)
qed

end
