(* ===== verification/Text.thy ===== *)
theory Text
  imports Prelude
begin

text \<open>
  The string functions of the Rust standard library that the program uses. A string is the list
  of its UTF-8 bytes, so a function that works on characters first cuts the bytes into
  characters: a byte of the form 10xxxxxx continues the character before it.
\<close>

section \<open>Characters\<close>

definition byte_of :: "char \<Rightarrow> nat" where
  "byte_of c = of_char c"

definition continuation :: "char \<Rightarrow> bool" where
  "continuation c \<longleftrightarrow> 128 \<le> byte_of c \<and> byte_of c < 192"

text \<open>\<open>str::chars\<close>: the characters, each as the list of its bytes.\<close>

lemma length_dropWhile_less [termination_simp]: "length (dropWhile P xs) < Suc (length xs)"
  by (simp add: length_dropWhile_le less_Suc_eq_le)

fun chars_of :: "string \<Rightarrow> string list" where
  "chars_of [] = []"
| "chars_of (c # cs) =
     (c # takeWhile continuation cs) # chars_of (dropWhile continuation cs)"

lemma concat_chars_of [simp]: "concat (chars_of s) = s"
  by (induction s rule: chars_of.induct) simp_all

text \<open>\<open>char::is_whitespace\<close>: the characters with the property White_Space, as bytes.\<close>

definition is_whitespace :: "string \<Rightarrow> bool" where
  "is_whitespace ch \<longleftrightarrow>
     (case map byte_of ch of
        [a] \<Rightarrow> 9 \<le> a \<and> a \<le> 13 \<or> a = 32
      | [a, b] \<Rightarrow> a = 194 \<and> (b = 133 \<or> b = 160)
      | [a, b, c] \<Rightarrow>
          a = 225 \<and> b = 154 \<and> c = 128
          \<or> a = 226 \<and> b = 128 \<and> (128 \<le> c \<and> c \<le> 138 \<or> c = 168 \<or> c = 169 \<or> c = 175)
          \<or> a = 226 \<and> b = 129 \<and> c = 159
          \<or> a = 227 \<and> b = 128 \<and> c = 128
      | _ \<Rightarrow> False)"

definition is_ascii_alphanumeric :: "string \<Rightarrow> bool" where
  "is_ascii_alphanumeric ch \<longleftrightarrow>
     (case map byte_of ch of
        [a] \<Rightarrow> 48 \<le> a \<and> a \<le> 57 \<or> 65 \<le> a \<and> a \<le> 90 \<or> 97 \<le> a \<and> a \<le> 122
      | _ \<Rightarrow> False)"

text \<open>\<open>str::to_ascii_lowercase\<close>.\<close>

definition lower_char :: "char \<Rightarrow> char" where
  "lower_char c = (if 65 \<le> byte_of c \<and> byte_of c \<le> 90 then char_of (byte_of c + 32) else c)"

definition to_ascii_lowercase :: "string \<Rightarrow> string" where
  "to_ascii_lowercase s = map lower_char s"

section \<open>Slices\<close>

text \<open>\<open>&s[..n]\<close> panics, here None, when \<open>n\<close> is past the end or inside a character.\<close>

definition is_char_boundary :: "string \<Rightarrow> nat \<Rightarrow> bool" where
  "is_char_boundary s n \<longleftrightarrow> n = 0 \<or> n = length s \<or> n < length s \<and> \<not> continuation (s ! n)"

definition slice_to :: "string \<Rightarrow> nat \<Rightarrow> string option" where
  "slice_to s n = (if is_char_boundary s n then Some (take n s) else None)"

definition strip_prefix :: "string \<Rightarrow> string \<Rightarrow> string option" where
  "strip_prefix pat s = (if take (length pat) s = pat then Some (drop (length pat) s) else None)"

lemma strip_prefix_Some: "strip_prefix pat s = Some r \<longleftrightarrow> s = pat @ r"
  by (auto simp: strip_prefix_def) (metis append_take_drop_id)

definition starts_with :: "string \<Rightarrow> string \<Rightarrow> bool" where
  "starts_with pat s \<longleftrightarrow> take (length pat) s = pat"

text \<open>\<open>str::trim\<close>.\<close>

definition trim :: "string \<Rightarrow> string" where
  "trim s = concat (rev (dropWhile is_whitespace (rev (dropWhile is_whitespace (chars_of s)))))"

section \<open>Splitting\<close>

text \<open>\<open>str::split\<close> at a single byte.\<close>

fun split_at :: "char \<Rightarrow> string \<Rightarrow> string list" where
  "split_at sep [] = [[]]"
| "split_at sep (c # cs) =
     (if c = sep then [] # split_at sep cs
      else case split_at sep cs of [] \<Rightarrow> [[c]] | w # ws \<Rightarrow> (c # w) # ws)"

text \<open>\<open>str::splitn\<close>: at most \<open>n\<close> pieces, the last one unsplit.\<close>

fun splitn :: "nat \<Rightarrow> char \<Rightarrow> string \<Rightarrow> string list" where
  "splitn 0 sep s = []"
| "splitn (Suc 0) sep s = [s]"
| "splitn (Suc (Suc n)) sep s =
     (let w = takeWhile (\<lambda>c. c \<noteq> sep) s; r = dropWhile (\<lambda>c. c \<noteq> sep) s
      in if r = [] then [w] else w # splitn (Suc n) sep (tl r))"

text \<open>\<open>str::lines\<close>: the pieces between line feeds, without an empty last one and without the
  carriage return before a line feed.\<close>

definition strip_cr :: "string \<Rightarrow> string" where
  "strip_cr l = (if l \<noteq> [] \<and> byte_of (last l) = 13 then butlast l else l)"

definition lines_of :: "string \<Rightarrow> string list" where
  "lines_of s =
     (let ls = split_at (char_of (10 :: nat)) s; body = map strip_cr (butlast ls)
      in if last ls = [] then body else body @ [last ls])"

section \<open>Numbers\<close>

definition digit :: "char \<Rightarrow> nat option" where
  "digit c = (if 48 \<le> byte_of c \<and> byte_of c \<le> 57 then Some (byte_of c - 48) else None)"

fun digits_value :: "nat \<Rightarrow> string \<Rightarrow> nat option" where
  "digits_value acc [] = Some acc"
| "digits_value acc (c # cs) =
     (case digit c of None \<Rightarrow> None | Some d \<Rightarrow> digits_value (10 * acc + d) cs)"

text \<open>\<open>str::parse\<close> to a u64: an optional plus sign, at least one digit, no overflow.\<close>

definition parse_u64 :: "string \<Rightarrow> u64 option" where
  "parse_u64 s =
     (let ds = (if s \<noteq> [] \<and> byte_of (hd s) = 43 then tl s else s)
      in if ds = [] then None
         else case digits_value 0 ds of
                None \<Rightarrow> None
              | Some n \<Rightarrow> if n < 2 ^ 64 then Some (word_of_nat n) else None)"

text \<open>\<open>{:016x}\<close>.\<close>

definition hex16 :: "u64 \<Rightarrow> string" where
  "hex16 w = (let h = hex_u64 w in replicate (16 - length h) (CHR ''0'') @ h)"

section \<open>Printing and parsing\<close>

lemma digits_value_append:
  "digits_value acc (xs @ ys) =
     (case digits_value acc xs of None \<Rightarrow> None | Some n \<Rightarrow> digits_value n ys)"
  by (induction xs arbitrary: acc) (simp_all split: option.split)

lemma digit_nth: "d < 10 \<Longrightarrow> digit (''0123456789abcdef'' ! d) = Some d"
proof -
  assume "d < 10"
  then have "d \<in> {0, 1, 2, 3, 4, 5, 6, 7, 8, 9}"
    by auto
  then show ?thesis
    by (auto simp: digit_def byte_of_def)
qed

lemma digits_value_digits_of: "digits_value 0 (digits_of 10 n) = Some n"
proof (induction n rule: less_induct)
  case (less n)
  show ?case
  proof (cases "n < 10")
    case True
    then show ?thesis
      by (simp add: digits_of.simps [of 10 n] digit_nth)
  next
    case False
    then have "digits_of 10 n = digits_of 10 (n div 10) @ [''0123456789abcdef'' ! (n mod 10)]"
      by (subst digits_of.simps) simp
    moreover have "digits_value 0 (digits_of 10 (n div 10)) = Some (n div 10)"
      using False by (intro less.IH) simp
    ultimately show ?thesis
      by (simp add: digits_value_append digit_nth)
  qed
qed

lemma digits_of_nonempty [simp]: "digits_of b n \<noteq> []"
  by (subst digits_of.simps) simp

lemma hd_digits_of: "byte_of (hd (digits_of 10 n)) \<noteq> 43"
proof (induction n rule: less_induct)
  case (less n)
  show ?case
  proof (cases "n < 10")
    case True
    then have "digit (hd (digits_of 10 n)) = Some n"
      by (simp add: digits_of.simps [of 10 n] digit_nth)
    then show ?thesis
      by (auto simp: digit_def)
  next
    case False
    then show ?thesis
      using less.IH [of "n div 10"] by (subst digits_of.simps) simp
  qed
qed

lemma parse_show_u64: "parse_u64 (show_u64 w) = Some w"
  using unsigned_less [of w, where ?'a = nat]
  by (simp add: parse_u64_def show_u64_def hd_digits_of digits_value_digits_of)

end
