(* ===== verification/Sandbox.thy ===== *)
theory Sandbox
  imports Text Identity
begin

text \<open>
  Running Python code (src/src/sandbox.rs): the glue script around the isolated interpreter, the
  call with its backstop, the allowlist and the installation of packages.

  The interpreter is the Python package smolagents, pip and the venv are external programs: they
  are the fields of the record \<open>python\<close>, the parameter of the definitions that call them.
\<close>

section \<open>The interpreter\<close>

text \<open>How \<open>_executor(code)\<close> of the glue ends: with its logs, or with an exception, which is the
  interpreter's own or carries the name of another class.\<close>

datatype script_end =
    ReturnsLogs "string option"
  | RaisesInterpreterError string
  | RaisesOther string string \<comment> \<open>class name, message\<close>

record script_run =
  script_end :: script_end
  print_outputs :: string
  operation_counter :: u64

datatype thread_end = ThreadDone | ThreadPanics | ThreadTooLate

datatype pip_end = PipOk | PipFails string | PipMissing string
  \<comment> \<open>success, standard error of a failure, error of the process launch\<close>

record python =
  py_setup :: "string list \<Rightarrow> string list \<Rightarrow> string option"
    \<comment> \<open>allowlist, extra paths: why the interpreter cannot be set up\<close>
  py_script :: "string \<Rightarrow> u64 \<Rightarrow> string list \<Rightarrow> script_run"
  py_thread :: "string \<Rightarrow> u64 \<Rightarrow> thread_end" \<comment> \<open>code, seconds the caller waits\<close>
  py_extra_paths :: "string list"
  py_venv :: "string option"
  py_importable :: "string \<Rightarrow> bool"
  py_pip :: "string \<Rightarrow> pip_end"

section \<open>The glue script\<close>

record glue_globals =
  g_stdout :: string
  g_success :: bool
  g_operations :: u64
  g_timed_out :: bool

definition run_glue :: "python \<Rightarrow> string \<Rightarrow> u64 \<Rightarrow> string list \<Rightarrow> glue_globals" where
  "run_glue P code timeout allowed =
     (let r = py_script P code timeout allowed;
          (out, success, err) =
            (case script_end r of
               ReturnsLogs logs \<Rightarrow> ((case logs of None \<Rightarrow> [] | Some l \<Rightarrow> l), True, [])
             | RaisesInterpreterError msg \<Rightarrow> (print_outputs r, False, msg)
             | RaisesOther cls msg \<Rightarrow> (print_outputs r, False, cls @ '': '' @ msg));
          low = to_ascii_lowercase err
      in \<lparr>g_stdout = out, g_success = success, g_operations = operation_counter r,
          g_timed_out = str_contains ''maximum number of'' low \<or> str_contains ''timed out'' low
            \<or> str_contains ''operations'' low \<and> str_contains ''exceeded'' low\<rparr>)"

section \<open>Sandboxed execution\<close>

datatype sandbox_error = SandboxTimeout | PythonError string | Unavailable string

fun sandbox_error_display :: "sandbox_error \<Rightarrow> string" where
  "sandbox_error_display SandboxTimeout = ''sandbox: execution timed out''"
| "sandbox_error_display (PythonError msg) = ''sandbox: python error: '' @ msg"
| "sandbox_error_display (Unavailable msg) = ''sandbox: unavailable: '' @ msg"

record sandbox_result =
  sb_stdout :: string
  sb_success :: bool
  sb_operations :: u64

definition default_allowed_packages :: "string list" where
  "default_allowed_packages =
     [''cmath'', ''decimal'', ''fractions'', ''functools'', ''heapq'', ''bisect'', ''operator'',
      ''string'', ''io'', ''json'', ''struct'', ''hashlib'', ''copy'', ''abc'', ''enum'',
      ''typing'', ''dataclasses'', ''numbers'', ''array'', ''pprint'', ''textwrap'']"

definition run_in_gil ::
  "python \<Rightarrow> string \<Rightarrow> u64 \<Rightarrow> string list \<Rightarrow> sandbox_error + sandbox_result" where
  "run_in_gil P code timeout allowed =
     (case py_setup P allowed (py_extra_paths P) of
        Some msg \<Rightarrow> Inl (Unavailable msg)
      | None \<Rightarrow>
          let g = run_glue P code (max timeout 1) allowed
          in if g_timed_out g then Inl SandboxTimeout
             else Inr \<lparr>sb_stdout = g_stdout g, sb_success = g_success g,
                       sb_operations = g_operations g\<rparr>)"

definition run_python_sandboxed ::
  "python \<Rightarrow> string \<Rightarrow> u64 \<Rightarrow> string list \<Rightarrow> sandbox_error + sandbox_result" where
  "run_python_sandboxed P code timeout allowed =
     (case py_thread P code (sat_add timeout 2) of
        ThreadTooLate \<Rightarrow> Inl SandboxTimeout
      | ThreadPanics \<Rightarrow> Inl (Unavailable ''panic inside Python GIL'')
      | ThreadDone \<Rightarrow> run_in_gil P code timeout allowed)"

section \<open>Packages\<close>

definition is_valid_package_name :: "string \<Rightarrow> bool" where
  "is_valid_package_name name \<longleftrightarrow>
     name \<noteq> [] \<and>
     list_all (\<lambda>ch. is_ascii_alphanumeric ch \<or> ch \<in> {''_'', ''-'', ''.''}) (chars_of name)"

datatype install_outcome = AlreadyPresent | Installed | InstallFailed string

definition ensure_one :: "python \<Rightarrow> string \<Rightarrow> install_outcome" where
  "ensure_one P pkg =
     (if \<not> is_valid_package_name pkg then InstallFailed ''invalid package name''
      else case py_venv P of
        None \<Rightarrow> InstallFailed ''Python environment unavailable''
      | Some venv_python \<Rightarrow>
          if py_importable P pkg then AlreadyPresent
          else case py_pip P pkg of
            PipOk \<Rightarrow> Installed
          | PipFails err \<Rightarrow>
              let ls = lines_of err
              in InstallFailed (trim (if ls = [] then ''pip install failed'' else last ls))
          | PipMissing err \<Rightarrow> InstallFailed err)"

definition ensure_packages_installed ::
  "python \<Rightarrow> string list \<Rightarrow> (string \<times> install_outcome) list" where
  "ensure_packages_installed P pkgs = map (\<lambda>pkg. (pkg, ensure_one P pkg)) pkgs"

end
