(* ===== verification/Estimator.thy ===== *)
theory Estimator
  imports Complex_Main Text Sandbox
begin

text \<open>
  The cost model (src/src/estimator.rs): static estimates of a Python script, the measured cost
  of a run, and timeouts derived from a reward.

  An f64 that can occur here is zero or a normal positive number: a rational number, and every
  operation rounds its exact result to 53 significant bits, ties to even (\<open>f64_round\<close>).
\<close>

section \<open>Floating point\<close>

text \<open>The exponent of the last place of a positive rational: \<open>2 ^ 52 \<le> x / 2 ^ e < 2 ^ 53\<close>.\<close>

definition pow2 :: "int \<Rightarrow> rat" where
  "pow2 k = (if 0 \<le> k then 2 ^ nat k else 1 / 2 ^ nat (- k))"

fun bits :: "nat \<Rightarrow> nat" where
  "bits n = (if n = 0 then 0 else Suc (bits (n div 2)))"

declare bits.simps [simp del]

definition last_place :: "rat \<Rightarrow> int" where
  "last_place x =
     (let (p, q) = quotient_of x; e = int (bits (nat p)) - int (bits (nat q)) - 53
      in if x / pow2 e < 2 ^ 53 then e else e + 1)"

definition round_half_even :: "rat \<Rightarrow> int" where
  "round_half_even x =
     (let n = floor x; r = x - of_int n
      in if r < 1 / 2 then n else if 1 / 2 < r then n + 1 else if even n then n else n + 1)"

type_synonym f64 = rat

definition f64_round :: "rat \<Rightarrow> f64" where
  "f64_round x =
     (if x \<le> 0 then 0
      else let e = last_place x in of_int (round_half_even (x / pow2 e)) * pow2 e)"

definition f64_mul :: "f64 \<Rightarrow> f64 \<Rightarrow> f64" where
  "f64_mul a b = f64_round (a * b)"

definition f64_div :: "f64 \<Rightarrow> f64 \<Rightarrow> f64" where
  "f64_div a b = f64_round (a / b)"

text \<open>\<open>as f64\<close> rounds, \<open>as u64\<close> truncates and saturates.\<close>

definition f64_of_u64 :: "u64 \<Rightarrow> f64" where
  "f64_of_u64 w = f64_round (of_nat (unat w))"

definition u64_of_f64 :: "f64 \<Rightarrow> u64" where
  "u64_of_f64 x = (let n = floor x in if n < 0 then 0 else if n < 2 ^ 64 then word_of_int n else - 1)"

section \<open>Metrics, configuration, errors\<close>

definition DEFAULT_RUN_TIMEOUT_SECS :: u64 where
  "DEFAULT_RUN_TIMEOUT_SECS = 10"

definition MIN_SUGGESTED_TIMEOUT_SECS :: u64 where
  "MIN_SUGGESTED_TIMEOUT_SECS = 1"

definition OPS_PER_CPU_SEC :: f64 where
  "OPS_PER_CPU_SEC = 1000000"

record resource_metrics =
  cpu_seconds :: f64
  peak_memory_mb :: u64
  wall_clock_seconds :: f64

definition no_metrics :: resource_metrics where
  "no_metrics = \<lparr>cpu_seconds = 0, peak_memory_mb = 0, wall_clock_seconds = 0\<rparr>"

record cost_config =
  base_fee :: u64
  cpu_rate :: u64
  memory_rate :: u64

definition default_costs :: cost_config where
  "default_costs = \<lparr>base_fee = 1, cpu_rate = 10, memory_rate = 1\<rparr>"

record measured_run =
  mr_digest :: string
  mr_stdout :: string
  mr_metrics :: resource_metrics

datatype estimator_error = EstTimeout measured_run | EstSandbox string

fun estimator_error_display :: "estimator_error \<Rightarrow> string" where
  "estimator_error_display (EstTimeout r) = ''script timed out''"
| "estimator_error_display (EstSandbox msg) = ''sandbox: '' @ msg"

record execution_estimate =
  estimated_cost :: u64
  suggested_timeout_secs :: u64
  unbounded_reason :: "string option"

section \<open>Static estimates\<close>

definition pre_estimate :: "cost_config \<Rightarrow> string \<Rightarrow> u64" where
  "pre_estimate cfg source =
     (let n_lines = usize_of (length (lines_of source));
          base = sat_add (base_fee cfg) n_lines;
          has = (\<lambda>pat. str_contains pat source);
          m = 1;
          m = (if has ''for '' \<or> has ''while '' then f64_mul m (f64_round (3 / 2)) else m);
          m = (if has ''import torch'' \<or> has ''import tensorflow'' \<or> has ''import tf''
               then f64_mul m 3 else m);
          m = (if has ''model.fit'' \<or> has ''.train('' \<or> has ''matmul'' \<or> has ''conv2d''
               then f64_mul m 2 else m);
          m = (if has ''open('' then f64_mul m (f64_round (6 / 5)) else m)
      in u64_of_f64 (f64_mul (f64_of_u64 base) m))"

definition suggest_timeout :: "cost_config \<Rightarrow> u64 \<Rightarrow> u64" where
  "suggest_timeout cfg cost =
     (let variable_cost = sat_sub cost (base_fee cfg); rate = max (cpu_rate cfg) 1
      in max (div_ceil variable_cost rate) MIN_SUGGESTED_TIMEOUT_SECS)"

definition detect_unbounded_python :: "string \<Rightarrow> string option" where
  "detect_unbounded_python source =
     (let compact = to_ascii_lowercase
            (concat (filter (\<lambda>ch. \<not> is_whitespace ch) (chars_of source)))
      in if str_contains ''whiletrue:'' compact \<or> str_contains ''while1:'' compact
           then Some ''unbounded while loop''
         else if str_contains ''itertools.count('' compact
           then Some ''unbounded itertools.count loop''
         else if str_contains ''repeat(None)'' compact
           then Some ''unbounded repeat loop''
         else None)"

definition estimate_python :: "cost_config \<Rightarrow> string \<Rightarrow> execution_estimate" where
  "estimate_python cfg source =
     (let cost = pre_estimate cfg source
      in \<lparr>estimated_cost = cost, suggested_timeout_secs = suggest_timeout cfg cost,
          unbounded_reason = detect_unbounded_python source\<rparr>)"

definition timeout_for_budget :: "cost_config \<Rightarrow> u64 \<Rightarrow> u64" where
  "timeout_for_budget cfg rew =
     (let rate = max (cpu_rate cfg) 1
      in max (div_ceil (sat_sub rew (base_fee cfg)) rate) MIN_SUGGESTED_TIMEOUT_SECS)"

section \<open>Measured runs\<close>

definition calculate_cost :: "cost_config \<Rightarrow> resource_metrics \<Rightarrow> u64" where
  "calculate_cost cfg ms =
     (let cpu_cost = u64_of_f64 (f64_mul (cpu_seconds ms) (f64_of_u64 (cpu_rate cfg)));
          mem_cost = sat_mul (peak_memory_mb ms) (memory_rate cfg)
      in sat_add (sat_add (base_fee cfg) cpu_cost) mem_cost)"

definition digest_stdout :: "crypto \<Rightarrow> bytes \<Rightarrow> string" where
  "digest_stdout C out = ''py-'' @ hex_encode C (sha256 C out)"

text \<open>The wall clock around the call is an argument, \<open>elapsed\<close>.\<close>

definition measure_via_sandbox ::
  "crypto \<Rightarrow> python \<Rightarrow> f64 \<Rightarrow> string \<Rightarrow> u64 \<Rightarrow> string list
     \<Rightarrow> estimator_error + measured_run" where
  "measure_via_sandbox C P elapsed source timeout allowed =
     (case run_python_sandboxed P source (max timeout 1) allowed of
        Inr res \<Rightarrow> Inr
          \<lparr>mr_digest = digest_stdout C (str_bytes (sb_stdout res)), mr_stdout = sb_stdout res,
           mr_metrics = \<lparr>cpu_seconds = f64_div (f64_of_u64 (sb_operations res)) OPS_PER_CPU_SEC,
                         peak_memory_mb = 0, wall_clock_seconds = elapsed\<rparr>\<rparr>
      | Inl SandboxTimeout \<Rightarrow> Inl (EstTimeout
          \<lparr>mr_digest = digest_stdout C [], mr_stdout = [],
           mr_metrics = \<lparr>cpu_seconds = elapsed, peak_memory_mb = 0,
                         wall_clock_seconds = elapsed\<rparr>\<rparr>)
      | Inl err \<Rightarrow> Inl (EstSandbox (sandbox_error_display err)))"

definition run_and_measure_with_timeout ::
  "crypto \<Rightarrow> python \<Rightarrow> f64 \<Rightarrow> string \<Rightarrow> u64 \<Rightarrow> estimator_error + string \<times> resource_metrics" where
  "run_and_measure_with_timeout C P elapsed source timeout =
     (case measure_via_sandbox C P elapsed source timeout default_allowed_packages of
        Inl err \<Rightarrow> Inl err
      | Inr run \<Rightarrow> Inr (mr_digest run, mr_metrics run))"

definition run_and_measure ::
  "crypto \<Rightarrow> python \<Rightarrow> f64 \<Rightarrow> string \<Rightarrow> estimator_error + string \<times> resource_metrics" where
  "run_and_measure C P elapsed source =
     run_and_measure_with_timeout C P elapsed source DEFAULT_RUN_TIMEOUT_SECS"

end
