(* ===== verification/Executor.thy ===== *)
theory Executor
  imports Estimator Outcomes
begin

text \<open>
  The worker's executor (src/src/executor.rs): decoding a payload, running it in the isolated
  interpreter within the budget its reward buys, the digest that the workers vote on, the cost
  of the run, and one round of claiming, computing and reporting a task.

  A panic of the source is the value None.
\<close>

section \<open>Data\<close>

definition DEFAULT_TIMEOUT_SECS :: u64 where
  "DEFAULT_TIMEOUT_SECS = 10"

record computed_result =
  cr_digest :: string
  cr_stdout :: string
  budget_exhausted :: bool
  cr_metrics :: resource_metrics

datatype payload = PythonPayload string bool \<comment> \<open>code in base64, gpu\<close> | UnknownPayload

record executor =
  worker_id :: participant_id
  ex_label :: string
  reliability_percent :: u8
  compute_ticks :: u64
  heartbeat_interval_ticks :: u64
  estimator :: "cost_config option"
  allowed_packages :: "string list"

datatype executor_event =
    IdleEvent
  | ProcessedTask participant_id string task_id project_id bool bool u64 string u64
      \<comment> \<open>worker, label, task, project, consensus reached, lease lost, reward, digest, cost\<close>

definition executor_new ::
  "participant_id \<Rightarrow> string \<Rightarrow> u8 \<Rightarrow> u64 \<Rightarrow> u64 \<Rightarrow> string list \<Rightarrow> executor" where
  "executor_new w label reliability ticks beat allowed =
     \<lparr>worker_id = w, ex_label = label, reliability_percent = min reliability 100,
      compute_ticks = max ticks 1, heartbeat_interval_ticks = beat,
      estimator = Some default_costs, allowed_packages = allowed\<rparr>"

section \<open>Payloads and digests\<close>

definition payload_parse :: "string \<Rightarrow> payload" where
  "payload_parse p =
     (case strip_prefix ''python-gpu:'' p of
        Some code \<Rightarrow> PythonPayload code True
      | None \<Rightarrow>
          (case strip_prefix ''python:'' p of
             Some code \<Rightarrow> PythonPayload code False
           | None \<Rightarrow> UnknownPayload))"

definition digest_only :: "string \<Rightarrow> computed_result" where
  "digest_only digest =
     \<lparr>cr_digest = digest, cr_stdout = digest, budget_exhausted = False, cr_metrics = no_metrics\<rparr>"

definition python_timeout_result ::
  "string \<Rightarrow> task_id \<Rightarrow> bool \<Rightarrow> string \<Rightarrow> resource_metrics \<Rightarrow> computed_result" where
  "python_timeout_result prefix tid budgeted partial_stdout ms =
     (let reason = (if budgeted then ''budget-exhausted'' else ''timeout'');
          digest = prefix @ ''-'' @ reason @ ''-'' @ hex_u64 tid
      in \<lparr>cr_digest = digest, cr_stdout = (if partial_stdout = [] then digest else partial_stdout),
          budget_exhausted = budgeted, cr_metrics = ms\<rparr>)"

text \<open>The first eight bytes of a hash as a big-endian number.\<close>

definition be_u64 :: "bytes \<Rightarrow> u64" where
  "be_u64 bs = fold (\<lambda>b w. w * 256 + ucast b) (take 8 bs) 0"

definition digest_from_stdout :: "crypto \<Rightarrow> string \<Rightarrow> string option" where
  "digest_from_stdout C out =
     map_option (\<lambda>truncated. ''python-ok-'' @ hex16 (be_u64 (sha256 C (str_bytes truncated))))
       (slice_to out (min (length out) 1024))"

text \<open>Whether bytes are valid UTF-8 is a parameter, the field \<open>utf8_ok\<close> below; a string is its
  bytes.\<close>

record text_ops =
  utf8_ok :: "bytes \<Rightarrow> bool"

definition string_of :: "bytes \<Rightarrow> string" where
  "string_of bs = map (\<lambda>b. char_of (unat b)) bs"

definition decode_python_source ::
  "crypto \<Rightarrow> text_ops \<Rightarrow> task_id \<Rightarrow> string \<Rightarrow> string \<Rightarrow> computed_result + string" where
  "decode_python_source C U tid code_b64 prefix =
     (case b64_decode C code_b64 of
        None \<Rightarrow> Inl (digest_only (prefix @ ''-error:bad-base64-'' @ hex_u64 tid))
      | Some bs \<Rightarrow>
          if utf8_ok U bs then Inr (string_of bs)
          else Inl (digest_only (prefix @ ''-error:invalid-utf8-'' @ hex_u64 tid)))"

section \<open>Running a payload\<close>

definition generates_corrupted_result :: "executor \<Rightarrow> task_id \<Rightarrow> string \<Rightarrow> bool" where
  "generates_corrupted_result ex tid code_b64 =
     (let payload_factor = usize_of (length code_b64) * 11;
          worker_factor = worker_id ex * 13;
          quality_index = (tid * 37 + payload_factor + worker_factor) mod 100
      in ucast (reliability_percent ex) \<le> quality_index)"

definition python_timeout :: "executor \<Rightarrow> string \<Rightarrow> u64 option \<Rightarrow> u64" where
  "python_timeout ex code budget =
     (case estimator ex of
        None \<Rightarrow> DEFAULT_TIMEOUT_SECS
      | Some cfg \<Rightarrow>
          (case budget of
             Some rew \<Rightarrow> timeout_for_budget cfg rew
           | None \<Rightarrow>
               min (max (suggested_timeout_secs (estimate_python cfg code)) 1)
                 DEFAULT_TIMEOUT_SECS))"

definition run_python_via_sandbox ::
  "crypto \<Rightarrow> python \<Rightarrow> executor \<Rightarrow> task_id \<Rightarrow> string \<Rightarrow> string \<Rightarrow> u64 \<Rightarrow> bool
     \<Rightarrow> computed_result option" where
  "run_python_via_sandbox C P ex tid prefix code timeout budgeted =
     (case run_python_sandboxed P code timeout (allowed_packages ex) of
        Inr res \<Rightarrow>
          map_option (\<lambda>d. \<lparr>cr_digest = d, cr_stdout = sb_stdout res, budget_exhausted = False,
                           cr_metrics = no_metrics\<rparr>)
            (digest_from_stdout C (sb_stdout res))
      | Inl SandboxTimeout \<Rightarrow> Some (python_timeout_result prefix tid budgeted [] no_metrics)
      | Inl err \<Rightarrow> Some (digest_only (prefix @ ''-sandbox-error-'' @ hex_u64 tid)))"

definition run_python_payload ::
  "crypto \<Rightarrow> text_ops \<Rightarrow> python \<Rightarrow> f64 \<Rightarrow> executor \<Rightarrow> task_id \<Rightarrow> string \<Rightarrow> bool \<Rightarrow> u64 option
     \<Rightarrow> computed_result option" where
  "run_python_payload C U P elapsed ex tid code_b64 gpu budget =
     (let prefix = (if gpu then ''python-gpu'' else ''python'')
      in case decode_python_source C U tid code_b64 ''python'' of
           Inl res \<Rightarrow> Some res
         | Inr code \<Rightarrow>
             let budgeted = (budget \<noteq> None); timeout = python_timeout ex code budget
             in if generates_corrupted_result ex tid code_b64
                  then Some (digest_only (prefix @ ''-corrupt-'' @ hex_u64 tid))
                else
                  (case estimator ex of
                     None \<Rightarrow> run_python_via_sandbox C P ex tid prefix code timeout budgeted
                   | Some cfg \<Rightarrow>
                       (case measure_via_sandbox C P elapsed code timeout (allowed_packages ex) of
                          Inr run \<Rightarrow>
                            map_option (\<lambda>d. \<lparr>cr_digest = d, cr_stdout = mr_stdout run,
                                budget_exhausted = False, cr_metrics = mr_metrics run\<rparr>)
                              (digest_from_stdout C (mr_stdout run))
                        | Inl (EstTimeout part) \<Rightarrow>
                            Some (python_timeout_result prefix tid budgeted (mr_stdout part)
                                    (mr_metrics part))
                        | Inl (EstSandbox msg) \<Rightarrow>
                            Some (digest_only (prefix @ ''-sandbox-error-'' @ hex_u64 tid)))))"

definition compute_result_with_budget ::
  "crypto \<Rightarrow> text_ops \<Rightarrow> python \<Rightarrow> f64 \<Rightarrow> executor \<Rightarrow> task_id \<Rightarrow> string \<Rightarrow> u64 option
     \<Rightarrow> computed_result option" where
  "compute_result_with_budget C U P elapsed ex tid p budget =
     (case payload_parse p of
        PythonPayload code_b64 gpu \<Rightarrow> run_python_payload C U P elapsed ex tid code_b64 gpu budget
      | UnknownPayload \<Rightarrow> Some (digest_only (''error:unknown-payload-'' @ hex_u64 tid)))"

definition actual_cost_of :: "executor \<Rightarrow> resource_metrics \<Rightarrow> u64 \<Rightarrow> bool \<Rightarrow> u64" where
  "actual_cost_of ex ms rew exhausted =
     (if exhausted then rew
      else case estimator ex of None \<Rightarrow> 0 | Some cfg \<Rightarrow> min (calculate_cost cfg ms) rew)"

definition execute_task_payload ::
  "crypto \<Rightarrow> text_ops \<Rightarrow> python \<Rightarrow> f64 \<Rightarrow> executor \<Rightarrow> task_id \<Rightarrow> string \<Rightarrow> u64
     \<Rightarrow> (computed_result \<times> u64) option" where
  "execute_task_payload C U P elapsed ex tid p rew =
     map_option (\<lambda>res. (res, actual_cost_of ex (cr_metrics res) rew (budget_exhausted res)))
       (compute_result_with_budget C U P elapsed ex tid p (Some rew))"

section \<open>A round of the executor on a local network\<close>

text \<open>
  The loop over the ticks of a computation: the error or the flag that the lease was lost, and
  the network. \<open>k\<close> ticks are left.
\<close>

fun compute_loop ::
  "hash_fun \<Rightarrow> executor \<Rightarrow> task_id \<Rightarrow> nat \<Rightarrow> u64 \<Rightarrow> network \<Rightarrow> bool result" where
  "compute_loop H ex tid 0 elapsed n = (Inr False, n)"
| "compute_loop H ex tid (Suc k) elapsed n =
     (let n = tick H 1 n;
          heartbeat_due = 0 < heartbeat_interval_ticks ex
            \<and> (elapsed + 1) mod heartbeat_interval_ticks ex = 0
            \<and> elapsed + 1 < compute_ticks ex
      in if heartbeat_due then
           (case heartbeat H (worker_id ex) tid n of
              (Inr _, n) \<Rightarrow> compute_loop H ex tid k (elapsed + 1) n
            | (Inl (TaskNotAssignedToWorker _ _), n) \<Rightarrow> (Inr True, n)
            | (Inl err, n) \<Rightarrow> (Inl err, n))
         else compute_loop H ex tid k (elapsed + 1) n)"

definition seal_for_owner ::
  "crypto \<Rightarrow> bytes32 \<Rightarrow> bytes \<Rightarrow> bytes32 option \<Rightarrow> string \<Rightarrow> encrypted_blob option option" where
  "seal_for_owner C ephemeral nonce owner_pk out =
     (case owner_pk of
        None \<Rightarrow> Some None
      | Some pk \<Rightarrow> map_option Some (encrypt_for C ephemeral nonce pk (str_bytes out)))"

definition process_next_task ::
  "crypto \<Rightarrow> text_ops \<Rightarrow> python \<Rightarrow> f64 \<Rightarrow> bytes32 \<Rightarrow> bytes \<Rightarrow> executor \<Rightarrow> network
     \<Rightarrow> executor_event result option" where
  "process_next_task C U P elapsed ephemeral nonce ex n =
     (case request_task (sha256 C) (worker_id ex) n of
        (Inl NoPendingTasks, n) \<Rightarrow> Some (Inr IdleEvent, n)
      | (Inl err, n) \<Rightarrow> Some (Inl err, n)
      | (Inr t, n) \<Rightarrow>
          (case compute_loop (sha256 C) ex (t_id t) (unat (compute_ticks ex)) 0 n of
             (Inl err, n) \<Rightarrow> Some (Inl err, n)
           | (Inr True, n) \<Rightarrow> Some (Inr (ProcessedTask (worker_id ex) (ex_label ex) (t_id t)
                 (t_project t) False True 0 ''lease-lost'' 0), n)
           | (Inr False, n) \<Rightarrow>
               Option.bind (execute_task_payload C U P elapsed ex (t_id t) (t_payload t) (t_reward t))
                 (\<lambda>(res, cost).
               Option.bind (seal_for_owner C ephemeral nonce
                   (Option.bind (hm_get (projects n) (t_project t)) owner_encryption_pubkey)
                   (cr_stdout res))
                 (\<lambda>enc.
               Some (case submit_result (sha256 C) (worker_id ex) (t_id t) (cr_digest res) cost enc n of
                  (Inr reached, n) \<Rightarrow> (Inr (ProcessedTask (worker_id ex) (ex_label ex) (t_id t)
                      (t_project t) reached False (t_reward t) (cr_digest res) cost), n)
                | (Inl (TaskNotAssignedToWorker _ _), n) \<Rightarrow>
                    (Inr (ProcessedTask (worker_id ex) (ex_label ex) (t_id t)
                      (t_project t) False True 0 (cr_digest res) cost), n)
                | (Inl err, n) \<Rightarrow> (Inl err, n))))))"

end
