(* ===== verification/Node.thy ===== *)
theory Node
  imports Snapshot Executor
begin

text \<open>
  The network actor (src/src/actor.rs): the peers a node is linked to and the gossip between
  them, the loop of a coordinator or worker with its timers and commands, the loop of a
  peer-to-peer node, what is stored on disk, and the worker's loop that claims and computes
  tasks.

  The tasks of the runtime share the engine, the peers and the set of seen hashes, each behind a
  lock. A handler here is one arm of a loop of the source, run without interruption; the engine
  changes only by one of its own operations under its lock, so what the development proves for
  every run of an engine holds for every interleaving. What a handler does outside the node
  (lines sent, events shown, files written, tasks spawned) is the list of effects it returns. A
  writer to a connection is the number of the connection.

  JSON, the hash of \<open>DefaultHasher\<close> (left open by the standard library) and the disk are the
  record \<open>wire\<close>, a parameter.
\<close>

section \<open>Parameters, state, effects\<close>

record wire =
  p2p_json :: "p2p_message \<Rightarrow> string option"
  p2p_parse :: "string \<Rightarrow> p2p_message option"
  consensus_json :: "consensus_msg \<Rightarrow> string option"
  hash_string :: "string \<Rightarrow> u64"
  hash_key :: "node_key \<Rightarrow> u64"
  hash_params :: "string \<Rightarrow> string \<Rightarrow> string \<Rightarrow> u64"
  chain_json :: "op_block list \<Rightarrow> bytes option"
  chain_parse :: "bytes \<Rightarrow> op_block list option"

type_synonym conn_id = nat

datatype node_role = RoleCoordinator | RoleWorker

record connection =
  peer_key :: "string option"
  peer_node_key :: "node_key option"

text \<open>Where the worker's loop stands: about to look for work, computing a task (id, payload,
  reward, key of the owner), waiting up to so many more times for its claim to commit, or dead
  after a panic.\<close>

datatype phase =
    Polling
  | Computing task_id string u64 "bytes32 option"
  | AwaitingClaim nat
  | Crashed

record worker_loop =
  wl_executor :: executor
  wl_processed :: "task_id set"
  wl_nonce :: u64
  wl_phase :: phase

record node =
  n_role :: node_role
  my_key :: node_key
  my_short :: string
  my_addr :: participant_id
  my_name :: string
  my_listen :: string
  n_engine :: engine
  n_peers :: "(string, conn_id) hmap"
  n_seen :: "u64 set"
  n_conns :: "(conn_id, connection) hmap"
  last_saved :: nat
  executor_handle :: "worker_loop option"

datatype effect =
    SendLine conn_id string
  | Emit app_event
  | SaveChain string "op_block list"
  | Dial string

type_synonym 'a step = "effect list \<times> 'a"

text \<open>The engine behind its lock.\<close>

definition with_engine :: "(engine \<Rightarrow> 'a \<times> engine) \<Rightarrow> node \<Rightarrow> 'a \<times> node" where
  "with_engine f n = (let (x, e) = f (n_engine n) in (x, n\<lparr>n_engine := e\<rparr>))"

definition node_address :: "node_key \<Rightarrow> participant_id" where
  "node_address key = fold (\<lambda>b w. w * 256 + ucast b) (rev (take 8 key)) 0"

section \<open>Gossip\<close>

definition msg_hash :: "wire \<Rightarrow> consensus_msg \<Rightarrow> u64" where
  "msg_hash W m = hash_string W (case consensus_json W m of None \<Rightarrow> [] | Some s \<Rightarrow> s)"

definition send_p2p :: "wire \<Rightarrow> conn_id \<Rightarrow> p2p_message \<Rightarrow> effect list" where
  "send_p2p W c msg = (case p2p_json W msg of None \<Rightarrow> [] | Some line \<Rightarrow> [SendLine c line])"

definition flood_envelope ::
  "wire \<Rightarrow> string option \<Rightarrow> p2p_message \<Rightarrow> node \<Rightarrow> effect list" where
  "flood_envelope W exclude env n =
     (case p2p_json W env of
        None \<Rightarrow> []
      | Some line \<Rightarrow>
          map (\<lambda>(addr, c). SendLine c line) (filter (\<lambda>(addr, c). Some addr \<noteq> exclude) (n_peers n)))"

fun flood_consensus ::
  "wire \<Rightarrow> string option \<Rightarrow> consensus_msg list \<Rightarrow> node \<Rightarrow> node step" where
  "flood_consensus W exclude [] n = ([], n)"
| "flood_consensus W exclude (m # ms) n =
     (let n = n\<lparr>n_seen := insert (msg_hash W m) (n_seen n)\<rparr>;
          out = flood_envelope W exclude (ConsensusEnv m) n;
          (out', n) = flood_consensus W exclude ms n
      in (out @ out', n))"

definition submit_and_flood :: "wire \<Rightarrow> ledger_op \<Rightarrow> node \<Rightarrow> node step" where
  "submit_and_flood W op n =
     (let (out, n) = with_engine (submit_local_op op) n in flood_consensus W None out n)"

section \<open>A connection\<close>

definition conn_open :: "wire \<Rightarrow> conn_id \<Rightarrow> node \<Rightarrow> node step" where
  "conn_open W c n =
     (send_p2p W c (PeerHello (my_key n) (my_listen n) (my_name n)),
      n\<lparr>n_conns := hm_insert c \<lparr>peer_key = None, peer_node_key = None\<rparr> (n_conns n)\<rparr>)"

definition on_hello ::
  "crypto \<Rightarrow> wire \<Rightarrow> conn_id \<Rightarrow> node_key \<Rightarrow> node \<Rightarrow> node step" where
  "on_hello C W c key n =
     (let hex = hex_encode C key;
          n = n\<lparr>n_conns := hm_insert c \<lparr>peer_key = Some hex, peer_node_key = Some key\<rparr> (n_conns n),
                n_peers := hm_insert hex c (n_peers n)\<rparr>;
          (known, n) = with_engine (\<lambda>e. let e = add_validator key e in (validators e, e)) n;
          told = concat (map (\<lambda>v. send_p2p W c (ValidatorMsg v)) known);
          relayed = flood_envelope W (Some hex) (ValidatorMsg key) n;
          e = n_engine n;
          request = send_p2p W c (ConsensusEnv (SyncRequest (e_next_index e)));
          pending = concat (map (\<lambda>op. send_p2p W c (ConsensusEnv (OpMsg op))) (mempool e))
      in (told @ relayed @ request @ pending, n))"

definition on_validator ::
  "wire \<Rightarrow> connection \<Rightarrow> node_key \<Rightarrow> node \<Rightarrow> node step" where
  "on_validator W conn key n =
     (let h = hash_key W key
      in if h \<in> n_seen n then ([], n)
         else
           let n = n\<lparr>n_seen := insert h (n_seen n), n_engine := add_validator key (n_engine n)\<rparr>
           in (flood_envelope W (peer_key conn) (ValidatorMsg key) n, n))"

definition is_gossip :: "consensus_msg \<Rightarrow> bool" where
  "is_gossip m =
     (case m of OpMsg _ \<Rightarrow> True | Propose _ \<Rightarrow> True | Vote _ _ _ _ \<Rightarrow> True | Committed _ \<Rightarrow> True
      | SyncRequest _ \<Rightarrow> False | SyncResponse _ \<Rightarrow> False)"

fun answer :: "wire \<Rightarrow> conn_id \<Rightarrow> consensus_msg list \<Rightarrow> node \<Rightarrow> node step" where
  "answer W c [] n = ([], n)"
| "answer W c (m # ms) n =
     (let (out, n) = (case m of SyncResponse _ \<Rightarrow> (send_p2p W c (ConsensusEnv m), n)
                              | _ \<Rightarrow> flood_consensus W None [m] n);
          (out', n) = answer W c ms n
      in (out @ out', n))"

definition process_consensus ::
  "crypto \<Rightarrow> wire \<Rightarrow> conn_id \<Rightarrow> consensus_msg \<Rightarrow> node \<Rightarrow> node step" where
  "process_consensus C W c m n =
     (let (produced, n) = with_engine (on_message C m) n in answer W c produced n)"

definition on_consensus ::
  "crypto \<Rightarrow> wire \<Rightarrow> conn_id \<Rightarrow> connection \<Rightarrow> consensus_msg \<Rightarrow> node \<Rightarrow> node step" where
  "on_consensus C W c conn m n =
     (if is_gossip m then
        if msg_hash W m \<in> n_seen n then ([], n)
        else
          let n = n\<lparr>n_seen := insert (msg_hash W m) (n_seen n)\<rparr>;
              relayed = flood_envelope W (peer_key conn) (ConsensusEnv m) n;
              (out, n) = process_consensus C W c m n
          in (relayed @ out, n)
      else process_consensus C W c m n)"

definition conn_receive ::
  "crypto \<Rightarrow> wire \<Rightarrow> conn_id \<Rightarrow> string \<Rightarrow> node \<Rightarrow> node step" where
  "conn_receive C W c line n =
     (case hm_get (n_conns n) c of
        None \<Rightarrow> ([], n)
      | Some conn \<Rightarrow>
          (case p2p_parse W line of
             None \<Rightarrow> ([], n)
           | Some (PeerHello key _ _) \<Rightarrow> on_hello C W c key n
           | Some (ValidatorMsg key) \<Rightarrow> on_validator W conn key n
           | Some (PeersMsg _) \<Rightarrow> ([], n)
           | Some (ConsensusEnv m) \<Rightarrow> on_consensus C W c conn m n))"

definition conn_close :: "conn_id \<Rightarrow> node \<Rightarrow> node step" where
  "conn_close c n =
     (case hm_get (n_conns n) c of
        None \<Rightarrow> ([], n)
      | Some conn \<Rightarrow>
          let n = (case peer_key conn of
                     None \<Rightarrow> n | Some key \<Rightarrow> n\<lparr>n_peers := hm_remove key (n_peers n)\<rparr>);
              n = (case peer_node_key conn of
                     None \<Rightarrow> n | Some key \<Rightarrow> n\<lparr>n_engine := mark_inactive key (n_engine n)\<rparr>)
          in ([Emit (LogEvent ''Peer connection closed'')],
              n\<lparr>n_conns := hm_remove c (n_conns n)\<rparr>))"

text \<open>The result of a dial, and a connection that the listener accepts.\<close>

definition dial_result ::
  "wire \<Rightarrow> string \<Rightarrow> string + conn_id \<Rightarrow> node \<Rightarrow> node step" where
  "dial_result W addr res n =
     (case res of
        Inl err \<Rightarrow> ([Emit (LogEvent (''Dial '' @ addr @ '' failed: '' @ err))], n)
      | Inr c \<Rightarrow>
          let (out, n) = conn_open W c n
          in (Emit (LogEvent (''Dialed peer '' @ addr)) # out, n))"

definition accept_peer :: "wire \<Rightarrow> string \<Rightarrow> conn_id \<Rightarrow> node \<Rightarrow> node step" where
  "accept_peer W addr c n =
     (let (out, n) = conn_open W c n in (Emit (LogEvent (''Peer connected: '' @ addr)) # out, n))"

end
