(* ===== verification/Driver.thy ===== *)
theory Driver
  imports Node
begin

text \<open>
  The loops of a node (src/src/actor.rs, continued): starting a coordinator, a worker or a
  peer-to-peer node, its timers, the commands of the user interface, the worker's loop, and the
  dispatch of commands to the three kinds of node. A timer that fires, a command that arrives, a
  line that is received are the events of a node; a run is any sequence of events.
\<close>

section \<open>Files\<close>

definition chain_path :: "crypto \<Rightarrow> string \<Rightarrow> node_key \<Rightarrow> string" where
  "chain_path C data_dir key =
     data_dir @ ''/boinc-quota/chain-'' @ hex_encode C (take 8 key) @ ''.json''"

definition load_chain :: "wire \<Rightarrow> bytes option \<Rightarrow> op_block list" where
  "load_chain W stored =
     (case Option.bind stored (chain_parse W) of None \<Rightarrow> [] | Some bs \<Rightarrow> bs)"

text \<open>The bytes written, when any are.\<close>

definition save_chain :: "wire \<Rightarrow> op_block list \<Rightarrow> bytes option" where
  "save_chain W bs = chain_json W bs"

text \<open>The identity file of a node: the default one when the variable BOINC_IDENTITY is set,
  otherwise one that depends on the role, the address and the name.\<close>

definition resolve_identity ::
  "wire \<Rightarrow> string option \<Rightarrow> string option \<Rightarrow> string \<Rightarrow> string \<Rightarrow> string \<Rightarrow> string" where
  "resolve_identity W env home role addr name =
     (if env \<noteq> None then default_path env home
      else home_or_dot home @ ''/.boinc-quota/identity-'' @ hex16 (hash_params W role addr name) @ ''.json'')"

section \<open>Starting\<close>

definition ensure_packages :: "python \<Rightarrow> string list \<Rightarrow> effect list" where
  "ensure_packages P pkgs =
     (if py_venv P = None then
        [Emit (LogEvent (''Python environment setup failed: ''
           @ ''Python environment unavailable (no bundled or system Python 3.10+)''))]
      else if pkgs = [] then []
      else List.map_filter (\<lambda>(name, outcome).
        case outcome of
          AlreadyPresent \<Rightarrow> None
        | Installed \<Rightarrow> Some (Emit (LogEvent (''Installed package '' @ [CHR 0x27] @ name @ [CHR 0x27])))
        | InstallFailed e \<Rightarrow> Some (Emit (LogEvent (''Failed to install '' @ [CHR 0x27] @ name
            @ [CHR 0x27] @ '': '' @ e))))
        (ensure_packages_installed P pkgs))"

definition worker_loop_new ::
  "participant_id \<Rightarrow> u8 \<Rightarrow> u64 \<Rightarrow> string list \<Rightarrow> worker_loop" where
  "worker_loop_new addr reliability ticks pkgs =
     \<lparr>wl_executor = executor_new addr ''rsm-executor'' reliability (max ticks 1) 1 pkgs,
      wl_processed = {}, wl_nonce = 0, wl_phase = Polling\<rparr>"

definition start_executor ::
  "python \<Rightarrow> u8 \<Rightarrow> u64 \<Rightarrow> string list \<Rightarrow> node \<Rightarrow> node step" where
  "start_executor P reliability ticks pkgs n =
     (ensure_packages P pkgs @ [Emit ExecutorStarted, Emit (LogEvent ''Executor started'')],
      n\<lparr>executor_handle := Some (worker_loop_new (my_addr n) reliability ticks pkgs)\<rparr>)"

definition node_new ::
  "crypto \<Rightarrow> node_role \<Rightarrow> identity \<Rightarrow> string \<Rightarrow> string \<Rightarrow> node" where
  "node_new C role i listen name =
     (let key = public_key_bytes C i
      in \<lparr>n_role = role, my_key = key, my_short = public_key_short C i, my_addr = node_address key,
          my_name = name, my_listen = listen, n_engine = engine_new C i [], n_peers = [],
          n_seen = {}, n_conns = [], last_saved = 1, executor_handle = None\<rparr>)"

definition register_self :: "wire \<Rightarrow> u64 \<Rightarrow> node \<Rightarrow> node step" where
  "register_self W balance n =
     submit_and_flood W (RegisterParticipant (my_addr n) (my_name n) (my_key n) balance) n"

definition dials :: "string list \<Rightarrow> effect list" where
  "dials bootstrap = map Dial (filter (\<lambda>a. a \<noteq> []) (map trim bootstrap))"

text \<open>The result of binding the listen address is an argument: None, or the error.\<close>

definition role_start ::
  "crypto \<Rightarrow> wire \<Rightarrow> python \<Rightarrow> node_role \<Rightarrow> identity \<Rightarrow> string option \<Rightarrow> string option
     \<Rightarrow> bytes option \<Rightarrow> string list \<Rightarrow> string \<Rightarrow> u64 \<Rightarrow> string list \<Rightarrow> node option step" where
  "role_start C W P role i listen bind_error stored bootstrap name balance pkgs =
     (let n = node_new C role i (case listen of None \<Rightarrow> [] | Some a \<Rightarrow> a) name;
          hello = [Emit (IdentityEvent (my_short n) (encryption_pubkey_short C i))];
          bound = (case listen of None \<Rightarrow> [] | Some a \<Rightarrow> [Emit (LogEvent (''Listening on '' @ a))])
      in case (listen, bind_error) of
           (Some a, Some err) \<Rightarrow>
             (hello @ [Emit (ErrorEvent (''Bind '' @ a @ '': '' @ err))], None)
         | _ \<Rightarrow>
             let saved = load_chain W stored;
                 restore = (role = RoleCoordinator \<and> saved \<noteq> []);
                 n = (if restore then n\<lparr>n_engine := restore_chain C saved (n_engine n)\<rparr> else n);
                 n = n\<lparr>last_saved := length (e_chain (n_engine n))\<rparr>;
                 restored = (if restore then
                     [Emit (LogEvent (''Restored chain: ''
                        @ show_u64 (usize_of (length (e_chain (n_engine n)))) @ '' blocks''))]
                   else []);
                 (registered, n) = register_self W balance n;
                 (started, n) =
                   (if role = RoleWorker
                    then start_executor P 95 2 (default_allowed_packages @ pkgs) n else ([], n))
             in (hello @ bound @ [Emit (LogEvent (''Identity: '' @ my_short n))] @ restored
                   @ [Emit Connected, Emit (Registered (my_addr n))] @ registered
                   @ dials bootstrap @ started,
                 Some n))"

section \<open>Timers\<close>

definition round_step :: "crypto \<Rightarrow> wire \<Rightarrow> string \<Rightarrow> bool \<Rightarrow> node \<Rightarrow> node step" where
  "round_step C W data_dir after_grace n =
     (let (msgs, n) = (if after_grace then with_engine (try_propose C) n else ([], n));
          (out, n) = flood_consensus W None msgs n;
          e = n_engine n;
          to_save = (n_role n = RoleCoordinator \<and> length (e_chain e) \<noteq> last_saved n);
          snap = build_snapshot C (e_state e);
          saves = (if to_save then [SaveChain (chain_path C data_dir (my_key n)) (e_chain e)] else []);
          n = (if to_save then n\<lparr>last_saved := length (e_chain e)\<rparr> else n)
      in (out @ saves @ [Emit (StateUpdate snap)], n))"

definition clock_step :: "wire \<Rightarrow> node \<Rightarrow> node step" where
  "clock_step W n =
     (if n_role n = RoleCoordinator then
        let need_tick = 0 < lease_count (e_state (n_engine n))
        in if need_tick then submit_and_flood W (Tick 1) n else ([], n)
      else ([], n))"

definition sync_step :: "wire \<Rightarrow> node \<Rightarrow> node step" where
  "sync_step W n =
     (let e = n_engine n
      in flood_consensus W None (SyncRequest (e_next_index e) # map OpMsg (mempool e)) n)"

section \<open>Commands\<close>

definition donate_step :: "wire \<Rightarrow> project_id \<Rightarrow> u64 \<Rightarrow> node \<Rightarrow> node step" where
  "donate_step W pid amount n =
     (let st = e_state (n_engine n);
          balance = network_balance_of (my_addr n) st;
          project_exists = hm_has (projects st) pid
      in if \<not> project_exists then
           ([Emit (LogEvent (''Donate failed: project #'' @ show_u64 pid @ '' not found''))], n)
         else if balance < amount then
           ([Emit (LogEvent (''Donate failed: balance '' @ show_u64 balance @ '' < ''
               @ show_u64 amount))], n)
         else
           let (out, n) = submit_and_flood W (DonateToProject (my_addr n) pid amount) n
           in (out @ [Emit (LogEvent (''Donated '' @ show_u64 amount @ '' to project #''
                 @ show_u64 pid))], n))"

text \<open>Disconnect leaves the loop: the second component of the result.\<close>

definition stop_node :: "crypto \<Rightarrow> wire \<Rightarrow> string \<Rightarrow> node \<Rightarrow> effect list" where
  "stop_node C W data_dir n =
     (if n_role n = RoleCoordinator
      then [SaveChain (chain_path C data_dir (my_key n)) (e_chain (n_engine n))] else [])
     @ [Emit (Disconnected ''stopped'')]"

definition command_step ::
  "crypto \<Rightarrow> wire \<Rightarrow> python \<Rightarrow> string \<Rightarrow> app_command \<Rightarrow> node \<Rightarrow> node option step" where
  "command_step C W P data_dir cmd n =
     (let go = (\<lambda>(out, n). (out, Some n)) in
      case cmd of
        Disconnect \<Rightarrow> (stop_node C W data_dir n, None)
      | CmdCreateProject nm enc \<Rightarrow> go (submit_and_flood W (CreateProject (my_addr n) nm enc) n)
      | CmdFundProject pid amount \<Rightarrow> go (submit_and_flood W (FundProject (my_addr n) pid amount) n)
      | CmdDonateToProject pid amount \<Rightarrow> go (donate_step W pid amount n)
      | CmdSubmitTask pid rew p \<Rightarrow> go (submit_and_flood W (SubmitTask (my_addr n) pid rew p) n)
      | SendTokens dst amount \<Rightarrow>
          go (submit_and_flood W (TransferOp (my_addr n) dst amount ''transfer'') n)
      | StartExecutor reliability ticks pkgs \<Rightarrow>
          if executor_handle n = None then go (start_executor P reliability ticks pkgs n)
          else ([], Some n)
      | StopExecutor \<Rightarrow>
          if executor_handle n = None then ([], Some n)
          else ([Emit ExecutorStopped, Emit (LogEvent ''Executor stopped'')],
                Some (n\<lparr>executor_handle := None\<rparr>))
      | _ \<Rightarrow> ([], Some n))"

section \<open>The worker's loop\<close>

definition my_assignment :: "participant_id \<Rightarrow> task_id set \<Rightarrow> task \<Rightarrow> bool" where
  "my_assignment addr processed t \<longleftrightarrow>
     (case t_status t of Assigned w _ \<Rightarrow> w = addr | _ \<Rightarrow> False) \<and> t_id t \<notin> processed"

definition find_job :: "participant_id \<Rightarrow> task_id set \<Rightarrow> network \<Rightarrow> phase option" where
  "find_job addr processed st =
     map_option (\<lambda>t. Computing (t_id t) (t_payload t) (t_reward t)
         (Option.bind (hm_get (projects st) (t_project t)) owner_encryption_pubkey))
       (find (my_assignment addr processed) (all_tasks st))"

definition set_loop :: "worker_loop \<Rightarrow> node \<Rightarrow> node" where
  "set_loop l n = n\<lparr>executor_handle := Some l\<rparr>"

text \<open>The loop up to the start of a computation, or to the wait for a claim.\<close>

definition executor_poll :: "wire \<Rightarrow> worker_loop \<Rightarrow> node \<Rightarrow> node step" where
  "executor_poll W l n =
     (let st = e_state (n_engine n)
      in case find_job (my_addr n) (wl_processed l) st of
           Some (Computing tid p rew enc) \<Rightarrow>
             ([], set_loop (l\<lparr>wl_processed := insert tid (wl_processed l),
                              wl_phase := Computing tid p rew enc\<rparr>) n)
         | _ \<Rightarrow>
             if \<not> 0 < pending_count st then ([], n)
             else
               let l = l\<lparr>wl_nonce := wl_nonce l + 1, wl_phase := AwaitingClaim 8\<rparr>
               in submit_and_flood W (RequestTask (my_addr n) (wl_nonce l)) (set_loop l n))"

definition arrow :: string where
  "arrow = [CHR 0xE2, CHR 0x86, CHR 0x92]"

definition executor_report ::
  "crypto \<Rightarrow> wire \<Rightarrow> text_ops \<Rightarrow> python \<Rightarrow> f64 \<Rightarrow> bytes32 \<Rightarrow> bytes \<Rightarrow> worker_loop
     \<Rightarrow> task_id \<Rightarrow> string \<Rightarrow> u64 \<Rightarrow> bytes32 option \<Rightarrow> node \<Rightarrow> node step" where
  "executor_report C W U P elapsed ephemeral nonce l tid p rew enc n =
     (let polling = set_loop (l\<lparr>wl_phase := Polling\<rparr>) n
      in case execute_task_payload C U P elapsed (wl_executor l) tid p rew of
           None \<Rightarrow> ([], polling)
         | Some (res, cost) \<Rightarrow>
             (case seal_for_owner C ephemeral nonce enc (cr_stdout res) of
                None \<Rightarrow> ([], set_loop (l\<lparr>wl_phase := Crashed\<rparr>) n)
              | Some sealed \<Rightarrow>
                  let (out, n) = submit_and_flood W
                        (SubmitResult (my_addr n) tid (cr_digest res) cost sealed) polling
                  in (Emit (LogEvent (''Computed task #'' @ show_u64 tid @ '' '' @ arrow @ '' ''
                        @ cr_digest res)) # out, n)))"

definition executor_wait :: "worker_loop \<Rightarrow> nat \<Rightarrow> node \<Rightarrow> node step" where
  "executor_wait l k n =
     (let got = (\<exists>t\<in>set (all_tasks (e_state (n_engine n))).
            my_assignment (my_addr n) (wl_processed l) t)
      in ([], set_loop (l\<lparr>wl_phase := (if got \<or> k = 0 then Polling else AwaitingClaim k)\<rparr>) n))"

definition executor_step ::
  "crypto \<Rightarrow> wire \<Rightarrow> text_ops \<Rightarrow> python \<Rightarrow> f64 \<Rightarrow> bytes32 \<Rightarrow> bytes \<Rightarrow> node \<Rightarrow> node step" where
  "executor_step C W U P elapsed ephemeral nonce n =
     (case executor_handle n of
        None \<Rightarrow> ([], n)
      | Some l \<Rightarrow>
          (case wl_phase l of
             Polling \<Rightarrow> executor_poll W l n
           | Computing tid p rew enc \<Rightarrow>
               executor_report C W U P elapsed ephemeral nonce l tid p rew enc n
           | AwaitingClaim k \<Rightarrow> executor_wait l (k - 1) n
           | Crashed \<Rightarrow> ([], n)))"

section \<open>A peer-to-peer node\<close>

text \<open>The node of the mode without roles; its record has the role of a coordinator, which no
  step of this loop reads.\<close>

definition p2p_start ::
  "crypto \<Rightarrow> wire \<Rightarrow> identity \<Rightarrow> string \<Rightarrow> string option \<Rightarrow> string list \<Rightarrow> string \<Rightarrow> u64
     \<Rightarrow> node option step" where
  "p2p_start C W i listen bind_error bootstrap name balance =
     (case bind_error of
        Some err \<Rightarrow> ([Emit (ErrorEvent (''Bind '' @ listen @ '': '' @ err))], None)
      | None \<Rightarrow>
          let n = node_new C RoleCoordinator i listen name;
              (registered, n) = register_self W balance n
          in ([Emit (LogEvent (''P2P node listening on '' @ listen)),
               Emit (LogEvent (''Identity: '' @ my_short n)), Emit Connected,
               Emit (Registered (my_addr n))] @ registered @ dials bootstrap, Some n))"

definition p2p_round_step :: "crypto \<Rightarrow> wire \<Rightarrow> bool \<Rightarrow> node \<Rightarrow> node step" where
  "p2p_round_step C W after_grace n =
     (let (msgs, n) = (if after_grace then with_engine (try_propose C) n else ([], n));
          (out, n) = flood_consensus W None msgs n;
          snap = build_p2p_snapshot C (n_engine n) (length (n_peers n)) (my_addr n) (my_short n)
      in (out @ [Emit (P2pUpdate snap)], n))"

definition p2p_sync_step :: "wire \<Rightarrow> node \<Rightarrow> node step" where
  "p2p_sync_step W n =
     (let e = n_engine n
      in flood_consensus W None (SyncRequest (e_next_index e) # map OpMsg (mempool e)) n)"

definition p2p_command_step :: "wire \<Rightarrow> app_command \<Rightarrow> node \<Rightarrow> node option step" where
  "p2p_command_step W cmd n =
     (case cmd of
        Disconnect \<Rightarrow> ([Emit (Disconnected ''left mesh'')], None)
      | SendTokens dst amount \<Rightarrow>
          let (out, n) =
            submit_and_flood W (TransferOp (my_addr n) dst amount ''p2p-transfer'') n
          in (out @ [Emit (LogEvent (''Queued transfer '' @ show_u64 amount @ '' '' @ arrow
                @ '' #'' @ show_u64 dst))], Some n)
      | _ \<Rightarrow> ([], Some n))"

section \<open>The dispatcher\<close>

text \<open>What \<open>NetworkActor::run\<close> does with a command that arrives while no node is running.\<close>

datatype launch =
    LaunchRole node_role "string option" "string list" string u64 "string list"
      \<comment> \<open>role, listen address, bootstrap, name, balance, packages\<close>
  | LaunchP2p string "string list" string u64
  | NoLaunch

definition actor_dispatch :: "app_command \<Rightarrow> launch" where
  "actor_dispatch cmd =
     (case cmd of
        ConnectCoordinator listen name balance q coords \<Rightarrow>
          LaunchRole RoleCoordinator (Some listen) coords name balance []
      | ConnectWorker coord name balance pkgs \<Rightarrow>
          LaunchRole RoleWorker None [coord] name balance pkgs
      | JoinP2P listen bootstrap name balance \<Rightarrow> LaunchP2p listen bootstrap name balance
      | _ \<Rightarrow> NoLaunch)"

section \<open>Runs of a coordinator or worker\<close>

datatype node_event =
    RoundTimer bool \<comment> \<open>whether the grace period is over\<close>
  | ClockTimer
  | SyncTimer
  | Command app_command
  | Accepted string conn_id
  | Dialed string "string + conn_id"
  | Line conn_id string
  | Closed conn_id
  | ExecutorTurn f64 bytes32 bytes \<comment> \<open>wall clock, ephemeral secret, nonce\<close>

record world =
  w_crypto :: crypto
  w_wire :: wire
  w_text :: text_ops
  w_python :: python
  w_data_dir :: string

fun node_step :: "world \<Rightarrow> node_event \<Rightarrow> node \<Rightarrow> node option step" where
  "node_step E (RoundTimer g) n =
     map_prod id Some (round_step (w_crypto E) (w_wire E) (w_data_dir E) g n)"
| "node_step E ClockTimer n = map_prod id Some (clock_step (w_wire E) n)"
| "node_step E SyncTimer n = map_prod id Some (sync_step (w_wire E) n)"
| "node_step E (Command cmd) n =
     command_step (w_crypto E) (w_wire E) (w_python E) (w_data_dir E) cmd n"
| "node_step E (Accepted addr c) n = map_prod id Some (accept_peer (w_wire E) addr c n)"
| "node_step E (Dialed addr res) n = map_prod id Some (dial_result (w_wire E) addr res n)"
| "node_step E (Line c line) n =
     map_prod id Some (conn_receive (w_crypto E) (w_wire E) c line n)"
| "node_step E (Closed c) n = map_prod id Some (conn_close c n)"
| "node_step E (ExecutorTurn elapsed ephemeral nonce) n =
     map_prod id Some (executor_step (w_crypto E) (w_wire E) (w_text E) (w_python E)
       elapsed ephemeral nonce n)"

text \<open>A run ends when the node disconnects.\<close>

fun node_run :: "world \<Rightarrow> node_event list \<Rightarrow> node \<Rightarrow> node option step" where
  "node_run E [] n = ([], Some n)"
| "node_run E (ev # evs) n =
     (case node_step E ev n of
        (out, None) \<Rightarrow> (out, None)
      | (out, Some n) \<Rightarrow> let (out', r) = node_run E evs n in (out @ out', r))"

end
