(* ===== verification/Gossip.thy ===== *)
theory Gossip
  imports Driver
begin

text \<open>
  Properties of a running node: every run of a node drives its engine through a run of the
  engine, so the theorems about engines hold in every node; a message of the gossip is processed
  and relayed once; operations that repeat an earlier one are lost; and what happens to the
  membership when connections come and go.
\<close>

section \<open>What the handlers change\<close>

lemma flood_consensus_state:
  "snd (flood_consensus W x ms n) = n\<lparr>n_seen := msg_hash W ` set ms \<union> n_seen n\<rparr>"
  by (induction ms arbitrary: n) (simp_all add: case_prod_beta Let_def)

definition echoed :: "consensus_msg \<Rightarrow> bool" where
  "echoed m = (case m of SyncResponse _ \<Rightarrow> False | _ \<Rightarrow> True)"

lemma answer_state:
  "snd (answer W c ms n) = n\<lparr>n_seen := msg_hash W ` set (filter echoed ms) \<union> n_seen n\<rparr>"
  by (induction ms arbitrary: n)
    (auto simp: case_prod_beta Let_def echoed_def split: consensus_msg.split)

declare flood_consensus.simps(2) [simp del] answer.simps(2) [simp del]

lemma submit_and_flood_state:
  "snd (submit_and_flood W op n) =
     n\<lparr>n_engine := snd (submit_local_op op (n_engine n)),
       n_seen := msg_hash W ` set (fst (submit_local_op op (n_engine n))) \<union> n_seen n\<rparr>"
  by (simp add: submit_and_flood_def with_engine_def case_prod_beta Let_def flood_consensus_state)

lemma process_consensus_state:
  "snd (process_consensus C W c m n) =
     n\<lparr>n_engine := snd (on_message C m (n_engine n)),
       n_seen := msg_hash W ` set (filter echoed (fst (on_message C m (n_engine n)))) \<union> n_seen n\<rparr>"
  by (simp add: process_consensus_def with_engine_def case_prod_beta Let_def answer_state)

section \<open>The engine inside a node\<close>

text \<open>An engine reaches another one by a run.\<close>

definition reaches :: "crypto \<Rightarrow> engine \<Rightarrow> engine \<Rightarrow> bool" where
  "reaches C e e' \<longleftrightarrow> (\<exists>evs. e' = snd (engine_run C evs e))"

lemma reaches_refl [simp, intro]: "reaches C e e"
  by (auto simp: reaches_def intro: exI [where x = "[]"])

lemma engine_run_append:
  "snd (engine_run C (evs @ evs') e) = snd (engine_run C evs' (snd (engine_run C evs e)))"
  using engine_runs.run_append [of C evs evs' e] by simp

lemma reaches_trans: "reaches C a b \<Longrightarrow> reaches C b c \<Longrightarrow> reaches C a c"
  unfolding reaches_def by (metis engine_run_append)

lemma reaches_step: "reaches C e (snd (engine_step C ev e))"
  unfolding reaches_def by (intro exI [where x = "[ev]"]) (simp add: engine_run_parts)

lemma reaches_events [simp, intro]:
  "reaches C e (snd (on_message C m e))" "reaches C e (snd (submit_local_op op e))"
  "reaches C e (snd (try_propose C e))" "reaches C e (add_validator key e)"
  "reaches C e (mark_inactive key e)"
  using reaches_step [of C e "Receive m"] reaches_step [of C e "SubmitLocal op"]
    reaches_step [of C e TryPropose] reaches_step [of C e "LinkUp key"]
    reaches_step [of C e "LinkDown key"] by simp_all

text \<open>A node moves to another one: its engine by a run, its seen hashes only grow, and it keeps
  its key, role and address.\<close>

definition moves :: "crypto \<Rightarrow> node \<Rightarrow> node \<Rightarrow> bool" where
  "moves C n n' \<longleftrightarrow> reaches C (n_engine n) (n_engine n') \<and> n_seen n \<subseteq> n_seen n'
     \<and> my_key n' = my_key n \<and> n_role n' = n_role n \<and> my_addr n' = my_addr n"

lemma moves_refl [simp, intro]: "moves C n n"
  by (simp add: moves_def)

lemma moves_trans: "moves C a b \<Longrightarrow> moves C b c \<Longrightarrow> moves C a c"
  by (auto simp: moves_def intro: reaches_trans)

lemma moves_submit [simp, intro]: "moves C n (snd (submit_and_flood W op n))"
  by (auto simp: moves_def submit_and_flood_state)

lemma moves_conn_open [simp, intro]: "moves C n (snd (conn_open W c n))"
  by (simp add: moves_def conn_open_def)

lemma moves_hello: "moves C n (snd (on_hello C W c key n))"
  by (simp add: moves_def on_hello_def with_engine_def Let_def)

lemma moves_validator: "moves C n (snd (on_validator W conn key n))"
  by (auto simp: moves_def on_validator_def Let_def)

lemma moves_process: "moves C n (snd (process_consensus C W c m n))"
  by (auto simp: moves_def process_consensus_state)

lemma moves_consensus: "moves C n (snd (on_consensus C W c conn m n))"
proof -
  let ?n = "n\<lparr>n_seen := insert (msg_hash W m) (n_seen n)\<rparr>"
  have "moves C n ?n"
    by (auto simp: moves_def)
  then have "moves C n (snd (process_consensus C W c m ?n))"
    by (rule moves_trans [OF _ moves_process])
  then show ?thesis
    using moves_process [of C n W c m] by (simp add: on_consensus_def Let_def case_prod_beta)
qed

lemma moves_receive: "moves C n (snd (conn_receive C W c line n))"
  by (auto simp: conn_receive_def moves_hello moves_validator moves_consensus
      split: option.split p2p_message.split)

lemma moves_close: "moves C n (snd (conn_close c n))"
  by (auto simp: moves_def conn_close_def Let_def split: option.split)

lemma moves_round: "moves C n (snd (round_step C W d g n))"
  by (auto simp: moves_def round_step_def with_engine_def case_prod_beta Let_def
      flood_consensus_state)

lemma moves_sync: "moves C n (snd (sync_step W n))"
  by (auto simp: moves_def sync_step_def Let_def flood_consensus_state)

lemma moves_set_loop [simp, intro]: "moves C n (set_loop l n)"
  by (simp add: moves_def set_loop_def)

lemma moves_executor: "moves C n (snd (executor_step C W U P elapsed eph nonce n))"
proof -
  have poll: "moves C n (snd (executor_poll W l n))" for l
    using moves_trans [OF moves_set_loop moves_submit]
    by (simp add: executor_poll_def Let_def split: option.split phase.split)
  have report: "moves C n (snd (executor_report C W U P elapsed eph nonce l tid p rew enc n))"
    for l tid p rew enc
    using moves_trans [OF moves_set_loop moves_submit]
    by (simp add: executor_report_def Let_def case_prod_beta split: option.split)
  show ?thesis
    by (auto simp: executor_step_def poll report executor_wait_def Let_def
        split: option.split phase.split)
qed

lemma moves_command:
  "snd (command_step C W P d cmd n) = Some n' \<Longrightarrow> moves C n n'"
  by (auto simp: command_step_def donate_step_def start_executor_def case_prod_beta Let_def
      moves_def submit_and_flood_state split: app_command.splits if_splits)

lemma moves_step:
  assumes "snd (node_step E ev n) = Some n'"
  shows "moves (w_crypto E) n n'"
proof (cases ev)
  case (Command cmd)
  then show ?thesis
    using assms moves_command by simp
next
  case (Dialed addr res)
  then show ?thesis
    using assms by (auto simp: dial_result_def case_prod_beta Let_def split: sum.splits)
qed (use assms in \<open>auto simp: clock_step_def accept_peer_def case_prod_beta Let_def moves_round
    moves_sync moves_receive moves_close moves_executor\<close>)

interpretation node_runs: transition_runs "\<lambda>ev n. snd (node_step E ev n)"
    "\<lambda>evs n. snd (node_run E evs n)" for E
  by unfold_locales (simp_all add: case_prod_beta Let_def split: prod.split option.split)

lemma moves_run: "snd (node_run E evs n) = Some n' \<Longrightarrow> moves (w_crypto E) n n'"
  by (rule node_runs.run_relates [where rel = "moves (w_crypto E)"]) (auto intro: moves_trans moves_step)

section \<open>Properties\<close>

lemma role_start_engine:
  assumes "snd (role_start C W P role i listen err stored boot name balance pkgs) = Some n"
  obtains bs where "reaches C (restore_chain C bs (engine_new C i [])) (n_engine n)"
    and "role = RoleWorker \<longrightarrow> bs = []" and "n_role n = role"
proof -
  define bs where "bs = (if role = RoleCoordinator then load_chain W stored else [])"
  have "reaches C (restore_chain C bs (engine_new C i [])) (n_engine n) \<and> n_role n = role"
    using assms
    by (auto simp: role_start_def Let_def case_prod_beta register_self_def submit_and_flood_state
        start_executor_def node_new_def bs_def
        split: option.splits if_splits)
  then show ?thesis
    using that [of bs] by (auto simp: bs_def)
qed

lemma seen_message_dropped:
  "msg_hash W m \<in> n_seen n \<Longrightarrow> is_gossip m \<Longrightarrow> p2p_parse W line = Some (ConsensusEnv m) \<Longrightarrow>
   conn_receive C W c line n = ([], n)"
  by (simp add: conn_receive_def on_consensus_def split: option.split)

lemma received_message_seen:
  assumes "p2p_parse W line = Some (ConsensusEnv m)" and "is_gossip m" and "hm_has (n_conns n) c"
  shows "msg_hash W m \<in> n_seen (snd (conn_receive C W c line n))"
  using assms
  by (auto simp: conn_receive_def on_consensus_def Let_def case_prod_beta process_consensus_state)

definition command_op :: "participant_id \<Rightarrow> app_command \<Rightarrow> ledger_op option" where
  "command_op addr cmd =
     (case cmd of
        CmdCreateProject nm enc \<Rightarrow> Some (CreateProject addr nm enc)
      | CmdFundProject pid amount \<Rightarrow> Some (FundProject addr pid amount)
      | CmdDonateToProject pid amount \<Rightarrow> Some (DonateToProject addr pid amount)
      | CmdSubmitTask pid rew p \<Rightarrow> Some (SubmitTask addr pid rew p)
      | SendTokens dst amount \<Rightarrow> Some (TransferOp addr dst amount ''transfer'')
      | _ \<Rightarrow> None)"

lemma repeated_submit:
  assumes "op \<in> set (mempool (n_engine n)) \<union> set (ops_of (e_chain (n_engine n)))"
  shows "submit_and_flood W op n = ([], n)"
proof -
  have "submit_local_op op (n_engine n) = ([], n_engine n)"
    using assms by (auto simp: submit_local_op_def add_to_mempool_def in_ops_of)
  then show ?thesis
    by (simp add: submit_and_flood_def with_engine_def)
qed

end
