(* ===== verification/Clock.thy ===== *)
theory Clock
  imports Gossip
begin

text \<open>
  The shared clock. A coordinator advances it with the operation \<open>Tick 1\<close>, which carries
  nothing that tells one tick from the next, and the pool refuses an operation that is pending or
  committed: the clock of a coordinator on its own moves once and never again.
\<close>

section \<open>Operations of a node that is alone\<close>

definition unit_ticks :: "ledger_op list \<Rightarrow> bool" where
  "unit_ticks ops \<longleftrightarrow> (\<forall>k. Tick k \<in> set ops \<longrightarrow> k = 1)"

definition fresh_ops :: "engine \<Rightarrow> ledger_op list \<Rightarrow> bool" where
  "fresh_ops e ops \<longleftrightarrow> distinct ops \<and> set ops \<inter> set (ops_of (e_chain e)) = {} \<and> unit_ticks ops"

definition lone_ok :: "engine \<Rightarrow> bool" where
  "lone_ok e \<longleftrightarrow> distinct (ops_of (e_chain e)) \<and> unit_ticks (ops_of (e_chain e))
     \<and> unit_ticks (mempool e)
     \<and> (\<forall>h m k b. hm_get (proposals e) h = Some m \<longrightarrow> hm_get m k = Some b \<longrightarrow> fresh_ops e (ob_ops b))"

lemma lone_submit:
  assumes "lone_ok e" and "\<forall>k. op = Tick k \<longrightarrow> k = 1"
  shows "lone_ok (snd (submit_local_op op e))"
  using assms by (auto simp: lone_ok_def submit_local_op_parts add_to_mempool_def unit_ticks_def
      fresh_ops_def)

lemma lone_store_proposal:
  assumes "lone_ok e" and "fresh_ops e (ob_ops b)"
  shows "lone_ok (store_proposal b e)"
proof -
  have "fresh_ops e (ob_ops b')"
    if got: "hm_get (proposals (store_proposal b e)) h = Some m" "hm_get m k = Some b'" for h m k b'
  proof (cases "h = ob_index b \<and> k = ob_hash b")
    case True
    then show ?thesis
      using got assms(2) by (auto simp: store_proposal_def Let_def)
  next
    case False
    then obtain m' where "hm_get (proposals e) h = Some m'" "hm_get m' k = Some b'"
      using got by (cases "hm_get (proposals e) h")
        (auto simp: store_proposal_def Let_def split: if_splits option.splits)
    then show ?thesis
      using assms(1) unfolding lone_ok_def by blast
  qed
  moreover have "fresh_ops (store_proposal b e) = fresh_ops e"
    by (simp add: fresh_ops_def fun_eq_iff)
  moreover have "mempool (store_proposal b e) = mempool e"
    by (simp add: store_proposal_def Let_def)
  ultimately show ?thesis
    using assms(1) unfolding lone_ok_def by simp
qed

lemma lone_cast: "lone_ok e \<Longrightarrow> lone_ok (snd (cast_vote C h k e))"
  by (simp add: lone_ok_def fresh_ops_def)

lemma lone_append:
  assumes "lone_ok e" and "fresh_ops e (ob_ops b)" and "engine_ok C e"
    and fits: "ob_index b = e_next_index e" "ob_prev b = e_head_hash e"
  shows "lone_ok (append_and_apply C b e)"
proof -
  have "hm_get (proposals (append_and_apply C b e)) h = None" for h
  proof (cases "h = e_next_index e")
    case False
    then have "hm_get (proposals e) h = None"
      using assms(3) unfolding engine_ok_def round_ok_def by (metis not_None_eq)
    then show ?thesis
      using fits by (simp add: append_and_apply_def)
  qed (use fits in \<open>simp add: append_and_apply_def\<close>)
  then show ?thesis
    using assms(1,2) fits
    by (auto simp: lone_ok_def fresh_ops_def unit_ticks_def append_and_apply_def)
qed

lemma lone_commit:
  assumes "lone_ok e" and "engine_ok C e"
  shows "lone_ok (snd (maybe_commit C h k e))"
proof (cases rule: maybe_commit_cases [of C h k e])
  case waiting
  with assms show ?thesis by simp
next
  case (sealed m b)
  have "fresh_ops e (ob_ops b)"
    using assms(1) sealed(2,3) unfolding lone_ok_def by blast
  moreover have "proposal_ok C e k b"
    using assms(2) sealed(2,3) by (auto simp: engine_ok_def round_ok_def)
  ultimately show ?thesis
    using assms sealed(5) by (simp add: proposal_ok_def lone_append)
qed

lemma lone_try_propose:
  assumes "lone_ok e" and "sound_engine C e"
  shows "lone_ok (snd (try_propose C e))"
proof -
  let ?b = "op_block_proposed C (e_next_index e) (e_head_hash e) (me e) (mempool e) (e_quorum e)"
  let ?e = "store_proposal ?b e"
  have b: "ob_index ?b = e_next_index e" "ob_ops ?b = mempool e" "proposal_ok C e (ob_hash ?b) ?b"
    by (simp_all add: proposal_ok_def op_block_proposed_def)
  have "fresh_ops e (mempool e)"
    using assms by (auto simp: lone_ok_def fresh_ops_def sound_engine_def engine_ok_def pool_ok_def)
  then have lone: "lone_ok ?e"
    by (intro lone_store_proposal [OF assms(1)]) (simp add: b(2))
  have "engine_ok C ?e" "own_key_ok C ?e"
    using assms(2) b(3) by (simp_all add: sound_engine_def engine_ok_store_proposal own_key_ok_def)
  then have "engine_ok C (snd (cast_vote C (ob_index ?b) (ob_hash ?b) ?e))"
    by (intro engine_ok_cast_vote) (simp_all add: b(1))
  then have "lone_ok (snd (vote_and_commit C (ob_index ?b) (ob_hash ?b) ?e))"
    unfolding vote_and_commit_parts by (intro lone_commit lone_cast lone)
  then show ?thesis
    using assms(1) by (simp add: try_propose_def Let_def b(1) case_prod_beta)
qed

section \<open>The clock of a lone coordinator\<close>

text \<open>Everything that can happen to a node no other node is connected to.\<close>

fun lone_event :: "node_event \<Rightarrow> bool" where
  "lone_event (RoundTimer _) = True"
| "lone_event ClockTimer = True"
| "lone_event SyncTimer = True"
| "lone_event (Command _) = True"
| "lone_event (ExecutorTurn _ _ _) = True"
| "lone_event _ = False"

definition lone_node :: "crypto \<Rightarrow> node \<Rightarrow> bool" where
  "lone_node C n \<longleftrightarrow> lone_ok (n_engine n) \<and> sound_engine C (n_engine n)"

lemma lone_node_submit:
  assumes "lone_node C n" and "\<forall>k. op = Tick k \<longrightarrow> k = 1"
  shows "lone_node C (snd (submit_and_flood W op n))"
  using assms lone_submit [of "n_engine n" op] sound_step [of C "n_engine n" "SubmitLocal op"]
  by (simp add: lone_node_def submit_and_flood_state)

lemma lone_node_loop: "lone_node C n \<Longrightarrow> lone_node C (set_loop l n)"
  by (simp add: lone_node_def set_loop_def)

lemma lone_node_handle: "lone_node C n \<Longrightarrow> lone_node C (n\<lparr>executor_handle := h\<rparr>)"
  by (simp add: lone_node_def)

lemma lone_node_executor:
  assumes "lone_node C n"
  shows "lone_node C (snd (executor_step C W U P elapsed eph nonce n))"
proof -
  note keeps = lone_node_submit [OF lone_node_loop [OF assms]] lone_node_loop [OF assms]
  have poll: "lone_node C (snd (executor_poll W l n))" for l
    using assms by (auto simp: executor_poll_def Let_def keeps split: option.split phase.split)
  have report: "lone_node C (snd (executor_report C W U P elapsed eph nonce l tid p rew enc n))"
    for l tid p rew enc
    by (auto simp: executor_report_def Let_def case_prod_beta keeps split: option.split)
  show ?thesis
    using assms by (auto simp: executor_step_def poll report executor_wait_def Let_def keeps
        split: option.split phase.split)
qed

lemma lone_node_command:
  assumes "lone_node C n" and "snd (command_step C W P d cmd n) = Some n'"
  shows "lone_node C n'"
  using assms lone_node_submit [OF assms(1), of _ W] lone_node_handle [OF assms(1)]
  by (auto simp: command_step_def donate_step_def start_executor_def case_prod_beta Let_def
      split: app_command.splits if_splits)

lemma lone_node_step:
  assumes "lone_node (w_crypto E) n" and "lone_event ev" and "snd (node_step E ev n) = Some n'"
  shows "lone_node (w_crypto E) n'"
proof (cases ev)
  case (RoundTimer g)
  have "lone_ok (snd (try_propose (w_crypto E) (n_engine n)))"
    "sound_engine (w_crypto E) (snd (try_propose (w_crypto E) (n_engine n)))"
    using assms(1) lone_try_propose sound_step [of "w_crypto E" "n_engine n" TryPropose]
    by (simp_all add: lone_node_def)
  then show ?thesis
    using RoundTimer assms(1,3)
    by (auto simp: lone_node_def round_step_def with_engine_def case_prod_beta Let_def
        flood_consensus_state)
next
  case (Command cmd)
  then show ?thesis
    using assms lone_node_command by simp
next
  case (ExecutorTurn elapsed eph nonce)
  then show ?thesis
    using assms lone_node_executor by auto
next
  case ClockTimer
  then show ?thesis
    using assms lone_node_submit [OF assms(1), of "Tick 1"]
    by (auto simp: clock_step_def Let_def split: if_splits)
next
  case SyncTimer
  then show ?thesis
    using assms by (auto simp: lone_node_def sync_step_def Let_def flood_consensus_state)
qed (use assms(2) in simp_all)

lemma lone_node_run:
  "lone_node (w_crypto E) n \<Longrightarrow> list_all lone_event evs \<Longrightarrow> snd (node_run E evs n) = Some n' \<Longrightarrow>
   lone_node (w_crypto E) n'"
  by (rule node_runs.run_keeps [where allowed = lone_event]) (auto intro: lone_node_step)

lemma unit_clock:
  assumes "distinct ops" and "unit_ticks ops"
  shows "clock_of ops \<le> 1"
  using assms
proof (induction ops)
  case (Cons op ops)
  then have "unit_ticks ops" "clock_of ops \<le> 1"
    by (auto simp: unit_ticks_def)
  moreover have "clock_of ops = 0" if "Tick 1 \<notin> set ops"
  proof -
    have "op_ticks x = 0" if "x \<in> set ops" for x
    proof (cases x)
      case (Tick k)
      then show ?thesis
        using that \<open>Tick 1 \<notin> set ops\<close> \<open>unit_ticks ops\<close> unfolding unit_ticks_def by blast
    qed simp_all
    then show ?thesis
      by (simp add: clock_of_def)
  qed
  ultimately show ?case
    using Cons.prems by (cases op) (auto simp: clock_of_def unit_ticks_def)
qed (simp add: clock_of_def)

end
