(* ===== verification/Worker.thy ===== *)
theory Worker
  imports Clock
begin

text \<open>
  The loop of a worker: only its own turns and the two commands that start and stop it change
  it, a task it has taken once is never computed again, and a claim it repeats after a restart
  is lost.
\<close>

section \<open>Who changes the loop\<close>

lemma handle_submit [simp]: "executor_handle (snd (submit_and_flood W op n)) = executor_handle n"
  by (simp add: submit_and_flood_state)

lemma handle_hello [simp]: "executor_handle (snd (on_hello C W c key n)) = executor_handle n"
  by (simp add: on_hello_def with_engine_def Let_def)

lemma handle_receive [simp]:
  "executor_handle (snd (conn_receive C W c line n)) = executor_handle n"
  by (auto simp: conn_receive_def on_validator_def on_consensus_def process_consensus_state Let_def
      case_prod_beta split: option.split p2p_message.split)

lemma handle_close [simp]: "executor_handle (snd (conn_close c n)) = executor_handle n"
  by (auto simp: conn_close_def Let_def split: option.split)

lemma handle_round [simp]: "executor_handle (snd (round_step C W d g n)) = executor_handle n"
  by (auto simp: round_step_def with_engine_def case_prod_beta Let_def flood_consensus_state)

lemma handle_others [simp]:
  "executor_handle (snd (clock_step W n)) = executor_handle n"
  "executor_handle (snd (sync_step W n)) = executor_handle n"
  "executor_handle (snd (conn_open W c n)) = executor_handle n"
  by (simp_all add: clock_step_def sync_step_def conn_open_def Let_def flood_consensus_state)

lemma handle_command:
  assumes "snd (command_step C W P d cmd n) = Some n'"
    and "cmd \<noteq> StopExecutor" and "executor_handle n = Some l"
  shows "executor_handle n' = Some l"
  using assms
  by (auto simp: command_step_def donate_step_def case_prod_beta Let_def
      split: app_command.splits if_splits)

definition worker_event :: "node_event \<Rightarrow> bool" where
  "worker_event ev \<longleftrightarrow> ev = Command StopExecutor \<or> (\<exists>t eph nonce. ev = ExecutorTurn t eph nonce)"

lemma handle_step:
  assumes "snd (node_step E ev n) = Some n'" and "\<not> worker_event ev"
    and "executor_handle n = Some l"
  shows "executor_handle n' = Some l"
proof (cases ev)
  case (Command cmd)
  then show ?thesis
    using assms handle_command by (auto simp: worker_event_def)
next
  case (Dialed addr res)
  then show ?thesis
    using assms by (auto simp: dial_result_def case_prod_beta Let_def split: sum.splits)
qed (use assms in \<open>auto simp: accept_peer_def case_prod_beta Let_def worker_event_def\<close>)

section \<open>A task is computed once\<close>

definition done_with :: "task_id \<Rightarrow> node \<Rightarrow> bool" where
  "done_with tid n \<longleftrightarrow> (\<exists>l. executor_handle n = Some l \<and> tid \<in> wl_processed l
     \<and> (\<forall>p rew enc. wl_phase l \<noteq> Computing tid p rew enc))"

lemma find_job_fresh:
  "find_job addr processed st = Some (Computing tid p rew enc) \<Longrightarrow> tid \<notin> processed"
  by (auto simp: find_job_def find_Some_iff my_assignment_def)

lemma done_with_turn:
  assumes "done_with tid n"
  shows "done_with tid (snd (executor_step C W U P elapsed eph nonce n))"
proof -
  obtain l where l: "executor_handle n = Some l" "tid \<in> wl_processed l"
    "\<forall>p rew enc. wl_phase l \<noteq> Computing tid p rew enc"
    using assms by (auto simp: done_with_def)
  have poll: "done_with tid (snd (executor_poll W l n))"
    using l find_job_fresh [of "my_addr n" "wl_processed l" "e_state (n_engine n)"] assms
    by (auto simp: executor_poll_def Let_def done_with_def set_loop_def split: option.split phase.split)
  have report: "done_with tid (snd (executor_report C W U P elapsed eph nonce l t p rew enc n))"
    for t p rew enc
    using l by (auto simp: executor_report_def Let_def done_with_def set_loop_def case_prod_beta
        split: option.split)
  have wait: "done_with tid (snd (executor_wait l k n))" for k
    using l by (auto simp: executor_wait_def Let_def done_with_def set_loop_def)
  show ?thesis
    using l(1) assms by (auto simp: executor_step_def poll report wait split: phase.split)
qed

lemma done_with_step:
  assumes "done_with tid n" and "ev \<noteq> Command StopExecutor"
    and "snd (node_step E ev n) = Some n'"
  shows "done_with tid n'"
proof (cases "worker_event ev")
  case True
  then show ?thesis
    using assms done_with_turn by (auto simp: worker_event_def)
next
  case False
  then show ?thesis
    using assms(1) handle_step [OF assms(3) False] by (auto simp: done_with_def)
qed

lemma done_with_run:
  assumes "done_with tid n" and "Command StopExecutor \<notin> set evs" and "snd (node_run E evs n) = Some n'"
  shows "done_with tid n'"
  using assms(3) _ assms(1)
proof (rule node_runs.run_keeps)
  show "list_all (\<lambda>ev. ev \<noteq> Command StopExecutor) evs"
    using assms(2) by (auto simp: list_all_iff)
qed (rule done_with_step)

text \<open>A worker's loop takes a task into its set when it starts it.\<close>

lemma poll_takes:
  assumes "snd (executor_poll W l n) = n'" and "executor_handle n' = Some l'"
    and "wl_phase l' = Computing tid p rew enc" and "executor_handle n = Some l" and "wl_phase l = Polling"
  shows "tid \<in> wl_processed l'"
  using assms
  by (auto simp: executor_poll_def Let_def set_loop_def split: option.splits phase.splits if_splits)

end
