(* ===== verification/Nodes.thy ===== *)
theory Nodes
  imports Worker
begin

text \<open>
  The properties of running nodes, each with a run of a small concrete world in which it applies.
\<close>

section \<open>A small world\<close>

text \<open>A world to run nodes in, and a coordinator that starts in it.\<close>

definition toy_wire :: wire where
  "toy_wire =
     \<lparr>p2p_json = (\<lambda>m. Some ''line''),
      p2p_parse = (\<lambda>s. if s = ''hello'' then Some (PeerHello (replicate 32 3) [] ''bob'')
                       else if s = ''op'' then Some (ConsensusEnv (OpMsg (Tick 1))) else None),
      consensus_json = (\<lambda>m. Some (case m of OpMsg op \<Rightarrow> (if op = Tick 1 then ''one tick'' else ''op'') | Propose _ \<Rightarrow> ''propose''
        | Vote _ _ _ _ \<Rightarrow> ''vote'' | Committed _ \<Rightarrow> ''committed'' | SyncRequest _ \<Rightarrow> ''request''
        | SyncResponse _ \<Rightarrow> ''response'')),
      hash_string = (\<lambda>s. usize_of (length s)), hash_key = (\<lambda>k. 100),
      hash_params = (\<lambda>role addr name. 7), chain_json = (\<lambda>bs. Some []), chain_parse = (\<lambda>bs. None)\<rparr>"

definition toy_python :: python where
  "toy_python =
     \<lparr>py_setup = (\<lambda>allowed paths. None),
      py_script = (\<lambda>code t allowed. \<lparr>script_end = ReturnsLogs (Some code), print_outputs = [],
                                     operation_counter = 1000\<rparr>),
      py_thread = (\<lambda>code t. ThreadDone), py_extra_paths = [], py_venv = Some ''python3'',
      py_importable = (\<lambda>pkg. True), py_pip = (\<lambda>pkg. PipOk)\<rparr>"

definition toy_world :: world where
  "toy_world = \<lparr>w_crypto = toy_crypto, w_wire = toy_wire, w_text = \<lparr>utf8_ok = (\<lambda>bs. True)\<rparr>,
     w_python = toy_python, w_data_dir = ''/data''\<rparr>"

definition lone_start :: "node option" where
  "lone_start = snd (role_start toy_crypto toy_wire toy_python RoleCoordinator demo_identity
     (Some ''0.0.0.0:7878'') None None [] ''ann'' 10 [])"

definition demo_run :: "node_event list" where
  "demo_run = [Command (SendTokens 7 3), Accepted ''addr'' 1, Line 1 ''hello'', Line 1 ''op'',
     ClockTimer, Closed 1]"

text \<open>Where events lead from a start, when the node still runs.\<close>

definition run_from :: "node option \<Rightarrow> node_event list \<Rightarrow> (node \<Rightarrow> bool) \<Rightarrow> bool" where
  "run_from start evs P =
     (case Option.bind start (\<lambda>n. snd (node_run toy_world evs n)) of None \<Rightarrow> False | Some n \<Rightarrow> P n)"

lemma run_fromE:
  assumes "run_from start evs P"
  obtains n n' where "start = Some n" and "snd (node_run toy_world evs n) = Some n'" and "P n'"
  using assms by (auto simp: run_from_def bind_eq_Some_conv split: option.splits)

lemma run_fromI:
  "start = Some n \<Longrightarrow> snd (node_run toy_world evs n) = Some n' \<Longrightarrow> P n' \<Longrightarrow> run_from start evs P"
  by (simp add: run_from_def)

lemma node_run_append:
  "snd (node_run E (evs @ evs') n) = Option.bind (snd (node_run E evs n)) (\<lambda>m. snd (node_run E evs' m))"
  by (rule node_runs.run_append)

lemma toy_world_crypto [simp]: "w_crypto toy_world = toy_crypto" "w_wire toy_world = toy_wire"
  "w_python toy_world = toy_python"
  by (simp_all add: toy_world_def)

section \<open>Properties\<close>

text \<open>C10: the engine of a running node is only ever driven through the operations of the engine:
  after any sequence of timers, commands, connections, lines (malformed ones included) and turns
  of the executor, it is where some run of the engine from the restored chain leads, so it is
  sound, and a worker, which restores nothing, holds certified blocks only.\<close>

theorem node_refines_engine:
  assumes "signatures_ok (w_crypto E)" and "length (signing_key i) = 32"
    and "snd (role_start (w_crypto E) (w_wire E) (w_python E) role i listen err stored boot name
           balance pkgs) = Some n"
    and "snd (node_run E evs n) = Some n'"
  shows "(\<exists>bs evs'. n_engine n' = snd (engine_run (w_crypto E) evs'
            (restore_chain (w_crypto E) bs (engine_new (w_crypto E) i []))))
    \<and> engine_ok (w_crypto E) (n_engine n')
    \<and> (role = RoleWorker \<longrightarrow> certified (w_crypto E) (n_engine n'))"
proof -
  let ?C = "w_crypto E"
  obtain bs where start: "reaches ?C (restore_chain ?C bs (engine_new ?C i [])) (n_engine n)"
    and worker: "role = RoleWorker \<longrightarrow> bs = []"
    using role_start_engine [OF assms(3)] by blast
  have "reaches ?C (restore_chain ?C bs (engine_new ?C i [])) (n_engine n')"
    using start moves_run [OF assms(4)] by (auto simp: moves_def intro: reaches_trans)
  then obtain evs' where run:
    "n_engine n' = snd (engine_run ?C evs' (restore_chain ?C bs (engine_new ?C i [])))"
    by (auto simp: reaches_def)
  have "sound_engine ?C (n_engine n')"
    unfolding run by (rule sound_run [OF restore_keeps [OF sound_new [OF assms(1,2)]]])
  moreover have "role = RoleWorker \<longrightarrow> certified ?C (n_engine n')"
    using run worker certified_run [OF sound_new [OF assms(1,2)] certified_new] by auto
  ultimately show ?thesis
    using run unfolding sound_engine_def by blast
qed

theorem node_refines_engine_witness:
  "run_from lone_start demo_run (\<lambda>n. length (mempool (n_engine n)) = 3 \<and> engine_ok toy_crypto (n_engine n))"
proof -
  have "run_from lone_start demo_run (\<lambda>n. length (mempool (n_engine n)) = 3)"
    by code_simp
  then obtain n n' where n: "lone_start = Some n" "snd (node_run toy_world demo_run n) = Some n'"
    "length (mempool (n_engine n')) = 3"
    by (rule run_fromE)
  have "engine_ok toy_crypto (n_engine n')"
    using node_refines_engine [of toy_world demo_identity _ _ _ _ _ _ _ _ n demo_run n']
      toy_signatures_ok demo_key_ok n(1,2) unfolding lone_start_def by auto
  then show ?thesis
    by (intro run_fromI [OF n(1,2)] conjI n(3))
qed

text \<open>C19: gossip does not loop: once a node has handled an operation, a proposal, a vote or a
  committed block, a copy of it that arrives later, from whatever peer and after whatever else
  has happened, changes nothing and is not relayed.\<close>

theorem gossip_handled_once:
  assumes "p2p_parse (w_wire E) line = Some (ConsensusEnv m)" and "is_gossip m"
    and "hm_has (n_conns n) c" and "snd (node_run E (Line c line # evs) n) = Some n'"
  shows "conn_receive (w_crypto E) (w_wire E) c' line n' = ([], n')"
proof -
  have run: "snd (node_run E evs (snd (conn_receive (w_crypto E) (w_wire E) c line n))) = Some n'"
    using assms(4) by (auto simp: case_prod_beta Let_def)
  have "msg_hash (w_wire E) m \<in> n_seen n'"
    using moves_run [OF run] received_message_seen [OF assms(1-3)] by (auto simp: moves_def)
  then show ?thesis
    using assms(1,2) by (intro seen_message_dropped)
qed

theorem gossip_handled_once_witness:
  "run_from lone_start [Accepted ''addr'' 1, Line 1 ''op'', SyncTimer]
     (\<lambda>n. conn_receive toy_crypto toy_wire 1 ''op'' n = ([], n))"
proof -
  have "run_from lone_start [Accepted ''addr'' 1] (\<lambda>n. hm_has (n_conns n) 1)"
    by code_simp
  then obtain n0 n where n: "lone_start = Some n0" "snd (node_run toy_world [Accepted ''addr'' 1] n0) = Some n"
    "hm_has (n_conns n) 1"
    by (rule run_fromE)
  have "run_from (Some n) [Line 1 ''op'', SyncTimer] (\<lambda>n. True)"
    by (simp add: run_from_def case_prod_beta Let_def)
  then obtain n' where n': "snd (node_run toy_world [Line 1 ''op'', SyncTimer] n) = Some n'"
    by (rule run_fromE) simp
  have "conn_receive toy_crypto toy_wire 1 ''op'' n' = ([], n')"
    using gossip_handled_once [OF _ _ n(3) n', where c' = 1] by (simp add: toy_wire_def is_gossip_def)
  moreover have "snd (node_run toy_world ([Accepted ''addr'' 1] @ [Line 1 ''op'', SyncTimer]) n0)
      = Some n'"
    unfolding node_run_append by (simp only: n(2) n' bind.bind_lunit)
  ultimately show ?thesis
    using run_fromI [OF n(1)] by simp
qed

text \<open>C39: a command that repeats an earlier one is lost: creating a project, funding, donating,
  submitting a task or sending tokens with the same arguments as an operation that is pending or
  committed changes nothing and sends nothing, though the user asked for a second transfer. (The
  pool refuses it, and only RequestTask carries a nonce.)\<close>

theorem repeated_command_lost:
  assumes "command_op (my_addr n) cmd = Some op"
    and "op \<in> set (mempool (n_engine n)) \<union> set (ops_of (e_chain (n_engine n)))"
  shows "snd (command_step C W P d cmd n) = Some n
    \<and> (\<forall>c line. SendLine c line \<notin> set (fst (command_step C W P d cmd n)))"
  using assms(1) repeated_submit [OF assms(2), of W]
  by (auto simp: command_op_def command_step_def donate_step_def Let_def split: app_command.splits)

theorem repeated_command_lost_witness:
  "run_from lone_start [Command (SendTokens 7 3)]
     (\<lambda>n. mempool (n_engine n) \<noteq> []
        \<and> snd (command_step toy_crypto toy_wire toy_python ''/data'' (SendTokens 7 3) n) = Some n)"
proof -
  have "run_from lone_start [Command (SendTokens 7 3)]
     (\<lambda>n. TransferOp (my_addr n) 7 3 ''transfer'' \<in> set (mempool (n_engine n)))"
    by code_simp
  then obtain n n' where n: "lone_start = Some n"
    "snd (node_run toy_world [Command (SendTokens 7 3)] n) = Some n'"
    "TransferOp (my_addr n') 7 3 ''transfer'' \<in> set (mempool (n_engine n'))"
    by (rule run_fromE)
  have "snd (command_step toy_crypto toy_wire toy_python ''/data'' (SendTokens 7 3) n') = Some n'"
    using repeated_command_lost [of n' "SendTokens 7 3" "TransferOp (my_addr n') 7 3 ''transfer''"] n(3)
    by (simp add: command_op_def)
  moreover have "mempool (n_engine n') \<noteq> []"
    using n(3) by auto
  ultimately show ?thesis
    by (intro run_fromI [OF n(1,2)] conjI)
qed

text \<open>C40: a peer that reconnects before its old connection is closed is lost: closing the old
  connection removes the writer of the new one and takes the peer out of the active validators,
  while the new connection stays open and identified.\<close>

theorem reconnect_drops_peer:
  assumes "hm_get (n_conns n) old = Some \<lparr>peer_key = Some (hex_encode C key), peer_node_key = Some key\<rparr>"
    and "hm_has (n_conns n) new" and "new \<noteq> old" and "key \<noteq> me (n_engine n)"
    and "p2p_parse W line = Some (PeerHello key addr name)"
    and "n' = snd (conn_close old (snd (conn_receive C W new line n)))"
  shows "hm_get (n_conns n') new = Some \<lparr>peer_key = Some (hex_encode C key), peer_node_key = Some key\<rparr>
    \<and> hm_get (n_peers n') (hex_encode C key) = None \<and> key \<notin> set (active (n_engine n'))"
  using assms
  by (auto simp: conn_receive_def on_hello_def with_engine_def Let_def conn_close_def
      mark_inactive_def)

theorem reconnect_drops_peer_witness:
  "run_from lone_start [Accepted ''addr'' 1, Line 1 ''hello'', Accepted ''addr'' 2]
     (\<lambda>n. replicate 32 3 \<in> set (active (n_engine n))
        \<and> replicate 32 3 \<notin> set (active (n_engine
            (snd (conn_close 1 (snd (conn_receive toy_crypto toy_wire 2 ''hello'' n)))))))"
proof -
  let ?evs = "[Accepted ''addr'' 1, Line 1 ''hello'', Accepted ''addr'' 2]"
  let ?key = "replicate 32 3 :: node_key"
  let ?conn = "\<lparr>peer_key = Some (hex_encode toy_crypto ?key), peer_node_key = Some ?key\<rparr>"
  have "run_from lone_start ?evs (\<lambda>n. hm_get (n_conns n) 1 = Some ?conn \<and> hm_has (n_conns n) 2
      \<and> ?key \<noteq> me (n_engine n) \<and> ?key \<in> set (active (n_engine n)))"
    by code_simp
  then obtain n n' where n: "lone_start = Some n" "snd (node_run toy_world ?evs n) = Some n'"
    "hm_get (n_conns n') 1 = Some ?conn \<and> hm_has (n_conns n') 2 \<and> ?key \<noteq> me (n_engine n')
      \<and> ?key \<in> set (active (n_engine n'))"
    by (rule run_fromE)
  have hello: "p2p_parse toy_wire ''hello'' = Some (PeerHello ?key [] ''bob'')"
    by (simp add: toy_wire_def)
  have "?key \<notin> set (active (n_engine
      (snd (conn_close 1 (snd (conn_receive toy_crypto toy_wire 2 ''hello'' n'))))))"
    using reconnect_drops_peer [OF _ _ _ _ hello refl, of n' 1 toy_crypto 2] n(3) by simp
  then show ?thesis
    by (intro run_fromI [OF n(1,2)] conjI) (simp_all add: n(3))
qed


definition demo_loop :: worker_loop where
  "demo_loop =
     \<lparr>wl_executor = executor_new 9 ''w'' 100 1 1 [], wl_processed = {5}, wl_nonce = 0,
      wl_phase = Computing 5 ''python:'' 1 None\<rparr>"

definition demo_worker :: node where
  "demo_worker = set_loop demo_loop (node_new toy_crypto RoleWorker demo_identity [] ''bob'')"


lemma lone_node_start:
  assumes "signatures_ok C" and "length (signing_key i) = 32"
    and "snd (role_start C W P role i listen err None boot name balance pkgs) = Some n"
  shows "lone_node C n"
proof -
  have ops: "ops_of (e_chain (engine_new C i [])) = []" "mempool (engine_new C i []) = []"
    "proposals (engine_new C i []) = []"
    by (simp_all add: engine_new_def Let_def op_genesis_def)
  have new: "lone_node C (node_new C role i l name)" for l
    using sound_new [OF assms(1,2)]
    by (simp add: lone_node_def node_new_def Let_def lone_ok_def ops unit_ticks_def)
  have saved: "lone_node C (m\<lparr>last_saved := k\<rparr>)" if "lone_node C m" for m k
    using that by (simp add: lone_node_def)
  show ?thesis
    using assms(3) lone_node_submit [OF saved [OF new]]
    by (auto simp: role_start_def Let_def case_prod_beta register_self_def load_chain_def
        start_executor_def lone_node_handle split: option.splits if_splits)
qed

text \<open>C38: the shared clock of a lone coordinator stops after one tick: whatever its timers,
  commands and executor do, the tick count of its replica never passes 1, and no lease ever
  expires. (The operation Tick 1 is the same every time, so once it is committed the pool
  refuses every later one, and the clock timer does nothing.)\<close>

theorem lone_clock_stops:
  assumes "signatures_ok (w_crypto E)" and "length (signing_key i) = 32"
    and "snd (role_start (w_crypto E) (w_wire E) (w_python E) role i listen err None boot name
           balance pkgs) = Some n"
    and "list_all lone_event evs" and "snd (node_run E evs n) = Some n'"
    and "short_log (ops_of (e_chain (n_engine n')))"
  shows "current_tick (e_state (n_engine n')) \<le> 1
    \<and> (\<forall>tid l. hm_get (leases (e_state (n_engine n'))) tid = Some l \<longrightarrow>
         current_tick (e_state (n_engine n')) < expires_at_tick l)
    \<and> (Tick 1 \<in> set (ops_of (e_chain (n_engine n'))) \<longrightarrow> clock_step (w_wire E) n' = ([], n'))"
proof -
  let ?C = "w_crypto E" and ?ops = "ops_of (e_chain (n_engine n'))"
  have lone: "lone_node ?C n'"
    by (rule lone_node_run [OF lone_node_start [OF assms(1-3)] assms(4,5)])
  then have clock: "clock_of ?ops \<le> 1"
    by (intro unit_clock) (simp_all add: lone_node_def lone_ok_def)
  have state: "e_state (n_engine n') = replay (sha256 ?C) consensus_config ?ops"
    using lone by (simp add: lone_node_def sound_engine_def engine_ok_def replica_ok_def)
  have "calm_log consensus_config ?ops"
    using assms(6) clock by (simp add: calm_log_def consensus_config_def default_config_def)
  from calm_replay [OF this, of "sha256 ?C"] show ?thesis
    using clock repeated_submit [of "Tick 1" n' "w_wire E"]
    by (simp add: state fresh_leases_def word_le_nat_alt clock_step_def Let_def)
qed

theorem lone_clock_stops_witness:
  "run_from lone_start [ClockTimer, Command (SendTokens 7 3), SyncTimer]
     (\<lambda>n. current_tick (e_state (n_engine n)) \<le> 1)"
proof -
  let ?evs = "[ClockTimer, Command (SendTokens 7 3), SyncTimer]"
  have "run_from lone_start ?evs (\<lambda>n. length (ops_of (e_chain (n_engine n))) = 0)"
    by code_simp
  then obtain n n' where n: "lone_start = Some n" "snd (node_run toy_world ?evs n) = Some n'"
    "length (ops_of (e_chain (n_engine n'))) = 0"
    by (rule run_fromE)
  have "current_tick (e_state (n_engine n')) \<le> 1"
    using lone_clock_stops [of toy_world demo_identity _ _ _ _ _ _ _ n ?evs n'] toy_signatures_ok
      demo_key_ok n unfolding lone_start_def by (simp add: short_log_def)
  then show ?thesis
    by (intro run_fromI [OF n(1,2)])
qed

end
