(* ===== verification/Cluster.thy ===== *)
theory Cluster
  imports Runs
begin

text \<open>
  A cluster: the engines of honest nodes, the messages in flight, and an adversary that holds all
  other keys. Messages are delivered any number of times, in any order or never; the adversary
  sends whatever it likes but does not forge the signature of an honest node. Reachable clusters
  agree on every block that a real quorum of one set of validators has signed.
\<close>

section \<open>Signatures in messages and engines\<close>

fun msg_blocks :: "consensus_msg \<Rightarrow> op_block list" where
  "msg_blocks (Propose b) = [b]"
| "msg_blocks (Committed b) = [b]"
| "msg_blocks (SyncResponse bs) = bs"
| "msg_blocks _ = []"

fun vote_sig :: "(node_key \<Rightarrow> bytes32 \<Rightarrow> bytes \<Rightarrow> bool) \<Rightarrow> consensus_msg \<Rightarrow> bool" where
  "vote_sig G (Vote h k v sig) = G v k sig"
| "vote_sig G _ = True"

text \<open>All signatures satisfy \<open>G\<close>, which is asked of a key, a block hash and a signature.\<close>

definition block_sigs :: "(node_key \<Rightarrow> bytes32 \<Rightarrow> bytes \<Rightarrow> bool) \<Rightarrow> op_block \<Rightarrow> bool" where
  "block_sigs G b \<longleftrightarrow> (\<forall>w\<in>set (ob_votes b). G (voter w) (ob_hash b) (signature w))"

definition msg_sigs :: "(node_key \<Rightarrow> bytes32 \<Rightarrow> bytes \<Rightarrow> bool) \<Rightarrow> consensus_msg \<Rightarrow> bool" where
  "msg_sigs G m \<longleftrightarrow> list_all (block_sigs G) (msg_blocks m) \<and> vote_sig G m"

definition engine_sigs :: "(node_key \<Rightarrow> bytes32 \<Rightarrow> bytes \<Rightarrow> bool) \<Rightarrow> engine \<Rightarrow> bool" where
  "engine_sigs G e \<longleftrightarrow> list_all (block_sigs G) (e_chain e) \<and>
     (\<forall>h m k sigs v s. hm_get (votes e) h = Some m \<longrightarrow> hm_get m k = Some sigs \<longrightarrow>
        hm_get sigs v = Some s \<longrightarrow> G v k s)"

lemma msg_sigs_simps [simp]:
  "msg_sigs G (OpMsg op)" "msg_sigs G (SyncRequest h)"
  "msg_sigs G (Vote h k v sig) = G v k sig"
  "msg_sigs G (Propose b) = block_sigs G b" "msg_sigs G (Committed b) = block_sigs G b"
  "msg_sigs G (SyncResponse bs) = list_all (block_sigs G) bs"
  by (simp_all add: msg_sigs_def)

lemma msg_sigs_mono: "msg_sigs G m \<Longrightarrow> (\<And>v k s. G v k s \<Longrightarrow> G' v k s) \<Longrightarrow> msg_sigs G' m"
  by (cases m) (auto simp: block_sigs_def list_all_iff)

lemma engine_sigs_mono: "engine_sigs G e \<Longrightarrow> (\<And>v k s. G v k s \<Longrightarrow> G' v k s) \<Longrightarrow> engine_sigs G' e"
  by (simp add: engine_sigs_def block_sigs_def list_all_iff)

lemma engine_sigs_cong:
  "e_chain e' = e_chain e \<Longrightarrow> votes e' = votes e \<Longrightarrow> engine_sigs G e' = engine_sigs G e"
  by (simp add: engine_sigs_def)

lemma votes_frame [simp]:
  "votes (add_validator key e) = votes e" "votes (note_validator key e) = votes e"
  "votes (store_proposal b e) = votes e" "votes (mark_inactive key e) = votes e"
  "votes (snd (add_to_mempool op e)) = votes e"
  "e_chain (snd (add_to_mempool op e)) = e_chain e" "e_chain (mark_inactive key e) = e_chain e"
  by (simp_all add: add_validator_def note_validator_def store_proposal_def mark_inactive_def
      add_to_mempool_def Let_def)

lemma votes_note_all [simp]: "votes (fold note_members bs e) = votes e"
proof -
  have "votes (fold (\<lambda>v. note_validator (voter v)) vs e) = votes e" for vs :: "block_vote list" and e
    by (induction vs arbitrary: e) simp_all
  then have "votes (note_members b e) = votes e" for b e
    by (simp add: note_members_def)
  then show ?thesis
    by (induction bs arbitrary: e) simp_all
qed

subsection \<open>Where the signatures of a step come from\<close>

lemma sigs_tally:
  assumes "engine_ok C e" and "engine_sigs G e" and "(v, s) \<in> set (tally_of e h k)"
  shows "G v k s"
proof -
  have "hm_ok (tally_of e h k)"
    using tally_ok [OF assms(1)] by (simp add: sigs_ok_def)
  then have "hm_get (tally_of e h k) v = Some s"
    using assms(3) by (simp add: hm.entries_get)
  then show ?thesis
    using assms(2) by (auto simp: tally_of_def engine_sigs_def split: option.splits bind_splits)
qed

lemma sigs_append: "engine_sigs G e \<Longrightarrow> block_sigs G b \<Longrightarrow> engine_sigs G (append_and_apply C b e)"
  by (simp add: append_and_apply_def engine_sigs_def)

lemma sigs_store_vote:
  assumes "engine_sigs G e" and "G key k sig"
  shows "engine_sigs G (store_vote h k key sig e)"
  using assms
  by (auto simp: engine_sigs_def store_vote_def Let_def split: if_splits option.splits)

lemma sigs_maybe_commit:
  assumes "engine_ok C e" and "engine_sigs G e"
  shows "engine_sigs G (snd (maybe_commit C h k e)) \<and> list_all (msg_sigs G) (fst (maybe_commit C h k e))"
proof (cases rule: maybe_commit_cases [of C h k e])
  case waiting
  with assms show ?thesis by simp
next
  case (sealed m b)
  let ?b = "b\<lparr>ob_votes := map (\<lambda>(key, sig). \<lparr>voter = key, signature = sig\<rparr>) (tally_of e h k)\<rparr>"
  have "ob_hash b = k"
    using assms(1) sealed(2,3) by (auto simp: engine_ok_def round_ok_def proposal_ok_def)
  then have "block_sigs G ?b"
    using sigs_tally [OF assms] by (auto simp: block_sigs_def)
  then show ?thesis
    using assms(2) by (simp add: sealed(5) sigs_append)
qed

lemma sigs_vote_and_commit:
  assumes "sound_engine C e" and "engine_sigs G e" and "h = e_next_index e"
    and "list_all (vote_sig G) (fst (vote_and_commit C h k e))"
  shows "engine_sigs G (snd (vote_and_commit C h k e))
    \<and> list_all (msg_sigs G) (fst (vote_and_commit C h k e))"
proof -
  let ?e = "snd (cast_vote C h k e)"
  have ok: "engine_ok C ?e"
    using assms(1,3) by (simp add: sound_engine_def engine_ok_cast_vote)
  have sigs: "engine_sigs G ?e" and out: "list_all (msg_sigs G) (fst (cast_vote C h k e))"
    using assms(2,4) by (auto simp: vote_and_commit_parts cast_vote_def Let_def
        engine_sigs_cong [where e' = "e\<lparr>voted := U\<rparr>" and e = e for U] intro!: sigs_store_vote)
  show ?thesis
    using sigs_maybe_commit [OF ok sigs, of h k] out by (simp add: vote_and_commit_parts)
qed

lemma sigs_link_blocks:
  "engine_sigs G e \<Longrightarrow> list_all (block_sigs G) bs \<Longrightarrow> engine_sigs G (snd (link_blocks C bs flag e))"
  by (induction bs arbitrary: flag e) (simp_all add: sigs_append)

lemma sigs_adopt:
  "engine_sigs G e \<Longrightarrow> list_all (block_sigs G) bs \<Longrightarrow> engine_sigs G (snd (try_adopt_chain C bs e))"
  by (simp add: try_adopt_chain_def Let_def engine_sigs_def)

lemma sigs_apply_sync:
  assumes "engine_sigs G e" and "list_all (block_sigs G) bs"
  shows "engine_sigs G (snd (apply_sync_blocks C bs e))
    \<and> list_all (msg_sigs G) (fst (apply_sync_blocks C bs e))"
proof -
  have "list_all (block_sigs G) (sort_key ob_index bs)"
    using assms(2) by (simp add: list_all_iff)
  then have "engine_sigs G (snd (apply_sync_blocks C bs e))"
    using assms(1) by (simp add: apply_sync_parts sigs_adopt sigs_link_blocks)
  then show ?thesis
    by (simp add: apply_sync_blocks_def Let_def case_prod_beta)
qed

text \<open>A proposal is stored, voted for and perhaps sealed.\<close>

lemma sigs_propose:
  assumes "sound_engine C e" and "engine_sigs G e" and "proposal_ok C e (ob_hash b) b"
    and "list_all (vote_sig G) (fst (vote_and_commit C (ob_index b) (ob_hash b) (store_proposal b e)))"
  shows "engine_sigs G (snd (vote_and_commit C (ob_index b) (ob_hash b) (store_proposal b e)))
    \<and> list_all (msg_sigs G) (fst (vote_and_commit C (ob_index b) (ob_hash b) (store_proposal b e)))"
  using assms
  by (intro sigs_vote_and_commit)
    (simp_all add: sound_engine_def engine_ok_store_proposal own_key_ok_def
      engine_sigs_cong [where e' = "store_proposal b e" and e = e] proposal_ok_def)

lemma on_propose_cases:
  obtains (ignored) out where "on_propose C b e = (out, add_validator (ob_proposer b) e)"
    and "out = [] \<or> out = [SyncRequest (e_next_index e)]"
  | (accepted) "proposal_ok C (add_validator (ob_proposer b) e) (ob_hash b) b"
    and "on_propose C b e
      = vote_and_commit C (ob_index b) (ob_hash b) (store_proposal b (add_validator (ob_proposer b) e))"
proof -
  have "proposal_ok C (add_validator (ob_proposer b) e) (ob_hash b) b \<and> on_propose C b e
      = vote_and_commit C (ob_index b) (ob_hash b) (store_proposal b (add_validator (ob_proposer b) e))
    \<or> (\<exists>out. on_propose C b e = (out, add_validator (ob_proposer b) e)
        \<and> (out = [] \<or> out = [SyncRequest (e_next_index e)]))"
    by (simp add: on_propose_def Let_def proposal_ok_def)
  then show thesis
    using ignored accepted by blast
qed

lemma try_propose_cases:
  obtains (silent) "try_propose C e = ([], e)"
  | (proposes) b where "proposal_ok C e (ob_hash b) b" and "ob_votes b = []"
    and "try_propose C e =
      (Propose b # fst (vote_and_commit C (ob_index b) (ob_hash b) (store_proposal b e)),
       snd (vote_and_commit C (ob_index b) (ob_hash b) (store_proposal b e)))"
proof -
  define b where
    "b = op_block_proposed C (e_next_index e) (e_head_hash e) (me e) (mempool e) (e_quorum e)"
  have b: "ob_index b = e_next_index e" "proposal_ok C e (ob_hash b) b" "ob_votes b = []"
    by (simp_all add: b_def proposal_ok_def op_block_proposed_def)
  have "try_propose C e = ([], e) \<or> try_propose C e =
      (Propose b # fst (vote_and_commit C (ob_index b) (ob_hash b) (store_proposal b e)),
       snd (vote_and_commit C (ob_index b) (ob_hash b) (store_proposal b e)))"
    unfolding b(1) by (simp add: try_propose_def Let_def b_def [symmetric] case_prod_beta)
  then show thesis
    using silent proposes [OF b(2,3)] by blast
qed

text \<open>Every signature an engine keeps or sends was in a message it received or is its own vote.\<close>

lemma sigs_receive:
  assumes "sound_engine C e" and "engine_sigs G e" and "msg_sigs G msg"
    and "list_all (vote_sig G) (fst (on_message C msg e))"
  shows "engine_sigs G (snd (on_message C msg e)) \<and> list_all (msg_sigs G) (fst (on_message C msg e))"
proof (cases msg)
  case (Propose b)
  show ?thesis
  proof (cases rule: on_propose_cases [of C b e])
    case (ignored out)
    then show ?thesis
      using assms(2) by (auto simp: Propose engine_sigs_cong [of "add_validator (ob_proposer b) e" e])
  next
    case accepted
    then show ?thesis
      using assms sigs_propose [OF sound_add_validator _ accepted(1)]
      by (simp add: Propose engine_sigs_cong [of "add_validator (ob_proposer b) e" e])
  qed
next
  case (Vote h k key sig)
  let ?e = "add_validator key e"
  have sigs: "engine_sigs G ?e" "engine_sigs G (store_vote h k key sig ?e)"
    using assms(2,3) by (simp_all add: Vote sigs_store_vote engine_sigs_cong [of "add_validator key e" e])
  have "engine_ok C (store_vote h k key sig ?e)" if "verify_sig C key k sig"
    using assms(1) that
    by (intro engine_ok_store_vote) (simp_all add: sound_engine_def engine_ok_add_validator)
  then show ?thesis
    using sigs sigs_maybe_commit [of C "store_vote h k key sig ?e" G h k]
    by (simp add: Vote on_vote_def Let_def)
next
  case (Committed b)
  then show ?thesis
    using assms(2,3) by (simp add: on_committed_def Let_def sigs_append
        engine_sigs_cong [of "add_validator (ob_proposer b) e" e])
next
  case (SyncRequest from_height)
  then show ?thesis
    using assms(2) by (simp add: Let_def engine_sigs_def list_all_iff)
qed (use assms in \<open>simp_all add: sigs_apply_sync
      engine_sigs_cong [of "snd (add_to_mempool _ e)" e]\<close>)

lemma sigs_step:
  assumes "sound_engine C e" and "engine_sigs G e" and "\<And>msg. ev = Receive msg \<Longrightarrow> msg_sigs G msg"
    and "list_all (vote_sig G) (fst (engine_step C ev e))"
  shows "engine_sigs G (snd (engine_step C ev e)) \<and> list_all (msg_sigs G) (fst (engine_step C ev e))"
proof (cases ev)
  case TryPropose
  show ?thesis
  proof (cases rule: try_propose_cases [of C e])
    case silent
    then show ?thesis
      using assms(2) by (simp add: TryPropose)
  next
    case (proposes b)
    then show ?thesis
      using assms sigs_propose [OF assms(1,2) proposes(1)] by (simp add: TryPropose block_sigs_def)
  qed
qed (use assms in \<open>simp_all add: sigs_receive submit_local_op_parts
      engine_sigs_cong [of "snd (add_to_mempool _ e)" e] engine_sigs_cong [of "add_validator _ e" e]
      engine_sigs_cong [of "mark_inactive _ e" e]\<close>)

subsection \<open>What an engine votes for\<close>

definition hash_ok :: "crypto \<Rightarrow> op_block \<Rightarrow> bool" where
  "hash_ok C b \<longleftrightarrow> ob_hash b
     = op_block_hash C (ob_index b) (ob_prev b) (ob_proposer b) (ob_ops b) (ob_quorum b)"

lemma vote_and_commit_votes:
  "Vote h' k' v s \<in> set (fst (vote_and_commit C h k e)) \<Longrightarrow> h' = h \<and> k' = k \<and> v = me e"
  using spent_maybe_commit [of "snd (cast_vote C h k e)" C h k]
  by (auto simp: vote_and_commit_parts cast_vote_def Let_def dest: vote_heights_member split: if_splits)

text \<open>It votes under its own key, for a block it was sent or made itself and whose hash it has
  checked, and keeps that block as a proposal.\<close>

lemma step_votes_for:
  assumes "Vote h k v s \<in> set (fst (engine_step C ev e))"
  shows "v = me e \<and> (\<exists>b e0. ob_index b = h \<and> ob_hash b = k \<and> hash_ok C b \<and> proposal_ok C e0 k b
    \<and> (e0 = e \<or> e0 = add_validator (ob_proposer b) e)
    \<and> snd (engine_step C ev e) = snd (vote_and_commit C h k (store_proposal b e0))
    \<and> (ev = Receive (Propose b) \<or> Propose b \<in> set (fst (engine_step C ev e))))"
proof (cases ev)
  case (Receive msg)
  show ?thesis
  proof (cases msg)
    case (Propose b)
    show ?thesis
    proof (cases rule: on_propose_cases [of C b e])
      case (ignored out)
      then show ?thesis
        using assms by (auto simp: Receive Propose)
    next
      case accepted
      have "hash_ok C b"
        using accepted(1) by (auto simp: proposal_ok_def hash_ok_def)
      moreover have "h = ob_index b \<and> k = ob_hash b \<and> v = me (store_proposal b (add_validator (ob_proposer b) e))"
        using assms by (intro vote_and_commit_votes) (simp add: Receive Propose accepted(2))
      ultimately show ?thesis
        using accepted by (auto simp: Receive Propose)
    qed
  next
    case (Vote h' k' key sig)
    have "vote_heights (fst (on_vote C h' k' key sig e)) = []"
      using spent_maybe_commit by (simp add: on_vote_def Let_def)
    then show ?thesis
      using assms vote_heights_member by (fastforce simp: Receive Vote)
  next
    case (SyncResponse bs)
    then show ?thesis
      using assms no_votes_sync [of C bs e] vote_heights_member by (fastforce simp: Receive)
  qed (use assms in \<open>auto simp: Receive on_committed_def Let_def split: if_splits\<close>)
next
  case TryPropose
  show ?thesis
  proof (cases rule: try_propose_cases [of C e])
    case silent
    then show ?thesis
      using assms by (simp add: TryPropose)
  next
    case (proposes b)
    have "hash_ok C b"
      using proposes(1) by (auto simp: proposal_ok_def hash_ok_def)
    moreover have "h = ob_index b \<and> k = ob_hash b \<and> v = me (store_proposal b e)"
      using assms by (intro vote_and_commit_votes) (simp add: TryPropose proposes(3))
    ultimately show ?thesis
      using proposes(1) by (auto simp: TryPropose proposes(3))
  qed
qed (use assms in \<open>auto simp: submit_local_op_parts split: if_splits\<close>)

lemma step_votes:
  assumes "Vote h k v s \<in> set (fst (engine_step C ev e))"
  shows "v = me e \<and> (\<exists>b. ob_index b = h \<and> ob_hash b = k \<and> hash_ok C b
    \<and> (ev = Receive (Propose b) \<or> Propose b \<in> set (fst (engine_step C ev e))))"
  using step_votes_for [OF assms] by blast

section \<open>The cluster\<close>

text \<open>The honest nodes by their keys, with the identity and the validators each starts from.\<close>

record membership =
  honest :: "node_key set"
  ident_of :: "node_key \<Rightarrow> identity"
  known_of :: "node_key \<Rightarrow> node_key list"

text \<open>What has happened to each honest engine, and every message that was ever sent.\<close>

record cluster =
  history :: "node_key \<Rightarrow> engine_event list"
  soup :: "consensus_msg set"

definition node_run :: "crypto \<Rightarrow> membership \<Rightarrow> cluster \<Rightarrow> node_key \<Rightarrow> consensus_msg list \<times> engine" where
  "node_run C P s v = engine_run C (history s v) (engine_new C (ident_of P v) (known_of P v))"

definition node_at :: "crypto \<Rightarrow> membership \<Rightarrow> cluster \<Rightarrow> node_key \<Rightarrow> engine" where
  "node_at C P s v = snd (node_run C P s v)"

definition has_signed :: "crypto \<Rightarrow> membership \<Rightarrow> cluster \<Rightarrow> node_key \<Rightarrow> bytes32 \<Rightarrow> bool" where
  "has_signed C P s v k \<longleftrightarrow>
     (\<exists>h. voted_for C (ident_of P v) (known_of P v) (history s v) h k)"

text \<open>A signature of an honest key that verifies was made by its node.\<close>

definition genuine :: "crypto \<Rightarrow> membership \<Rightarrow> cluster \<Rightarrow> node_key \<Rightarrow> bytes32 \<Rightarrow> bytes \<Rightarrow> bool" where
  "genuine C P s v k sig \<longleftrightarrow> v \<in> honest P \<longrightarrow> verify_sig C v k sig \<longrightarrow> has_signed C P s v k"

text \<open>An honest engine takes an event and its messages join the others.\<close>

definition advance :: "crypto \<Rightarrow> membership \<Rightarrow> node_key \<Rightarrow> engine_event \<Rightarrow> cluster \<Rightarrow> cluster" where
  "advance C P v ev s =
     \<lparr>history = (history s)(v := history s v @ [ev]),
      soup = soup s \<union> set (fst (engine_step C ev (node_at C P s v)))\<rparr>"

fun is_local :: "engine_event \<Rightarrow> bool" where
  "is_local (Receive msg) = False"
| "is_local _ = True"

inductive cluster_step :: "crypto \<Rightarrow> membership \<Rightarrow> cluster \<Rightarrow> cluster \<Rightarrow> bool" for C P where
  deliver: "v \<in> honest P \<Longrightarrow> msg \<in> soup s \<Longrightarrow> cluster_step C P s (advance C P v (Receive msg) s)"
| drive: "v \<in> honest P \<Longrightarrow> is_local ev \<Longrightarrow> cluster_step C P s (advance C P v ev s)"
| inject: "msg_sigs (genuine C P s) msg \<Longrightarrow> cluster_step C P s (s\<lparr>soup := insert msg (soup s)\<rparr>)"

definition cluster_init :: cluster where
  "cluster_init = \<lparr>history = (\<lambda>v. []), soup = {}\<rparr>"

inductive reachable :: "crypto \<Rightarrow> membership \<Rightarrow> cluster \<Rightarrow> bool" for C P where
  start: "reachable C P cluster_init"
| step: "reachable C P s \<Longrightarrow> cluster_step C P s t \<Longrightarrow> reachable C P t"

inductive_cases cluster_stepE: "cluster_step C P s t"

text \<open>The honest nodes hold the keys they are known by.\<close>

definition membership_ok :: "crypto \<Rightarrow> membership \<Rightarrow> bool" where
  "membership_ok C P \<longleftrightarrow> signatures_ok C \<and> (\<forall>v\<in>honest P.
     length (signing_key (ident_of P v)) = 32 \<and> public_key_bytes C (ident_of P v) = v)"

section \<open>Invariants of reachable clusters\<close>

lemma engine_run_snoc:
  "snd (engine_run C (evs @ [ev]) e) = snd (engine_step C ev (snd (engine_run C evs e)))"
  "fst (engine_run C (evs @ [ev]) e)
     = fst (engine_run C evs e) @ fst (engine_step C ev (snd (engine_run C evs e)))"
  by (induction evs arbitrary: e) (simp_all add: engine_run_parts)

lemma node_at_advance:
  "node_at C P (advance C P v ev s) v = snd (engine_step C ev (node_at C P s v))"
  "w \<noteq> v \<Longrightarrow> node_at C P (advance C P v ev s) w = node_at C P s w"
  by (simp_all add: node_at_def node_run_def advance_def engine_run_snoc)

lemma has_signed_iff:
  "has_signed C P s v k \<longleftrightarrow> (\<exists>h w sig. Vote h k w sig \<in> set (fst (node_run C P s v)))"
  by (auto simp: has_signed_def voted_for_def node_run_def list_ex_iff is_vote_for_iff)

text \<open>A message that joins the others changes no engine.\<close>

lemma soup_frame [simp]:
  "node_run C P (s\<lparr>soup := M\<rparr>) = node_run C P s" "node_at C P (s\<lparr>soup := M\<rparr>) = node_at C P s"
  "genuine C P (s\<lparr>soup := M\<rparr>) = genuine C P s"
  by (simp_all add: fun_eq_iff node_at_def node_run_def genuine_def has_signed_iff)

lemma node_run_advance:
  "fst (node_run C P (advance C P v ev s) w) = fst (node_run C P s w)
     @ (if w = v then fst (engine_step C ev (node_at C P s v)) else [])"
  by (simp add: node_at_def node_run_def advance_def engine_run_snoc)

lemma sound_node: "membership_ok C P \<Longrightarrow> v \<in> honest P \<Longrightarrow> sound_engine C (node_at C P s v)"
  by (simp add: node_at_def node_run_def membership_ok_def sound_run sound_new)

lemma run_me: "me (snd (engine_run C evs e)) = me e"
  by (induction evs arbitrary: e) (simp_all add: engine_run_parts engine_step_identity)

lemma me_node: "membership_ok C P \<Longrightarrow> v \<in> honest P \<Longrightarrow> me (node_at C P s v) = v"
  by (simp add: node_at_def node_run_def run_me membership_ok_def engine_new_def Let_def)

text \<open>What is kept: the signatures around are genuine, and every vote of an honest node is for a
  proposal that was sent.\<close>

definition proposed :: "cluster \<Rightarrow> op_block set" where
  "proposed s = (\<Union>m\<in>soup s. case m of Propose b \<Rightarrow> {b} | _ \<Rightarrow> {})"

lemma in_proposed: "b \<in> proposed s \<longleftrightarrow> Propose b \<in> soup s"
proof -
  have "b \<in> (case m of Propose b' \<Rightarrow> {b'} | _ \<Rightarrow> {}) \<longleftrightarrow> m = Propose b" for m
    by (cases m) auto
  then show ?thesis
    by (simp add: proposed_def)
qed

definition votes_within :: "crypto \<Rightarrow> membership \<Rightarrow> op_block set \<Rightarrow> cluster \<Rightarrow> bool" where
  "votes_within C P B s \<longleftrightarrow> (\<forall>v\<in>honest P. \<forall>h k w sig.
     Vote h k w sig \<in> set (fst (node_run C P s v)) \<longrightarrow>
       (\<exists>b\<in>B. hash_ok C b \<and> ob_index b = h \<and> ob_hash b = k))"

definition cluster_ok :: "crypto \<Rightarrow> membership \<Rightarrow> cluster \<Rightarrow> bool" where
  "cluster_ok C P s \<longleftrightarrow> (\<forall>m\<in>soup s. msg_sigs (genuine C P s) m)
     \<and> (\<forall>v\<in>honest P. engine_sigs (genuine C P s) (node_at C P s v))
     \<and> votes_within C P (proposed s) s"

lemma votes_within_proposed: "cluster_ok C P s \<Longrightarrow> votes_within C P (proposed s) s"
  by (simp add: cluster_ok_def)

lemma cluster_ok_advance:
  assumes "membership_ok C P" and "v \<in> honest P" and "cluster_ok C P s"
    and ev: "\<And>msg. ev = Receive msg \<Longrightarrow> msg \<in> soup s"
  shows "cluster_ok C P (advance C P v ev s)"
proof -
  let ?t = "advance C P v ev s" and ?e = "node_at C P s v"
  let ?out = "fst (engine_step C ev ?e)"
  have grows: "has_signed C P ?t w k" if "has_signed C P s w k" for w k
    using that by (auto simp: has_signed_iff node_run_advance)
  have keep: "genuine C P ?t w k sig" if "genuine C P s w k sig" for w k sig
    using that grows by (simp add: genuine_def)
  have own: "list_all (vote_sig (genuine C P ?t)) ?out"
    unfolding list_all_iff
  proof
    fix m assume m: "m \<in> set ?out"
    show "vote_sig (genuine C P ?t) m"
    proof (cases m)
      case (Vote h k w sig)
      then have "w = v"
        using m step_votes [of h k w sig C ev ?e] me_node [OF assms(1,2)] by simp
      then have "has_signed C P ?t w k"
        using m Vote by (auto simp: has_signed_iff node_run_advance)
      then show ?thesis
        by (simp add: Vote genuine_def)
    qed simp_all
  qed
  have sigs: "engine_sigs (genuine C P ?t) (snd (engine_step C ev ?e))
      \<and> list_all (msg_sigs (genuine C P ?t)) ?out"
  proof (rule sigs_step [OF sound_node [OF assms(1,2)] _ _ own])
    show "engine_sigs (genuine C P ?t) ?e"
      using assms(2,3) engine_sigs_mono keep unfolding cluster_ok_def by blast
    show "msg_sigs (genuine C P ?t) msg" if "ev = Receive msg" for msg
      using assms(3) ev [OF that] msg_sigs_mono keep unfolding cluster_ok_def by blast
  qed
  have soup: "soup ?t = soup s \<union> set ?out"
    by (simp add: advance_def)
  have "\<forall>m\<in>soup ?t. msg_sigs (genuine C P ?t) m"
    using sigs assms(3) msg_sigs_mono keep unfolding cluster_ok_def soup list_all_iff by blast
  moreover have "engine_sigs (genuine C P ?t) (node_at C P ?t w)" if "w \<in> honest P" for w
    using sigs that assms(3) engine_sigs_mono keep unfolding cluster_ok_def
    by (cases "w = v") (simp_all add: node_at_advance, blast)
  moreover have "\<exists>b\<in>proposed ?t. hash_ok C b \<and> ob_index b = h \<and> ob_hash b = k"
    if w: "w \<in> honest P" "Vote h k u sig \<in> set (fst (node_run C P ?t w))" for h k u sig w
  proof (cases "Vote h k u sig \<in> set (fst (node_run C P s w))")
    case True
    moreover have "proposed s \<subseteq> proposed ?t"
      by (auto simp: in_proposed soup)
    ultimately show ?thesis
      using votes_within_proposed [OF assms(3)] w(1) unfolding votes_within_def by blast
  next
    case False
    then have "Vote h k u sig \<in> set ?out"
      using w(2) by (auto simp: node_run_advance split: if_splits)
    then obtain b where b: "hash_ok C b" "ob_index b = h" "ob_hash b = k"
      "ev = Receive (Propose b) \<or> Propose b \<in> set ?out"
      using step_votes [of h k u sig C ev ?e] by blast
    then have "b \<in> proposed ?t"
      using ev by (auto simp: in_proposed soup)
    with b show ?thesis
      by blast
  qed
  ultimately show ?thesis
    unfolding cluster_ok_def votes_within_def by blast
qed

lemma cluster_ok_inject:
  assumes "cluster_ok C P s" and "msg_sigs (genuine C P s) msg"
  shows "cluster_ok C P (s\<lparr>soup := insert msg (soup s)\<rparr>)"
proof -
  have "proposed s \<subseteq> proposed (s\<lparr>soup := insert msg (soup s)\<rparr>)"
    by (auto simp: in_proposed)
  then show ?thesis
    using assms by (simp add: cluster_ok_def votes_within_def) blast
qed

lemma cluster_ok_reachable:
  assumes "reachable C P s" and "membership_ok C P"
  shows "cluster_ok C P s"
  using assms(1)
proof induction
  case start
  then show ?case
    by (simp add: cluster_ok_def votes_within_def cluster_init_def node_at_def node_run_def engine_sigs_def
        engine_new_def Let_def op_genesis_def block_sigs_def)
next
  case (step s t)
  from step.hyps(2) show ?case
    by (cases rule: cluster_stepE)
      (auto simp: step.IH assms(2) cluster_ok_inject intro!: cluster_ok_advance)
qed

section \<open>Agreement of the cluster\<close>

text \<open>Everything of a block that its hash covers, and the validators of a set \<open>V\<close> whose signature of
  that hash the block carries.\<close>

definition block_body :: "op_block \<Rightarrow> u64 \<times> bytes32 \<times> node_key \<times> ledger_op list \<times> usize" where
  "block_body b = (ob_index b, ob_prev b, ob_proposer b, ob_ops b, ob_quorum b)"

definition signers :: "crypto \<Rightarrow> node_key set \<Rightarrow> op_block \<Rightarrow> node_key set" where
  "signers C V b =
     {v \<in> V. \<exists>w\<in>set (ob_votes b). voter w = v \<and> verify_sig C v (ob_hash b) (signature w)}"

definition well_sealed :: "crypto \<Rightarrow> node_key set \<Rightarrow> op_block \<Rightarrow> bool" where
  "well_sealed C V b \<longleftrightarrow> (if ob_index b = 0 then b = op_genesis C
     else hash_ok C b \<and> unat (quorum_for (usize_of (card V))) \<le> card (signers C V b))"

definition no_clash :: "crypto \<Rightarrow> op_block set \<Rightarrow> bool" where
  "no_clash C S \<longleftrightarrow> (\<forall>a\<in>S. \<forall>b\<in>S. hash_ok C a \<longrightarrow> hash_ok C b \<longrightarrow> ob_hash a = ob_hash b \<longrightarrow>
     block_body a = block_body b)"

lemma no_clashD:
  "no_clash C S \<Longrightarrow> a \<in> S \<Longrightarrow> b \<in> S \<Longrightarrow> hash_ok C a \<Longrightarrow> hash_ok C b \<Longrightarrow> ob_hash a = ob_hash b \<Longrightarrow>
   block_body a = block_body b"
  unfolding no_clash_def by blast

lemma no_clash_mono: "no_clash C T \<Longrightarrow> S \<subseteq> T \<Longrightarrow> no_clash C S"
  unfolding no_clash_def by blast

text \<open>An honest signature of a block is a vote at the height of that block.\<close>

lemma signed_at_height:
  assumes "votes_within C P B s" and "v \<in> honest P" and "has_signed C P s v (ob_hash b)"
    and "hash_ok C b" and "no_clash C (insert b B)"
  shows "voted_for C (ident_of P v) (known_of P v) (history s v) (ob_index b) (ob_hash b)"
proof -
  obtain h w sig where vote: "Vote h (ob_hash b) w sig \<in> set (fst (node_run C P s v))"
    using assms(3) by (auto simp: has_signed_iff)
  then obtain p where "p \<in> B" "hash_ok C p" "ob_index p = h" "ob_hash p = ob_hash b"
    using assms(1,2) unfolding votes_within_def by blast
  then have "block_body p = block_body b"
    by (intro no_clashD [OF assms(5) _ _ _ assms(4)]) simp_all
  then have "h = ob_index b"
    using \<open>ob_index p = h\<close> by (simp add: block_body_def)
  then show ?thesis
    using vote by (auto simp: voted_for_def node_run_def list_ex_iff is_vote_for_iff)
qed

text \<open>The voters of a block in a chain of an honest node have voted for it there.\<close>

lemma signers_voted:
  assumes "cluster_ok C P s" and "i \<in> honest P" and "b \<in> set (e_chain (node_at C P s i))"
    and "hash_ok C b" and "no_clash C (insert b B)" and "v \<in> signers C V b \<inter> honest P"
    and "votes_within C P B s"
  shows "voted_for C (ident_of P v) (known_of P v) (history s v) (ob_index b) (ob_hash b)"
proof -
  obtain w where "w \<in> set (ob_votes b)" "voter w = v" "verify_sig C v (ob_hash b) (signature w)"
    using assms(6) by (auto simp: signers_def)
  moreover have "block_sigs (genuine C P s) b"
    using assms(1-3) by (auto simp: cluster_ok_def engine_sigs_def list_all_iff)
  ultimately have "has_signed C P s v (ob_hash b)"
    using assms(6) by (auto simp: block_sigs_def genuine_def)
  then show ?thesis
    using assms(6) by (intro signed_at_height [OF assms(7) _ _ assms(4,5)]) auto
qed

text \<open>Two well sealed blocks of one height are the same.\<close>

lemma sealed_blocks_agree:
  assumes "cluster_ok C P s" and "finite V" and "card V < 2 ^ 63"
    and "3 * card (V - honest P) < card V" and "i \<in> honest P" and "j \<in> honest P"
    and "a \<in> set (e_chain (node_at C P s i))" and "b \<in> set (e_chain (node_at C P s j))"
    and "well_sealed C V a" and "well_sealed C V b" and "ob_index a = ob_index b"
    and clash: "no_clash C (insert a (insert b B))" and within: "votes_within C P B s"
    and short: "\<forall>v\<in>honest P. length (e_chain (node_at C P s v)) < 2 ^ 64"
  shows "block_body a = block_body b"
proof (cases "ob_index b = 0")
  case True
  then show ?thesis
    using assms(9-11) by (simp add: well_sealed_def)
next
  case False
  then have sealed: "hash_ok C a" "unat (quorum_for (usize_of (card V))) \<le> card (signers C V a)"
    "hash_ok C b" "unat (quorum_for (usize_of (card V))) \<le> card (signers C V b)"
    using assms(9-11) by (simp_all add: well_sealed_def)
  let ?voted = "\<lambda>v h k. voted_for C (ident_of P v) (known_of P v) (history s v) h k"
  have sub: "signers C V b \<subseteq> V" and honest: "signers C V b - (V - honest P) = signers C V b \<inter> honest P"
    for b
    by (auto simp: signers_def)
  have clash': "no_clash C (insert a B)" "no_clash C (insert b B)"
    by (rule no_clash_mono [OF clash]; blast)+
  have voted: "\<forall>v\<in>signers C V a - (V - honest P). ?voted v (ob_index a) (ob_hash a)"
    unfolding honest by (intro ballI signers_voted [OF assms(1,5,7) sealed(1) clash'(1) _ within])
  have voted': "\<forall>v\<in>signers C V b - (V - honest P). ?voted v (ob_index a) (ob_hash b)"
    unfolding honest assms(11) by (intro ballI signers_voted [OF assms(1,6,8) sealed(3) clash'(2) _ within])
  have lengths: "\<forall>v\<in>V - (V - honest P).
      length (e_chain (snd (engine_run C (history s v) (engine_new C (ident_of P v) (known_of P v))))) < 2 ^ 64"
    using short unfolding node_at_def node_run_def by blast
  have "ob_hash a = ob_hash b"
    by (rule agreement [OF assms(2,3) _ assms(4) sub sealed(2) sub sealed(4) voted voted' lengths]) blast
  then show ?thesis
    by (intro no_clashD [OF clash _ _ sealed(1,3)]) simp_all
qed

text \<open>The blocks a set \<open>B\<close> must cover are those the honest nodes have voted for.\<close>

lemma chains_agree:
  assumes "reachable C P s" and "membership_ok C P"
    and "finite V" and "card V < 2 ^ 63" and "3 * card (V - honest P) < card V"
    and "i \<in> honest P" and "j \<in> honest P"
    and "c = e_chain (node_at C P s i)" and "d = e_chain (node_at C P s j)"
    and "list_all (well_sealed C V) (c @ d)" and "no_clash C (B \<union> set (c @ d))"
    and "\<forall>v\<in>honest P. length (e_chain (node_at C P s v)) < 2 ^ 64"
    and "votes_within C P B s"
  shows "map block_body (take (length d) c) = map block_body (take (length c) d)
    \<and> (length c = length d \<longrightarrow> e_state (node_at C P s i) = e_state (node_at C P s j))"
proof -
  note ok = cluster_ok_reachable [OF assms(1,2)]
  have eng: "engine_ok C (node_at C P s i)" "engine_ok C (node_at C P s j)"
    using sound_node [OF assms(2)] assms(6,7) by (simp_all add: sound_engine_def)
  have same: "block_body (c ! k) = block_body (d ! k)" if k: "k < length c" "k < length d" for k
  proof (rule sealed_blocks_agree [OF ok assms(3-7)])
    show "ob_index (c ! k) = ob_index (d ! k)"
      using eng k by (simp add: engine_ok_def chain_linked_def assms(8,9))
    show "no_clash C (insert (c ! k) (insert (d ! k) B))"
      using k by (intro no_clash_mono [OF assms(11)]) auto
  qed (use k assms(8-10,12,13) in \<open>auto simp: list_all_iff\<close>)
  have bodies: "map block_body (take (length d) c) = map block_body (take (length c) d)"
    by (rule nth_equalityI) (simp_all add: same)
  moreover have "e_state (node_at C P s i) = e_state (node_at C P s j)" if "length c = length d"
  proof -
    have ops: "map ob_ops bs = map (fst \<circ> snd \<circ> snd \<circ> snd) (map block_body bs)" for bs :: "op_block list"
      by (simp add: block_body_def)
    have "map ob_ops c = map ob_ops d"
      unfolding ops using bodies that by simp
    then show ?thesis
      using eng by (simp add: engine_ok_def replica_ok_def ops_of_def assms(8,9))
  qed
  ultimately show ?thesis
    by blast
qed

text \<open>C2: a cluster agrees: whatever messages honest nodes exchange, in whatever order, however often
  or never they arrive, and whatever an adversary with fewer than a third of the validators sends
  without forging an honest signature, the chains of two honest nodes whose blocks carry their
  right hash and signatures of a quorum of the same validators are equal as far as the shorter
  reaches, but for the gathered signatures, and nodes of equal height have the same replica. The
  hash function has no collision among the blocks proposed or committed.\<close>

theorem cluster_agrees:
  assumes "reachable C P s" and "membership_ok C P"
    and "finite V" and "card V < 2 ^ 63" and "3 * card (V - honest P) < card V"
    and "i \<in> honest P" and "j \<in> honest P"
    and "c = e_chain (node_at C P s i)" and "d = e_chain (node_at C P s j)"
    and "list_all (well_sealed C V) (c @ d)" and "no_clash C (proposed s \<union> set (c @ d))"
    and "\<forall>v\<in>honest P. length (e_chain (node_at C P s v)) < 2 ^ 64"
  shows "map block_body (take (length d) c) = map block_body (take (length c) d)
    \<and> (length c = length d \<longrightarrow> e_state (node_at C P s i) = e_state (node_at C P s j))"
  by (rule chains_agree [OF assms votes_within_proposed [OF cluster_ok_reachable [OF assms(1,2)]]])

text \<open>Two honest nodes: the first seals a block alone and the second receives it.\<close>

definition cluster_crypto :: crypto where
  "cluster_crypto = toy_crypto\<lparr>sha256 := id,
     ed_sign := (\<lambda>seed m. seed @ take 32 (m @ zero32)),
     ed_verify := (\<lambda>key m sig. sig = key @ take 32 (m @ zero32))\<rparr>"

definition key_a :: node_key where "key_a = signing_key demo_identity"
definition key_b :: node_key where "key_b = signing_key other_identity"

definition demo_members :: membership where
  "demo_members = \<lparr>honest = {key_a, key_b},
     ident_of = (\<lambda>v. if v = key_a then demo_identity else other_identity), known_of = (\<lambda>v. [])\<rparr>"

definition demo_sent :: "consensus_msg list" where
  "demo_sent = fst (engine_run cluster_crypto [SubmitLocal demo_op, TryPropose]
     (engine_new cluster_crypto demo_identity []))"

definition demo_cluster :: cluster where
  "demo_cluster = fold (\<lambda>(v, ev). advance cluster_crypto demo_members v ev)
     [(key_a, SubmitLocal demo_op), (key_a, TryPropose), (key_b, Receive (last demo_sent))] cluster_init"

lemma demo_reachable: "reachable cluster_crypto demo_members demo_cluster"
proof -
  have nodes: "key_a \<in> honest demo_members" "key_b \<in> honest demo_members"
    by (simp_all add: demo_members_def)
  let ?step = "advance cluster_crypto demo_members"
  let ?s = "?step key_a TryPropose (?step key_a (SubmitLocal demo_op) cluster_init)"
  note first = reachable.step [OF reachable.start cluster_step.drive [OF nodes(1)]]
  have "reachable cluster_crypto demo_members ?s"
    by (rule reachable.step [OF first cluster_step.drive [OF nodes(1)]]) simp_all
  moreover have "last demo_sent \<in> soup ?s"
    by code_simp
  ultimately have "reachable cluster_crypto demo_members (?step key_b (Receive (last demo_sent)) ?s)"
    by (rule reachable.step [OF _ cluster_step.deliver [OF nodes(2)]])
  then show ?thesis
    by (simp add: demo_cluster_def)
qed

lemma demo_members_ok: "membership_ok cluster_crypto demo_members"
  by (auto simp: membership_ok_def signatures_ok_def cluster_crypto_def toy_crypto_def demo_members_def
      key_a_def key_b_def public_key_bytes_def demo_identity_def other_identity_def zero32_def)

theorem cluster_agrees_witness:
  "length (e_chain (node_at cluster_crypto demo_members demo_cluster key_a)) = 2
   \<and> e_state (node_at cluster_crypto demo_members demo_cluster key_a)
     = e_state (node_at cluster_crypto demo_members demo_cluster key_b)"
proof -
  let ?C = cluster_crypto and ?P = demo_members and ?V = "{key_a}"
  let ?c = "e_chain (node_at ?C ?P demo_cluster key_a)"
  let ?d = "e_chain (node_at ?C ?P demo_cluster key_b)"
  have len: "length ?c = 2" "length ?d = 2"
    by code_simp+
  have faulty: "card (?V - honest ?P) = 0"
    by (simp add: demo_members_def)
  have sealed: "list_all (well_sealed ?C ?V) (?c @ ?d)"
    by code_simp
  have clash: "no_clash ?C (proposed demo_cluster \<union> set (?c @ ?d))"
    by code_simp
  have short: "\<forall>v\<in>honest ?P. length (e_chain (node_at ?C ?P demo_cluster v)) < 2 ^ 64"
    using len by (simp add: demo_members_def)
  have "e_state (node_at ?C ?P demo_cluster key_a) = e_state (node_at ?C ?P demo_cluster key_b)"
    by (rule cluster_agrees [OF demo_reachable demo_members_ok _ _ _ _ _ refl refl sealed clash short,
          THEN conjunct2, rule_format])
      (use faulty len in \<open>simp_all add: demo_members_def\<close>)
  with len show ?thesis
    by simp
qed

end
