(* ===== verification/Fleet.thy ===== *)
theory Fleet
  imports Nodes Cluster
begin

text \<open>
  A fleet: whole nodes (src/src/actor.rs), each with its timers, commands, connections and worker,
  that exchange lines of JSON, and an adversary that writes lines of its own. The fleet refines
  the cluster of theory \<open>Cluster\<close>: what a node does is at most one event of its engine, and every
  signature it writes was made or received by that engine. So the agreement of clusters becomes
  one of running nodes.
\<close>

section \<open>What a node writes\<close>

text \<open>The messages of the consensus in the lines of a handler.\<close>

definition told :: "wire \<Rightarrow> effect list \<Rightarrow> consensus_msg set" where
  "told W out = {m. \<exists>c line. SendLine c line \<in> set out \<and> p2p_parse W line = Some (ConsensusEnv m)}"

text \<open>What JSON promises: a message that can be written is read back.\<close>

definition wire_roundtrip :: "wire \<Rightarrow> bool" where
  "wire_roundtrip W \<longleftrightarrow> (\<forall>m line. p2p_json W m = Some line \<longrightarrow> p2p_parse W line = Some m)"

lemma told_simps [simp]:
  "told W [] = {}" "told W (out @ out') = told W out \<union> told W out'"
  "told W (Emit e # out) = told W out" "told W (Dial a # out) = told W out"
  "told W (SaveChain p bs # out) = told W out"
  by (auto simp: told_def)

lemma finite_told: "finite (told W out)"
proof (rule finite_subset)
  let ?msg = "\<lambda>x. case x of SendLine c line \<Rightarrow> (case p2p_parse W line of Some (ConsensusEnv m) \<Rightarrow> m)"
  show "told W out \<subseteq> ?msg ` set out"
  proof
    fix m assume "m \<in> told W out"
    then obtain c line where "SendLine c line \<in> set out" "m = ?msg (SendLine c line)"
      by (auto simp: told_def)
    then show "m \<in> ?msg ` set out"
      by blast
  qed
qed simp

definition envelopes :: "p2p_message \<Rightarrow> consensus_msg set" where
  "envelopes msg = (case msg of ConsensusEnv m \<Rightarrow> {m} | _ \<Rightarrow> {})"

lemma told_send: "wire_roundtrip W \<Longrightarrow> told W (send_p2p W c msg) \<subseteq> envelopes msg"
  by (auto simp: told_def send_p2p_def wire_roundtrip_def envelopes_def split: option.splits)

lemma told_flood: "wire_roundtrip W \<Longrightarrow> told W (flood_envelope W x msg n) \<subseteq> envelopes msg"
  by (auto simp: told_def flood_envelope_def wire_roundtrip_def envelopes_def split: option.splits)

lemma envelopes_simps [simp]:
  "envelopes (ConsensusEnv m) = {m}" "envelopes (PeerHello k a nm) = {}"
  "envelopes (ValidatorMsg k) = {}" "envelopes (PeersMsg ps) = {}"
  by (simp_all add: envelopes_def)

lemma told_concat_send:
  assumes "wire_roundtrip W" and "\<And>x. envelopes (f x) \<subseteq> M"
  shows "told W (concat (map (\<lambda>x. send_p2p W c (f x)) xs)) \<subseteq> M"
proof (induction xs)
  case (Cons x xs)
  then show ?case
    using subset_trans [OF told_send [OF assms(1)] assms(2), of c x] by simp
qed simp

lemma told_flood_consensus:
  assumes "wire_roundtrip W"
  shows "told W (fst (flood_consensus W x ms n)) \<subseteq> set ms"
proof (induction ms arbitrary: n)
  case (Cons m ms)
  let ?n = "n\<lparr>n_seen := insert (msg_hash W m) (n_seen n)\<rparr>"
  have "told W (flood_envelope W x (ConsensusEnv m) ?n) \<subseteq> {m}"
    using told_flood [OF assms, of x "ConsensusEnv m" ?n] by simp
  moreover have "told W (fst (flood_consensus W x ms ?n)) \<subseteq> set ms"
    by (rule Cons.IH)
  ultimately show ?case
    by (auto simp: flood_consensus.simps(2) case_prod_beta Let_def)
qed simp

lemma told_answer:
  assumes "wire_roundtrip W"
  shows "told W (fst (answer W c ms n)) \<subseteq> set ms"
proof (induction ms arbitrary: n)
  case (Cons m ms)
  let ?first = "case m of SyncResponse _ \<Rightarrow> (send_p2p W c (ConsensusEnv m), n) | _ \<Rightarrow> flood_consensus W None [m] n"
  have "told W (fst ?first) \<subseteq> {m}"
    using told_send [OF assms, of c "ConsensusEnv m"] told_flood_consensus [OF assms, of None "[m]" n]
    by (cases m) simp_all
  moreover have "told W (fst (answer W c ms (snd ?first))) \<subseteq> set ms"
    by (rule Cons.IH)
  ultimately show ?case
    unfolding answer.simps(2) Let_def case_prod_beta fst_conv told_simps list.set by blast
qed simp

section \<open>A handler moves the engine by at most one event\<close>

fun unsigned :: "consensus_msg \<Rightarrow> bool" where
  "unsigned (OpMsg op) = True"
| "unsigned (SyncRequest h) = True"
| "unsigned _ = False"

definition drives ::
  "crypto \<Rightarrow> wire \<Rightarrow> consensus_msg set \<Rightarrow> engine \<Rightarrow> effect list \<Rightarrow> engine \<Rightarrow> bool" where
  "drives C W M e out e' \<longleftrightarrow>
     (e' = e \<and> told W out \<subseteq> M \<union> Collect unsigned)
     \<or> (\<exists>ev. e' = snd (engine_step C ev e) \<and> (\<forall>m. ev = Receive m \<longrightarrow> m \<in> M)
          \<and> told W out \<subseteq> M \<union> Collect unsigned \<union> set (fst (engine_step C ev e)))"

lemma drives_idle: "told W out \<subseteq> M \<union> Collect unsigned \<Longrightarrow> drives C W M e out e"
  by (simp add: drives_def)

lemma drives_event:
  "(\<And>m. ev = Receive m \<Longrightarrow> m \<in> M) \<Longrightarrow>
   told W out \<subseteq> M \<union> Collect unsigned \<union> set (fst (engine_step C ev e)) \<Longrightarrow>
   e' = snd (engine_step C ev e) \<Longrightarrow> drives C W M e out e'"
  by (auto simp: drives_def)

lemma drives_told: "drives C W M e out e' \<Longrightarrow> told W out' \<subseteq> told W out \<Longrightarrow> drives C W M e out' e'"
  unfolding drives_def by blast

lemma drives_emit [simp]: "drives C W M e (Emit x # out) e' = drives C W M e out e'"
  by (simp add: drives_def)

lemma drives_mono: "drives C W M e out e' \<Longrightarrow> M \<subseteq> M' \<Longrightarrow> drives C W M' e out e'"
  unfolding drives_def by blast

lemma drives_submit:
  assumes "wire_roundtrip W"
  shows "drives C W M (n_engine n) (fst (submit_and_flood W op n))
    (n_engine (snd (submit_and_flood W op n)))"
proof (rule drives_event [where ev = "SubmitLocal op"])
  show "told W (fst (submit_and_flood W op n))
    \<subseteq> M \<union> Collect unsigned \<union> set (fst (engine_step C (SubmitLocal op) (n_engine n)))"
    using told_flood_consensus [OF assms]
    by (fastforce simp: submit_and_flood_def with_engine_def case_prod_beta Let_def)
qed (simp_all add: submit_and_flood_state)

lemma drives_conn_open:
  "wire_roundtrip W \<Longrightarrow> drives C W M (n_engine n) (fst (conn_open W c n)) (n_engine (snd (conn_open W c n)))"
  using told_send [of W c "PeerHello (my_key n) (my_listen n) (my_name n)"]
  by (simp add: conn_open_def drives_def)

lemma drives_hello:
  assumes "wire_roundtrip W"
  shows "drives C W M (n_engine n) (fst (on_hello C W c key n)) (n_engine (snd (on_hello C W c key n)))"
proof (rule drives_event [where ev = "LinkUp key"])
  have known: "told W (concat (map (\<lambda>v. send_p2p W c (ValidatorMsg v)) vs)) = {}" for vs
    using told_concat_send [OF assms, of ValidatorMsg "{}" c vs] by simp
  have relayed: "told W (flood_envelope W x (ValidatorMsg key) m) = {}" for x m
    using told_flood [OF assms, of x "ValidatorMsg key" m] by simp
  have request: "told W (send_p2p W c (ConsensusEnv (SyncRequest h))) \<subseteq> Collect unsigned" for h
    by (rule subset_trans [OF told_send [OF assms]]) simp
  have pending: "told W (concat (map (\<lambda>op. send_p2p W c (ConsensusEnv (OpMsg op))) ops)) \<subseteq> Collect unsigned" for ops
    by (rule told_concat_send [OF assms]) simp
  show "told W (fst (on_hello C W c key n))
    \<subseteq> M \<union> Collect unsigned \<union> set (fst (engine_step C (LinkUp key) (n_engine n)))"
    by (simp add: on_hello_def with_engine_def Let_def known relayed le_supI1 le_supI2 request pending)
qed (simp_all add: on_hello_def with_engine_def Let_def)

lemma drives_validator:
  assumes "wire_roundtrip W"
  shows "drives C W M (n_engine n) (fst (on_validator W conn key n))
    (n_engine (snd (on_validator W conn key n)))"
proof (cases "hash_key W key \<in> n_seen n")
  case True
  then show ?thesis
    by (simp add: on_validator_def drives_idle)
next
  case False
  then show ?thesis
    using told_flood [OF assms, of _ "ValidatorMsg key"]
    by (intro drives_event [where ev = "LinkUp key"]) (fastforce simp: on_validator_def Let_def)+
qed

lemma drives_process:
  assumes "wire_roundtrip W" and "m \<in> M"
  shows "drives C W M (n_engine n) (fst (process_consensus C W c m n))
    (n_engine (snd (process_consensus C W c m n)))"
proof (rule drives_event [where ev = "Receive m"])
  show "told W (fst (process_consensus C W c m n))
    \<subseteq> M \<union> Collect unsigned \<union> set (fst (engine_step C (Receive m) (n_engine n)))"
    using told_answer [OF assms(1)]
    by (fastforce simp: process_consensus_def with_engine_def case_prod_beta Let_def)
qed (use assms(2) in \<open>simp_all add: process_consensus_state\<close>)

lemma drives_with:
  "drives C W M e out e' \<Longrightarrow> told W out' \<subseteq> M \<union> Collect unsigned \<Longrightarrow> drives C W M e (out' @ out) e'"
  unfolding drives_def told_simps by blast

lemma drives_consensus:
  assumes "wire_roundtrip W" and "m \<in> M"
  shows "drives C W M (n_engine n) (fst (on_consensus C W c conn m n))
    (n_engine (snd (on_consensus C W c conn m n)))"
proof -
  let ?n = "n\<lparr>n_seen := insert (msg_hash W m) (n_seen n)\<rparr>"
  have "drives C W M (n_engine ?n) (flood_envelope W (peer_key conn) (ConsensusEnv m) ?n
      @ fst (process_consensus C W c m ?n)) (n_engine (snd (process_consensus C W c m ?n)))"
    using told_flood [OF assms(1), of "peer_key conn" "ConsensusEnv m"] assms(2)
    by (intro drives_with drives_process [OF assms]) auto
  then show ?thesis
    using drives_process [OF assms, of C n c] drives_idle [of W "[]"]
    by (simp add: on_consensus_def Let_def case_prod_beta)
qed

lemma drives_receive:
  assumes "wire_roundtrip W" and "\<And>m. p2p_parse W line = Some (ConsensusEnv m) \<Longrightarrow> m \<in> M"
  shows "drives C W M (n_engine n) (fst (conn_receive C W c line n))
    (n_engine (snd (conn_receive C W c line n)))"
  using assms(2) by (auto simp: conn_receive_def drives_hello [OF assms(1)] drives_validator [OF assms(1)]
      drives_consensus [OF assms(1)] drives_idle split: option.split p2p_message.split)

lemma drives_close: "drives C W M (n_engine n) (fst (conn_close c n)) (n_engine (snd (conn_close c n)))"
proof (cases "Option.bind (hm_get (n_conns n) c) peer_node_key")
  case None
  then show ?thesis
    by (auto simp: conn_close_def Let_def drives_def split: option.splits)
next
  case (Some key)
  then show ?thesis
    by (intro drives_event [where ev = "LinkDown key"])
      (auto simp: conn_close_def Let_def bind_eq_Some_conv split: option.splits)
qed

lemma drives_round:
  assumes "wire_roundtrip W"
  shows "drives C W M (n_engine n) (fst (round_step C W d g n)) (n_engine (snd (round_step C W d g n)))"
proof (cases g)
  case True
  let ?ev = "engine_step C TryPropose (n_engine n)"
  have "told W (fst (round_step C W d g n)) = told W (fst (flood_consensus W None (fst ?ev) (n\<lparr>n_engine := snd ?ev\<rparr>)))"
    by (simp add: True round_step_def with_engine_def case_prod_beta Let_def)
  also have "\<dots> \<subseteq> set (fst ?ev)"
    by (rule told_flood_consensus [OF assms])
  finally have "told W (fst (round_step C W d g n)) \<subseteq> M \<union> Collect unsigned \<union> set (fst ?ev)"
    by (rule le_supI2)
  then show ?thesis
    by (rule drives_event [rotated])
      (simp_all add: True round_step_def with_engine_def case_prod_beta Let_def flood_consensus_state)
qed (simp add: round_step_def case_prod_beta Let_def drives_idle)

lemma drives_sync:
  assumes "wire_roundtrip W"
  shows "drives C W M (n_engine n) (fst (sync_step W n)) (n_engine (snd (sync_step W n)))"
proof -
  have "told W (fst (sync_step W n)) \<subseteq> Collect unsigned"
    using told_flood_consensus [OF assms, of None
        "SyncRequest (e_next_index (n_engine n)) # map OpMsg (mempool (n_engine n))" n]
    by (auto simp: sync_step_def Let_def)
  then show ?thesis
    by (simp add: sync_step_def Let_def flood_consensus_state drives_def le_supI2)
qed

lemma drives_executor:
  assumes "wire_roundtrip W"
  shows "drives C W M (n_engine n) (fst (executor_step C W U P elapsed eph nonce n))
    (n_engine (snd (executor_step C W U P elapsed eph nonce n)))"
proof -
  have loop: "n_engine (set_loop l n) = n_engine n" for l
    by (simp add: set_loop_def)
  have submit: "drives C W M (n_engine n) (fst (submit_and_flood W op (set_loop l n)))
      (n_engine (snd (submit_and_flood W op (set_loop l n))))" for op l
    using drives_submit [OF assms, of C M "set_loop l n"] by (simp only: loop)
  have idle: "drives C W M e [] e" for e
    by (simp add: drives_idle)
  have poll: "drives C W M (n_engine n) (fst (executor_poll W l n)) (n_engine (snd (executor_poll W l n)))" for l
    by (simp add: executor_poll_def Let_def loop submit idle split: option.split phase.split)
  have report: "drives C W M (n_engine n) (fst (executor_report C W U P elapsed eph nonce l tid p rew enc n))
      (n_engine (snd (executor_report C W U P elapsed eph nonce l tid p rew enc n)))" for l tid p rew enc
    by (simp add: executor_report_def Let_def case_prod_beta loop idle submit split: option.split)
  show ?thesis
    by (simp add: executor_step_def poll report executor_wait_def Let_def loop idle split: option.split phase.split)
qed

lemma told_packages: "told W (ensure_packages P pkgs) = {}"
  by (auto simp: told_def ensure_packages_def List.map_filter_def split: install_outcome.splits if_splits)

lemma drives_command:
  assumes "wire_roundtrip W" and "command_step C W P d cmd n = (out, Some n')"
  shows "drives C W M (n_engine n) out (n_engine n')"
proof -
  have "drives C W M (n_engine n) (fst (donate_step W pid amount n))
      (n_engine (snd (donate_step W pid amount n)))" for pid amount
    by (auto simp: donate_step_def Let_def case_prod_beta drives_idle intro: drives_told [OF drives_submit [OF assms(1)]])
  then show ?thesis
    using assms(2) drives_submit [OF assms(1), of C M n]
    by (auto simp: command_step_def case_prod_beta start_executor_def told_packages Let_def drives_idle
        split: app_command.splits if_splits)
qed

lemma step_ran: "map_prod id Some r = (out, Some n) \<longleftrightarrow> r = (out, n)"
  by (cases r) simp

lemma drives_ran:
  "drives C W M e (fst r) (n_engine (snd r)) \<Longrightarrow> map_prod id Some r = (out, Some n) \<Longrightarrow>
   drives C W M e out (n_engine n)"
  by (auto simp: step_ran)

lemma drives_node:
  assumes "wire_roundtrip (w_wire E)" and "node_step E ev n = (out, Some n')"
    and "\<And>c line m. ev = Line c line \<Longrightarrow> p2p_parse (w_wire E) line = Some (ConsensusEnv m) \<Longrightarrow> m \<in> M"
  shows "drives (w_crypto E) (w_wire E) M (n_engine n) out (n_engine n')"
proof (cases ev)
  case (Command cmd)
  then show ?thesis
    using assms drives_command [OF assms(1)] by simp
next
  case (Line c line)
  then show ?thesis
    using assms(2) drives_receive [OF assms(1) assms(3) [OF Line], of line "w_crypto E" n c]
    by (simp add: step_ran)
next
  case ClockTimer
  then show ?thesis
    using assms(2) drives_submit [OF assms(1), of "w_crypto E" M n "Tick 1"]
    by (auto simp: clock_step_def Let_def step_ran drives_idle split: if_splits)
next
  case (Dialed addr res)
  then show ?thesis
    using assms(2)
    by (auto simp: dial_result_def case_prod_beta Let_def drives_idle drives_conn_open [OF assms(1)] split: sum.splits)
next
  case (Accepted addr c)
  then show ?thesis
    using assms(2)
    by (auto simp: accept_peer_def case_prod_beta Let_def drives_conn_open [OF assms(1)])
qed (use assms(2) in \<open>auto intro: drives_ran [OF drives_round [OF assms(1)]] drives_ran [OF drives_close]
    drives_ran [OF drives_sync [OF assms(1)]] drives_ran [OF drives_executor [OF assms(1)]]\<close>)

section \<open>The fleet\<close>

text \<open>The last state of every honest node that was started, those that have stopped, every line
  that was written, and every block an honest node has held in its chain or as a proposal. A node
  that has stopped does not come back: one that restarts has forgotten its votes.\<close>

record fleet =
  nodes :: "node_key \<Rightarrow> node option"
  stopped :: "node_key set"
  written :: "string set"
  handled :: "op_block set"

definition held :: "engine \<Rightarrow> op_block set" where
  "held e = set (e_chain e) \<union> set (map snd (concat (map snd (proposals e))))"

lemma held_proposal:
  assumes "hm_get (proposals e) h = Some m" and "hm_get m k = Some b"
  shows "b \<in> held e"
proof -
  have "(h, m) \<in> set (proposals e)" and b: "(k, b) \<in> set m"
    using assms by (blast dest: map_of_SomeD)+
  then have "m \<in> set (map snd (proposals e))"
    by (metis image_eqI list.set_map snd_conv)
  with b have "(k, b) \<in> set (concat (map snd (proposals e)))"
    unfolding set_concat by blast
  then have "b \<in> set (map snd (concat (map snd (proposals e))))"
    by (metis image_eqI list.set_map snd_conv)
  then show ?thesis
    unfolding held_def by blast
qed

definition writes :: "effect list \<Rightarrow> string set" where
  "writes out = set (List.map_filter (\<lambda>x. case x of SendLine c line \<Rightarrow> Some line | _ \<Rightarrow> None) out)"

lemma in_writes: "line \<in> writes out \<longleftrightarrow> (\<exists>c. SendLine c line \<in> set out)"
proof (induction out)
  case (Cons x out)
  then show ?case
    by (cases x) (auto simp: writes_def List.map_filter_simps)
qed (simp add: writes_def List.map_filter_simps)

definition settle :: "node_key \<Rightarrow> node option step \<Rightarrow> fleet \<Rightarrow> fleet" where
  "settle v r f = (case r of
     (out, None) \<Rightarrow> f\<lparr>stopped := insert v (stopped f), written := written f \<union> writes out\<rparr>
   | (out, Some n) \<Rightarrow> f\<lparr>nodes := (nodes f)(v := Some n), written := written f \<union> writes out,
                        handled := handled f \<union> held (n_engine n)\<rparr>)"

text \<open>The signatures in a message, and those that a line has shown to everybody.\<close>

definition msg_votes :: "consensus_msg \<Rightarrow> (node_key \<times> bytes32 \<times> bytes) list" where
  "msg_votes m = (case m of Vote h k v sig \<Rightarrow> [(v, k, sig)] | _ \<Rightarrow> [])
     @ concat (map (\<lambda>b. map (\<lambda>w. (voter w, ob_hash b, signature w)) (ob_votes b)) (msg_blocks m))"

definition overheard :: "crypto \<Rightarrow> wire \<Rightarrow> fleet \<Rightarrow> node_key \<Rightarrow> bytes32 \<Rightarrow> bool" where
  "overheard C W f v k \<longleftrightarrow> (\<exists>line\<in>written f. \<exists>m sig. p2p_parse W line = Some (ConsensusEnv m)
     \<and> (v, k, sig) \<in> set (msg_votes m) \<and> verify_sig C v k sig)"

text \<open>A line without forgeries: a signature in it that verifies as one of an honest node was seen
  before.\<close>

definition no_forgery :: "crypto \<Rightarrow> wire \<Rightarrow> node_key set \<Rightarrow> fleet \<Rightarrow> string \<Rightarrow> bool" where
  "no_forgery C W H f line \<longleftrightarrow> (\<forall>m. p2p_parse W line = Some (ConsensusEnv m) \<longrightarrow>
     (\<forall>(v, k, sig)\<in>set (msg_votes m). v \<in> H \<longrightarrow> verify_sig C v k sig \<longrightarrow> overheard C W f v k))"

text \<open>A node starts without a chain on its disk, or takes an event; what it reads was written by
  somebody, on whatever connection; the adversary writes.\<close>

inductive fleet_step ::
  "crypto \<Rightarrow> wire \<Rightarrow> (node_key \<Rightarrow> world) \<Rightarrow> membership \<Rightarrow> fleet \<Rightarrow> fleet \<Rightarrow> bool"
  for C W E P where
  boot: "v \<in> honest P \<Longrightarrow> nodes f v = None \<Longrightarrow>
    role_start C W (w_python (E v)) role (ident_of P v) listen None None bootstrap name balance pkgs
      = (out, Some n) \<Longrightarrow>
    fleet_step C W E P f (settle v (out, Some n) f)"
| act: "nodes f v = Some n \<Longrightarrow> v \<notin> stopped f \<Longrightarrow>
    (\<And>c line. ev = Line c line \<Longrightarrow> line \<in> written f) \<Longrightarrow>
    fleet_step C W E P f (settle v (node_step (E v) ev n) f)"
| inject: "no_forgery C W (honest P) f line \<Longrightarrow>
    fleet_step C W E P f (f\<lparr>written := insert line (written f)\<rparr>)"

definition fleet_init :: fleet where
  "fleet_init = \<lparr>nodes = (\<lambda>v. None), stopped = {}, written = {}, handled = {}\<rparr>"

inductive fleet_reaches ::
  "crypto \<Rightarrow> wire \<Rightarrow> (node_key \<Rightarrow> world) \<Rightarrow> membership \<Rightarrow> fleet \<Rightarrow> bool"
  for C W E P where
  start: "fleet_reaches C W E P fleet_init"
| step: "fleet_reaches C W E P f \<Longrightarrow> fleet_step C W E P f g \<Longrightarrow> fleet_reaches C W E P g"

inductive_cases fleet_stepE: "fleet_step C W E P f g"

text \<open>The nodes know only themselves at first, hold their keys, and share the cryptography and the
  format of the lines.\<close>

definition fleet_ok :: "crypto \<Rightarrow> wire \<Rightarrow> (node_key \<Rightarrow> world) \<Rightarrow> membership \<Rightarrow> bool" where
  "fleet_ok C W E P \<longleftrightarrow> membership_ok C P \<and> (\<forall>v. known_of P v = []) \<and> wire_roundtrip W
     \<and> (\<forall>v\<in>honest P. w_crypto (E v) = C \<and> w_wire (E v) = W)"

section \<open>The fleet refines the cluster\<close>

lemma msg_sigs_votes: "msg_sigs G m \<longleftrightarrow> (\<forall>(v, k, sig)\<in>set (msg_votes m). G v k sig)"
proof -
  have blocks: "(\<forall>(v, k, sig)\<in>set (concat (map (\<lambda>b. map (\<lambda>w. (voter w, ob_hash b, signature w)) (ob_votes b)) bs)).
      G v k sig) \<longleftrightarrow> list_all (block_sigs G) bs" for bs :: "op_block list"
    by (induction bs) (simp_all add: block_sigs_def ball_Un)
  show ?thesis
    using blocks [of "msg_blocks m"] by (cases m) (auto simp: msg_sigs_def msg_votes_def)
qed

lemma unsigned_sigs: "unsigned m \<Longrightarrow> msg_sigs G m"
  by (cases m) simp_all

text \<open>A block that was voted for is still held after the step.\<close>

lemma kept_proposal:
  "\<exists>b'\<in>held (snd (vote_and_commit C (ob_index b) (ob_hash b) (store_proposal b e))).
     ob_index b' = ob_index b \<and> ob_hash b' = ob_hash b \<and> block_body b' = block_body b"
  if "proposal_ok C e (ob_hash b) b"
proof -
  let ?e = "snd (cast_vote C (ob_index b) (ob_hash b) (store_proposal b e))"
  have kept: "b \<in> held ?e"
    by (rule held_proposal [of _ "ob_index b" _ "ob_hash b"]) (simp add: store_proposal_def Let_def, simp)
  have fits: "ob_index b = e_next_index ?e" "ob_prev b = e_head_hash ?e"
    using that by (simp_all add: proposal_ok_def e_next_index_def e_head_hash_def)
  show ?thesis
  proof (cases rule: maybe_commit_cases [of C "ob_index b" "ob_hash b" ?e])
    case waiting
    then show ?thesis
      using kept by (auto simp: vote_and_commit_parts)
  next
    case (sealed m b')
    then have "b' = b"
      by (auto simp: store_proposal_def Let_def)
    then show ?thesis
      using fits by (auto simp: vote_and_commit_parts sealed(5) append_and_apply_def held_def block_body_def)
  qed
qed

lemma votes_held:
  assumes "Vote h k w sig \<in> set (fst (engine_step C ev e))"
  shows "\<exists>b\<in>held (snd (engine_step C ev e)). hash_ok C b \<and> ob_index b = h \<and> ob_hash b = k"
proof -
  obtain b e0 where b: "ob_index b = h" "ob_hash b = k" "hash_ok C b" "proposal_ok C e0 k b"
    and "snd (engine_step C ev e) = snd (vote_and_commit C h k (store_proposal b e0))"
    using step_votes_for [OF assms] by blast
  then obtain b' where "b' \<in> held (snd (engine_step C ev e))" "ob_index b' = h" "ob_hash b' = k"
    "block_body b' = block_body b"
    using kept_proposal [of C e0 b] by auto
  then show ?thesis
    using b(3,1,2) by (intro bexI [of _ b']) (auto simp: hash_ok_def block_body_def)
qed

lemma reaches_inject:
  assumes "finite M" and "reachable C P s" and "\<forall>m\<in>M. msg_sigs (genuine C P s) m"
  shows "reachable C P (s\<lparr>soup := M \<union> soup s\<rparr>)"
  using assms
proof (induction M)
  case (insert m M)
  let ?s = "s\<lparr>soup := M \<union> soup s\<rparr>"
  have "reachable C P ?s"
    by (rule insert.IH) (use insert.prems in simp_all)
  moreover have "cluster_step C P ?s (?s\<lparr>soup := insert m (soup ?s)\<rparr>)"
    using insert.prems(2) by (intro cluster_step.inject) simp
  ultimately have "reachable C P (?s\<lparr>soup := insert m (soup ?s)\<rparr>)"
    by (rule reachable.step)
  then show ?case
    by simp
qed simp

text \<open>One handler of a node is a few steps of the cluster.\<close>

lemma drives_cluster:
  assumes "reachable C P s" and "v \<in> honest P" and "drives C W (soup s) (node_at C P s v) out e'"
  obtains t where "reachable C P t" and "node_at C P t v = e'"
    and "\<And>w. w \<noteq> v \<Longrightarrow> history t w = history s w"
    and "soup s \<union> told W out \<subseteq> soup t"
    and "\<And>B. votes_within C P B s \<Longrightarrow> votes_within C P (B \<union> held e') t"
proof -
  let ?U = "{m \<in> told W out. unsigned m}"
  have extend: "reachable C P (t\<lparr>soup := ?U \<union> soup t\<rparr>)" if "reachable C P t" for t
    using that by (intro reaches_inject) (simp_all add: finite_told unsigned_sigs)
  from assms(3) consider (idle) "e' = node_at C P s v" "told W out \<subseteq> soup s \<union> Collect unsigned"
    | (event) ev where "e' = snd (engine_step C ev (node_at C P s v))" "\<forall>m. ev = Receive m \<longrightarrow> m \<in> soup s"
      "told W out \<subseteq> soup s \<union> Collect unsigned \<union> set (fst (engine_step C ev (node_at C P s v)))"
    unfolding drives_def by blast
  then show thesis
  proof cases
    case idle
    show thesis
    proof (rule that [OF extend [OF assms(1)]])
      show "soup s \<union> told W out \<subseteq> soup (s\<lparr>soup := ?U \<union> soup s\<rparr>)"
        using idle(2) by auto
      show "votes_within C P (B \<union> held e') (s\<lparr>soup := ?U \<union> soup s\<rparr>)" if "votes_within C P B s" for B
        using that unfolding votes_within_def soup_frame by blast
    qed (simp_all add: idle(1))
  next
    case event
    let ?t = "advance C P v ev s"
    have "cluster_step C P s ?t"
      using event(2) by (cases ev) (auto intro: cluster_step.drive cluster_step.deliver assms(2))
    then have "reachable C P ?t"
      by (rule reachable.step [OF assms(1)])
    then show thesis
    proof (rule that [OF extend])
      show "soup s \<union> told W out \<subseteq> soup (?t\<lparr>soup := ?U \<union> soup ?t\<rparr>)"
        using event(3) by (auto simp: advance_def)
      show "votes_within C P (B \<union> held e') (?t\<lparr>soup := ?U \<union> soup ?t\<rparr>)" if old: "votes_within C P B s" for B
        unfolding votes_within_def soup_frame
      proof (intro ballI allI impI)
        fix w h k u sig
        assume w: "w \<in> honest P" and vote: "Vote h k u sig \<in> set (fst (Cluster.node_run C P ?t w))"
        show "\<exists>b\<in>B \<union> held e'. hash_ok C b \<and> ob_index b = h \<and> ob_hash b = k"
        proof (cases "Vote h k u sig \<in> set (fst (Cluster.node_run C P s w))")
          case True
          then show ?thesis
            using old w unfolding votes_within_def by blast
        next
          case False
          then have "Vote h k u sig \<in> set (fst (engine_step C ev (node_at C P s v)))"
            using vote by (simp add: node_run_advance split: if_splits)
          from votes_held [OF this] show ?thesis
            unfolding event(1) by blast
        qed
      qed
      show "node_at C P (?t\<lparr>soup := ?U \<union> soup ?t\<rparr>) v = e'"
        unfolding soup_frame by (simp add: event(1) node_at_advance)
    qed (simp add: advance_def)
  qed
qed

text \<open>A fleet and a cluster that stand for each other.\<close>

definition mirrors :: "crypto \<Rightarrow> wire \<Rightarrow> membership \<Rightarrow> fleet \<Rightarrow> cluster \<Rightarrow> bool" where
  "mirrors C W P f s \<longleftrightarrow> reachable C P s
     \<and> (\<forall>v\<in>honest P. case nodes f v of None \<Rightarrow> history s v = [] | Some n \<Rightarrow> node_at C P s v = n_engine n)
     \<and> (\<forall>v. v \<notin> honest P \<longrightarrow> nodes f v = None)
     \<and> (\<forall>line\<in>written f. \<forall>m. p2p_parse W line = Some (ConsensusEnv m) \<longrightarrow> m \<in> soup s)
     \<and> votes_within C P (handled f) s"

lemma mirrors_node:
  assumes "mirrors C W P f s" and "nodes f v = Some n"
  shows "v \<in> honest P" and "node_at C P s v = n_engine n"
proof -
  show v: "v \<in> honest P"
    using assms unfolding mirrors_def by fastforce
  have "\<forall>v\<in>honest P. case nodes f v of None \<Rightarrow> history s v = [] | Some n \<Rightarrow> node_at C P s v = n_engine n"
    using assms(1) by (simp add: mirrors_def)
  from bspec [OF this v] show "node_at C P s v = n_engine n"
    by (simp add: assms(2))
qed

lemma mirrors_idle:
  assumes "mirrors C W P f s" and "v \<in> honest P" and "nodes f v = None"
  shows "node_at C P s v = engine_new C (ident_of P v) (known_of P v)"
proof -
  have "\<forall>v\<in>honest P. case nodes f v of None \<Rightarrow> history s v = [] | Some n \<Rightarrow> node_at C P s v = n_engine n"
    using assms(1) by (simp add: mirrors_def)
  from bspec [OF this assms(2)] show ?thesis
    by (simp add: assms(3) node_at_def Cluster.node_run_def)
qed

lemma mirrors_line:
  "mirrors C W P f s \<Longrightarrow> line \<in> written f \<Longrightarrow> p2p_parse W line = Some (ConsensusEnv m) \<Longrightarrow> m \<in> soup s"
  unfolding mirrors_def by blast

lemma writes_told: "line \<in> writes out \<Longrightarrow> p2p_parse W line = Some (ConsensusEnv m) \<Longrightarrow> m \<in> told W out"
  by (auto simp: in_writes told_def)

lemma mirrors_settle:
  assumes "mirrors C W P f s" and "v \<in> honest P"
    and "drives C W (soup s) (node_at C P s v) out (n_engine n)"
  shows "\<exists>t. mirrors C W P (settle v (out, Some n) f) t"
proof -
  obtain t where t: "reachable C P t" "node_at C P t v = n_engine n"
    "\<And>w. w \<noteq> v \<Longrightarrow> history t w = history s w"
    "soup s \<union> told W out \<subseteq> soup t"
    "\<And>B. votes_within C P B s \<Longrightarrow> votes_within C P (B \<union> held (n_engine n)) t"
    using drives_cluster [OF _ assms(2,3)] assms(1) unfolding mirrors_def by metis
  have "node_at C P t w = node_at C P s w" if "w \<noteq> v" for w
    using t(3) [OF that] by (simp add: node_at_def Cluster.node_run_def)
  then have "mirrors C W P (settle v (out, Some n) f) t"
    using assms(1,2) t writes_told [of _ out W]
    unfolding mirrors_def settle_def by (auto split: option.splits)
  then show ?thesis ..
qed

lemma drives_start:
  assumes "wire_roundtrip W"
    and "role_start C W Py role i listen None None bootstrap name balance pkgs = (out, Some n)"
  shows "drives C W M (engine_new C i []) out (n_engine n)"
proof -
  have dials: "told W (dials xs) = {}" for xs
    by (auto simp: told_def dials_def)
  let ?n = "(node_new C role i (case listen of None \<Rightarrow> [] | Some a \<Rightarrow> a) name)\<lparr>last_saved := 1\<rparr>"
  have new: "n_engine ?n = engine_new C i []"
    by (simp add: node_new_def Let_def)
  let ?r = "submit_and_flood W (RegisterParticipant (my_addr ?n) (my_name ?n) (my_key ?n) balance) ?n"
  have "drives C W M (engine_new C i []) (fst ?r) (n_engine (snd ?r))"
    using drives_submit [OF assms(1), of C M ?n] unfolding new by blast
  moreover have "told W out \<subseteq> told W (fst ?r)" and "n_engine n = n_engine (snd ?r)"
    using assms(2)
    by (auto simp: role_start_def register_self_def load_chain_def start_executor_def Let_def
        case_prod_beta dials told_packages node_new_def engine_new_def split: option.splits if_splits)
  ultimately show ?thesis
    using drives_told by metis
qed

lemma step_goes_on: "map_prod id Some r \<noteq> (out, None)"
  by (cases r) simp

lemma stop_writes:
  assumes "node_step E ev n = (out, None)"
  shows "writes out = {}"
proof -
  have "out = stop_node (w_crypto E) (w_wire E) (w_data_dir E) n"
    using assms by (cases ev) (auto simp: step_goes_on command_step_def case_prod_beta Let_def
        split: app_command.splits if_splits)
  then show ?thesis
    by (simp add: writes_def stop_node_def)
qed

lemma mirrors_inject:
  assumes "mirrors C W P f s" and "membership_ok C P" and "no_forgery C W (honest P) f line"
  shows "\<exists>t. mirrors C W P (f\<lparr>written := insert line (written f)\<rparr>) t"
proof (cases "\<exists>m. p2p_parse W line = Some (ConsensusEnv m)")
  case True
  then obtain m where m: "p2p_parse W line = Some (ConsensusEnv m)" ..
  have run: "reachable C P s"
    using assms(1) by (simp add: mirrors_def)
  have signed: "has_signed C P s v k" if heard: "overheard C W f v k" and v: "v \<in> honest P" for v k
  proof -
    obtain m sig where "m \<in> soup s" "(v, k, sig) \<in> set (msg_votes m)" "verify_sig C v k sig"
      using heard assms(1) unfolding overheard_def mirrors_def by blast
    moreover have "msg_sigs (genuine C P s) m"
      using cluster_ok_reachable [OF run assms(2)] \<open>m \<in> soup s\<close> by (simp add: cluster_ok_def)
    ultimately show ?thesis
      using v by (auto simp: msg_sigs_votes genuine_def)
  qed
  have "msg_sigs (genuine C P s) m"
    using assms(3) m signed unfolding no_forgery_def msg_sigs_votes genuine_def by blast
  then have "reachable C P (s\<lparr>soup := {m} \<union> soup s\<rparr>)"
    using run by (intro reaches_inject) simp_all
  then have "mirrors C W P (f\<lparr>written := insert line (written f)\<rparr>) (s\<lparr>soup := {m} \<union> soup s\<rparr>)"
    using assms(1) m by (auto simp: mirrors_def votes_within_def split: option.split)
  then show ?thesis ..
next
  case False
  then have "mirrors C W P (f\<lparr>written := insert line (written f)\<rparr>) s"
    using assms(1) by (auto simp: mirrors_def)
  then show ?thesis ..
qed

lemma fleet_mirrors:
  assumes "fleet_reaches C W E P f" and "fleet_ok C W E P"
  shows "\<exists>s. mirrors C W P f s"
  using assms(1)
proof induction
  case start
  have "mirrors C W P fleet_init cluster_init"
    by (auto simp: mirrors_def fleet_init_def cluster_init_def votes_within_def Cluster.node_run_def
        reachable.start [unfolded cluster_init_def])
  then show ?case ..
next
  case (step f g)
  obtain s where s: "mirrors C W P f s"
    using step.IH ..
  have members: "membership_ok C P" and known: "known_of P v = []" and wire: "wire_roundtrip W" for v
    using assms(2) by (simp_all add: fleet_ok_def)
  from step.hyps(2) show ?case
  proof cases
    case (boot v role listen bootstrap name balance pkgs out n)
    have "node_at C P s v = engine_new C (ident_of P v) []"
      by (simp add: mirrors_idle [OF s boot(2,3)] known)
    then have "drives C W (soup s) (node_at C P s v) out (n_engine n)"
      using drives_start [OF wire boot(4)] by simp
    then show ?thesis
      unfolding boot(1) by (rule mirrors_settle [OF s boot(2)])
  next
    case (act v n ev)
    note v = mirrors_node [OF s act(2)]
    have same: "w_crypto (E v) = C" "w_wire (E v) = W"
      using assms(2) v by (simp_all add: fleet_ok_def)
    obtain out r where r: "node_step (E v) ev n = (out, r)"
      by fastforce
    show ?thesis
    proof (cases r)
      case None
      then have "mirrors C W P g s"
        using s stop_writes [of "E v" ev n out] r by (simp add: act(1) settle_def mirrors_def)
      then show ?thesis ..
    next
      case (Some n')
      have "drives (w_crypto (E v)) (w_wire (E v)) (soup s) (n_engine n) out (n_engine n')"
        using wire r Some act(4) mirrors_line [OF s] by (intro drives_node) (simp_all add: same, blast)
      then have "drives C W (soup s) (node_at C P s v) out (n_engine n')"
        by (simp only: same v(2))
      then show ?thesis
        unfolding act(1) r Some by (rule mirrors_settle [OF s v(1)])
    qed
  next
    case (inject line)
    then show ?thesis
      using mirrors_inject [OF s members] by blast
  qed
qed

section \<open>A run of two nodes\<close>

text \<open>Two nodes: the first registers itself in a block of its own, the second asks for it by the
  lines of the format that the exchange needs.\<close>

definition fleet_crypto :: crypto where
  "fleet_crypto = cluster_crypto\<lparr>sha256 := (\<lambda>bs. [of_nat (length bs)])\<rparr>"

definition demo_sealed :: "op_block list" where
  "demo_sealed = (e_chain (snd (engine_run fleet_crypto
     [SubmitLocal (RegisterParticipant (node_address key_a) ''ann'' key_a 10), TryPropose]
     (engine_new fleet_crypto demo_identity []))))"

definition demo_lines :: "(p2p_message \<times> string) list" where
  "demo_lines = [(ConsensusEnv (SyncRequest 0), ''request''), (ConsensusEnv (SyncResponse demo_sealed), ''response'')]"

definition demo_wire :: wire where
  "demo_wire = toy_wire\<lparr>p2p_json := map_of demo_lines, p2p_parse := map_of (map (\<lambda>(m, l). (l, m)) demo_lines)\<rparr>"

definition demo_worlds :: "node_key \<Rightarrow> world" where
  "demo_worlds v = toy_world\<lparr>w_crypto := fleet_crypto, w_wire := demo_wire\<rparr>"

text \<open>Moves of this fleet that can be computed.\<close>

datatype fleet_move = Boot node_key node_role | Act node_key node_event | Write string

fun make_move :: "fleet_move \<Rightarrow> fleet \<Rightarrow> fleet option" where
  "make_move (Boot v role) f =
     (if v \<in> honest demo_members \<and> nodes f v = None then
        case role_start fleet_crypto demo_wire toy_python role (ident_of demo_members v) None None None [] ''ann'' 10 [] of
          (out, None) \<Rightarrow> None | (out, Some n) \<Rightarrow> Some (settle v (out, Some n) f)
      else None)"
| "make_move (Act v ev) f =
     (case nodes f v of None \<Rightarrow> None
      | Some n \<Rightarrow> if v \<in> stopped f \<or> (case ev of Line c line \<Rightarrow> line \<notin> written f | _ \<Rightarrow> False) then None
          else Some (settle v (node_step (demo_worlds v) ev n) f))"
| "make_move (Write line) f =
     (case p2p_parse demo_wire line of
        Some (ConsensusEnv m) \<Rightarrow> if msg_votes m = [] then Some (f\<lparr>written := insert line (written f)\<rparr>) else None
      | _ \<Rightarrow> None)"

definition demo_moves :: "fleet_move list" where
  "demo_moves = [Boot key_a RoleCoordinator, Act key_a (RoundTimer True), Write ''request'',
     Act key_a (Accepted ''addr'' 1), Act key_a (Line 1 ''request''), Boot key_b RoleWorker,
     Act key_b (Accepted ''addr'' 1), Act key_b (Line 1 ''response'')]"

fun make_moves :: "fleet_move list \<Rightarrow> fleet \<Rightarrow> fleet option" where
  "make_moves [] f = Some f"
| "make_moves (mv # mvs) f = Option.bind (make_move mv f) (make_moves mvs)"

lemma move_step:
  assumes "make_move mv f = Some g"
  shows "fleet_step fleet_crypto demo_wire demo_worlds demo_members f g"
proof (cases mv)
  case (Boot v role)
  then obtain out n where "v \<in> honest demo_members" "nodes f v = None"
    "role_start fleet_crypto demo_wire (w_python (demo_worlds v)) role (ident_of demo_members v) None None None
       [] ''ann'' 10 [] = (out, Some n)" "g = settle v (out, Some n) f"
    using assms by (auto simp: demo_worlds_def toy_world_def split: if_splits prod.splits option.splits)
  then show ?thesis
    using fleet_step.boot by blast
next
  case (Act v ev)
  then obtain n where "nodes f v = Some n" "v \<notin> stopped f"
    "g = settle v (node_step (demo_worlds v) ev n) f" "\<And>c line. ev = Line c line \<Longrightarrow> line \<in> written f"
    using assms by (cases ev) (auto split: option.splits if_splits)
  then show ?thesis
    using fleet_step.act by metis
next
  case (Write line)
  then obtain m where "p2p_parse demo_wire line = Some (ConsensusEnv m)" "msg_votes m = []"
    and g: "g = f\<lparr>written := insert line (written f)\<rparr>"
    using assms by (auto split: option.splits p2p_message.splits if_splits)
  then have "no_forgery fleet_crypto demo_wire (honest demo_members) f line"
    by (simp add: no_forgery_def)
  then show ?thesis
    unfolding g by (rule fleet_step.inject)
qed

lemma moves_reach:
  "make_moves mvs f = Some g \<Longrightarrow> fleet_reaches fleet_crypto demo_wire demo_worlds demo_members f \<Longrightarrow>
   fleet_reaches fleet_crypto demo_wire demo_worlds demo_members g"
  by (induction mvs arbitrary: f) (auto simp: bind_eq_Some_conv intro: fleet_reaches.step move_step)

lemma demo_fleet_ok: "fleet_ok fleet_crypto demo_wire demo_worlds demo_members"
proof -
  have "membership_ok fleet_crypto demo_members"
    using demo_members_ok by (simp add: membership_ok_def signatures_ok_def fleet_crypto_def public_key_bytes_def
        sign_nonce_def verify_sig_def)
  moreover have "wire_roundtrip demo_wire"
    by (auto simp: wire_roundtrip_def demo_wire_def demo_lines_def split: if_splits)
  ultimately show ?thesis
    by (simp add: fleet_ok_def demo_worlds_def demo_members_def)
qed

section \<open>Agreement of running nodes\<close>

text \<open>C3: a fleet of running nodes agrees: whatever the nodes' timers, users, workers and connections
  do, in whatever order lines arrive, however often or never, and whatever an adversary with
  fewer than a third of the validators writes without forging an honest signature, the chains of
  two honest nodes whose blocks carry their right hash and signatures of a quorum of the same
  validators are equal as far as the shorter reaches, but for the gathered signatures, and nodes
  of equal height hold the same replica. Nodes start without a stored chain and do not come back
  after they stop; the hash function has no collision among the blocks they hold.\<close>

theorem fleet_agrees:
  assumes "fleet_reaches C W E P f" and "fleet_ok C W E P"
    and "finite V" and "card V < 2 ^ 63" and "3 * card (V - honest P) < card V"
    and "nodes f i = Some n" and "nodes f j = Some m"
    and "list_all (well_sealed C V) (e_chain (n_engine n) @ e_chain (n_engine m))"
    and "no_clash C (handled f \<union> set (e_chain (n_engine n) @ e_chain (n_engine m)))"
    and "\<forall>v n. nodes f v = Some n \<longrightarrow> length (e_chain (n_engine n)) < 2 ^ 64"
  shows "map block_body (take (length (e_chain (n_engine m))) (e_chain (n_engine n)))
      = map block_body (take (length (e_chain (n_engine n))) (e_chain (n_engine m)))
    \<and> (length (e_chain (n_engine n)) = length (e_chain (n_engine m)) \<longrightarrow>
        e_state (n_engine n) = e_state (n_engine m))"
proof -
  obtain s where s: "mirrors C W P f s"
    using fleet_mirrors [OF assms(1,2)] ..
  then have run: "reachable C P s" and within: "votes_within C P (handled f) s"
    by (simp_all add: mirrors_def)
  note i = mirrors_node [OF s assms(6)] and j = mirrors_node [OF s assms(7)]
  have short: "\<forall>v\<in>honest P. length (e_chain (node_at C P s v)) < 2 ^ 64"
  proof
    fix v assume v: "v \<in> honest P"
    show "length (e_chain (node_at C P s v)) < 2 ^ 64"
    proof (cases "nodes f v")
      case None
      then show ?thesis
        by (simp add: mirrors_idle [OF s v] engine_new_def Let_def)
    next
      case (Some k)
      then show ?thesis
        using assms(10) by (simp add: mirrors_node [OF s Some])
    qed
  qed
  have members: "membership_ok C P"
    using assms(2) by (simp add: fleet_ok_def)
  show ?thesis
    using chains_agree [OF run members assms(3-5) i(1) j(1) refl refl _ _ short within] assms(8,9)
    unfolding i(2) j(2) by blast
qed

theorem fleet_agrees_witness:
  "case make_moves demo_moves fleet_init of None \<Rightarrow> False | Some f \<Rightarrow>
     (case (nodes f key_a, nodes f key_b) of (Some n, Some m) \<Rightarrow>
        length (e_chain (n_engine n)) = 2 \<and> e_state (n_engine n) = e_state (n_engine m) | _ \<Rightarrow> False)"
proof -
  let ?V = "{key_a}" and ?chain = "\<lambda>n. e_chain (n_engine n)"
  have "case make_moves demo_moves fleet_init of None \<Rightarrow> False | Some f \<Rightarrow>
     (case (nodes f key_a, nodes f key_b) of (Some n, Some m) \<Rightarrow>
        length (?chain n) = 2 \<and> length (?chain m) = 2
        \<and> list_all (well_sealed fleet_crypto ?V) (?chain n @ ?chain m)
        \<and> no_clash fleet_crypto (handled f \<union> set (?chain n @ ?chain m)) | _ \<Rightarrow> False)"
    by code_simp
  then obtain f n m where run: "make_moves demo_moves fleet_init = Some f"
    and n: "nodes f key_a = Some n" and m: "nodes f key_b = Some m"
    and len: "length (?chain n) = 2" "length (?chain m) = 2"
    and sealed: "list_all (well_sealed fleet_crypto ?V) (?chain n @ ?chain m)"
    and clash: "no_clash fleet_crypto (handled f \<union> set (?chain n @ ?chain m))"
    by (auto split: option.splits)
  note reached = moves_reach [OF run fleet_reaches.start]
  have short: "\<forall>v k. nodes f v = Some k \<longrightarrow> length (?chain k) < 2 ^ 64"
  proof (intro allI impI)
    fix v k assume k: "nodes f v = Some k"
    obtain s where "mirrors fleet_crypto demo_wire demo_members f s"
      using fleet_mirrors [OF reached demo_fleet_ok] ..
    then have "v \<in> honest demo_members"
      using k by (rule mirrors_node)
    then have "v = key_a \<or> v = key_b"
      by (simp add: demo_members_def)
    then show "length (?chain k) < 2 ^ 64"
      using k n m len by auto
  qed
  have "e_state (n_engine n) = e_state (n_engine m)"
    by (rule fleet_agrees [OF reached demo_fleet_ok _ _ _ n m sealed clash short, THEN conjunct2, rule_format])
      (simp_all add: demo_members_def len)
  then show ?thesis
    by (simp add: run n m len)
qed

end
