(* ===== verification/Restart.thy ===== *)
theory Restart
  imports Nodes Cluster
begin

text \<open>
  Stopping and starting again (\<open>restore_chain\<close> of src/src/consensus.rs, the chain file of
  src/src/actor.rs). A coordinator finds its chain and its replica as it left them; what it loses
  are the pending operations and the record of the votes it has cast.
\<close>

lemma restore_appends:
  "chain_linked (e_chain e @ bs) \<Longrightarrow> e_chain e \<noteq> [] \<Longrightarrow> e_chain (restore_chain C bs e) = e_chain e @ bs"
proof (induction bs arbitrary: e)
  case (Cons b bs)
  let ?e = "note_members b e" and ?n = "length (e_chain e)"
  have "ob_index ((e_chain e @ b # bs) ! ?n) = usize_of ?n
      \<and> ob_prev ((e_chain e @ b # bs) ! ?n) = (if ?n = 0 then zero32 else ob_hash ((e_chain e @ b # bs) ! (?n - 1)))"
    using Cons.prems(1) unfolding chain_linked_def by (metis length_append add_less_cancel_left length_Cons add_0_right zero_less_Suc)
  then have fits: "ob_index b = e_next_index ?e" "ob_prev b = e_head_hash ?e" "ob_index b = e_next_index e"
    using Cons.prems(2) by (simp_all add: e_next_index_def e_head_hash_def nth_append last_conv_nth)
  have chain: "e_chain (append_and_apply C b ?e) = e_chain e @ [b]"
    using fits by (simp add: append_and_apply_fits)
  have "e_chain (restore_chain C bs (append_and_apply C b ?e)) = (e_chain e @ [b]) @ bs"
    using Cons.IH [of "append_and_apply C b ?e"] Cons.prems by (simp add: chain)
  then show ?case
    using fits(3) by simp
qed simp

text \<open>A saved chain begins with the genesis block, which the new engine has and skips.\<close>

lemma restore_saved:
  assumes "chain_linked bs" and "hd bs = op_genesis C" and "e_chain e = [op_genesis C]"
  shows "e_chain (restore_chain C bs e) = bs"
proof (cases bs)
  case Nil
  then show ?thesis
    using assms(1) by (simp add: chain_linked_def)
next
  case (Cons g cs)
  have "ob_index g \<noteq> e_next_index e"
    using assms(2,3) Cons by (simp add: e_next_index_def op_genesis_def usize_of_def)
  then show ?thesis
    using restore_appends [of e cs C] assms Cons by simp
qed

definition no_round :: "engine \<Rightarrow> bool" where
  "no_round e \<longleftrightarrow> voted e = [] \<and> votes e = [] \<and> proposals e = [] \<and> mempool e = []"

lemma no_round_note: "no_round e \<Longrightarrow> no_round (note_members b e)"
proof -
  have "no_round (fold (\<lambda>v. note_validator (voter v)) vs e)" if "no_round e" for vs :: "block_vote list" and e
    using that by (induction vs arbitrary: e) (simp_all add: no_round_def note_validator_def)
  then show "no_round e \<Longrightarrow> no_round (note_members b e)"
    by (simp add: note_members_def no_round_def note_validator_def)
qed

lemma no_round_restore: "no_round e \<Longrightarrow> no_round (restore_chain C bs e)"
proof (induction bs arbitrary: e)
  case (Cons b bs)
  have "no_round (append_and_apply C b (note_members b e))"
    using no_round_note [OF Cons.prems, of b] by (simp add: no_round_def append_and_apply_def)
  then show ?case
    using Cons by simp
qed simp

lemma restore_me [simp]:
  "me (restore_chain C bs e) = me e" "e_identity (restore_chain C bs e) = e_identity e"
  by (induction bs arbitrary: e) simp_all

lemma no_round_new: "no_round (engine_new C i vs)" and new_chain: "e_chain (engine_new C i vs) = [op_genesis C]"
  by (simp_all add: no_round_def engine_new_def Let_def)

text \<open>C33: a coordinator comes back from its chain file as it was: whatever chain a sound engine held
  when it was saved, the node that starts from the file has the same chain and the same replica,
  and nothing else of the round: no votes, no proposals, and of the pending operations none but
  its own registration. (The file is read back as it was written.)\<close>

theorem coordinator_restart:
  assumes "signatures_ok C" and "length (signing_key i) = 32" and "engine_ok C e"
    and "hd (e_chain e) = op_genesis C"
    and "save_chain W (e_chain e) = Some stored" and "chain_parse W stored = Some (e_chain e)"
    and "snd (role_start C W P RoleCoordinator i listen None (Some stored) boot name balance pkgs) = Some n"
  shows "e_chain (n_engine n) = e_chain e \<and> e_state (n_engine n) = e_state e
    \<and> voted (n_engine n) = [] \<and> votes (n_engine n) = [] \<and> proposals (n_engine n) = []
    \<and> set (mempool (n_engine n)) \<subseteq> {RegisterParticipant (my_addr n) name (my_key n) balance}"
proof -
  let ?new = "engine_new C i []"
  let ?r = "restore_chain C (e_chain e) ?new"
  have linked: "chain_linked (e_chain e)" and replica: "replica_ok C e"
    using assms(3) by (simp_all add: engine_ok_def)
  have chain: "e_chain ?r = e_chain e"
    using linked assms(4) new_chain by (rule restore_saved)
  have "sound_engine C ?r"
    by (rule restore_keeps [OF sound_new [OF assms(1,2)]])
  then have state: "e_state ?r = e_state e"
    using chain replica by (simp add: sound_engine_def engine_ok_def replica_ok_def)
  have round: "no_round ?r"
    by (rule no_round_restore [OF no_round_new])
  have "e_chain e \<noteq> []"
    using linked by (simp add: chain_linked_def)
  then have load: "load_chain W (Some stored) = e_chain e"
    using assms(6) by (simp add: load_chain_def)
  have "n_engine n = snd (submit_local_op (RegisterParticipant (my_addr n) name (my_key n) balance) ?r)"
    using assms(7) \<open>e_chain e \<noteq> []\<close> by (auto simp: role_start_def Let_def case_prod_beta register_self_def
        submit_and_flood_state load node_new_def split: option.splits)
  then show ?thesis
    using chain state round
    by (auto simp: submit_local_op_parts add_to_mempool_def no_round_def)
qed

definition file_wire :: "op_block list \<Rightarrow> wire" where
  "file_wire bs = toy_wire\<lparr>chain_json := (\<lambda>cs. if cs = bs then Some [7] else None),
     chain_parse := (\<lambda>f. if f = [7] then Some bs else None)\<rparr>"

definition settled_engine :: engine where
  "settled_engine = snd (engine_run toy_crypto [SubmitLocal demo_op, TryPropose] (engine_new toy_crypto demo_identity []))"

theorem coordinator_restart_witness:
  "case snd (role_start toy_crypto (file_wire (e_chain settled_engine)) toy_python RoleCoordinator demo_identity
       None None (Some [7]) [] ''ann'' 10 []) of None \<Rightarrow> False
   | Some n \<Rightarrow> length (e_chain (n_engine n)) = 2 \<and> e_state (n_engine n) = e_state settled_engine"
proof -
  let ?W = "file_wire (e_chain settled_engine)"
  have run: "case snd (role_start toy_crypto ?W toy_python RoleCoordinator demo_identity
       None None (Some [7]) [] ''ann'' 10 []) of None \<Rightarrow> False | Some n \<Rightarrow> length (e_chain (n_engine n)) = 2"
    by code_simp
  then obtain n where n: "snd (role_start toy_crypto ?W toy_python RoleCoordinator demo_identity
       None None (Some [7]) [] ''ann'' 10 []) = Some n" "length (e_chain (n_engine n)) = 2"
    by (auto split: option.splits)
  have "sound_engine toy_crypto settled_engine"
    unfolding settled_engine_def by (rule sound_run [OF sound_new [OF toy_signatures_ok demo_key_ok]])
  then have ok: "engine_ok toy_crypto settled_engine"
    by (simp add: sound_engine_def)
  have genesis: "hd (e_chain settled_engine) = op_genesis toy_crypto"
    by code_simp
  have stored: "save_chain ?W (e_chain settled_engine) = Some [7]" "chain_parse ?W [7] = Some (e_chain settled_engine)"
    by (simp_all add: save_chain_def file_wire_def)
  show ?thesis
    using coordinator_restart [OF toy_signatures_ok demo_key_ok ok genesis stored n(1)] n by simp
qed

text \<open>C37: a restart forgets the votes: an engine that has voted at its next height votes for nothing
  else there, but the engine restored from its chain votes for any proposal of the next proposer
  that links to the head, also for one other than that it has voted for, under the same key. So a
  node that crashes between its vote and the commit votes twice at one height.\<close>

theorem restart_votes_again:
  assumes "engine_ok C e" and "hd (e_chain e) = op_genesis C"
    and "hm_get (voted e) (ob_index b) = Some k"
    and "ob_index b = e_next_index e" and "ob_prev b = e_head_hash e" and "hash_ok C b"
    and "r = restore_chain C (e_chain e) (engine_new C (e_identity e) [])"
    and "proposer_for (add_validator (ob_proposer b) r) (ob_index b) = Some (ob_proposer b)"
  shows "(\<forall>h k v sig. Vote h k v sig \<notin> set (fst (on_message C (Propose b) e)))
    \<and> Vote (ob_index b) (ob_hash b) (public_key_bytes C (e_identity e)) (sign_nonce C (e_identity e) (ob_hash b))
        \<in> set (fst (on_message C (Propose b) r))"
proof
  show "\<forall>h k v sig. Vote h k v sig \<notin> set (fst (on_message C (Propose b) e))"
  proof (cases rule: on_propose_cases [of C b e])
    case (ignored out)
    then show ?thesis
      by auto
  next
    case accepted
    let ?e = "store_proposal b (add_validator (ob_proposer b) e)"
    have "fst (cast_vote C (ob_index b) (ob_hash b) ?e) = []"
      using assms(3) by (simp add: cast_vote_def store_proposal_def Let_def add_validator_def)
    then show ?thesis
      by (cases rule: maybe_commit_cases [of C "ob_index b" "ob_hash b" "snd (cast_vote C (ob_index b) (ob_hash b) ?e)"])
        (simp_all add: accepted(2) vote_and_commit_parts)
  qed
  have chain: "e_chain r = e_chain e"
    unfolding assms(7) using assms(1,2) by (intro restore_saved [OF _ _ new_chain]) (simp_all add: engine_ok_def)
  have "no_round r"
    unfolding assms(7) by (rule no_round_restore [OF no_round_new])
  moreover have "me r = public_key_bytes C (e_identity e)" "e_identity r = e_identity e"
    by (simp_all add: assms(7) engine_new_def Let_def)
  ultimately show "Vote (ob_index b) (ob_hash b) (public_key_bytes C (e_identity e)) (sign_nonce C (e_identity e) (ob_hash b))
      \<in> set (fst (on_message C (Propose b) r))"
    using assms(4-6,8) chain
    by (simp add: on_propose_def Let_def vote_and_commit_parts cast_vote_def no_round_def hash_ok_def e_next_index_def
      e_head_hash_def)
qed

text \<open>A node that has proposed and voted for one block in a committee of two, and a second block.\<close>

definition voting_engine :: engine where
  "voting_engine = snd (engine_run cluster_crypto [SubmitLocal demo_op, LinkUp zero32, TryPropose]
     (engine_new cluster_crypto other_identity []))"

definition rival_block :: op_block where
  "rival_block = op_block_proposed cluster_crypto 1 (e_head_hash voting_engine) (me voting_engine) [Tick 7] 1"

lemma cluster_signatures_ok: "signatures_ok cluster_crypto"
  using demo_members_ok by (simp add: membership_ok_def)

lemma other_key_ok: "length (signing_key other_identity) = 32"
  by (simp add: other_identity_def)

theorem restart_votes_again_witness:
  "hm_get (voted voting_engine) 1 \<noteq> None \<and> hm_get (voted voting_engine) 1 \<noteq> Some (ob_hash rival_block)
   \<and> Vote 1 (ob_hash rival_block) (me voting_engine) (sign_nonce cluster_crypto other_identity (ob_hash rival_block))
      \<in> set (fst (on_message cluster_crypto (Propose rival_block)
          (restore_chain cluster_crypto (e_chain voting_engine) (engine_new cluster_crypto other_identity []))))"
proof -
  have v: "hm_get (voted voting_engine) 1 \<noteq> None" "hm_get (voted voting_engine) 1 \<noteq> Some (ob_hash rival_block)"
    "hd (e_chain voting_engine) = op_genesis cluster_crypto" "ob_index rival_block = e_next_index voting_engine"
    "ob_prev rival_block = e_head_hash voting_engine" "hash_ok cluster_crypto rival_block"
    "e_identity voting_engine = other_identity" "ob_index rival_block = 1"
    "public_key_bytes cluster_crypto other_identity = me voting_engine"
    "proposer_for (add_validator (ob_proposer rival_block) (restore_chain cluster_crypto (e_chain voting_engine)
       (engine_new cluster_crypto other_identity []))) 1 = Some (ob_proposer rival_block)"
    by code_simp+
  have "engine_ok cluster_crypto voting_engine"
    unfolding voting_engine_def
    using sound_run [OF sound_new [OF cluster_signatures_ok other_key_ok]] by (simp add: sound_engine_def)
  then show ?thesis
    using restart_votes_again [of cluster_crypto voting_engine rival_block _ _] v by auto
qed

end
