(* ===== verification/Progress.thy ===== *)
theory Progress
  imports Sync Cluster
begin

text \<open>
  Progress of a round: an engine that gets the proposal of the proposer of its next height and the
  votes of a quorum commits the block, in whatever order and however often these messages arrive,
  the votes before the proposal included. A cluster without faults whose nodes are level commits
  the next block at every node.
\<close>

section \<open>The messages of a round\<close>

definition round_msg :: "op_block \<Rightarrow> (node_key \<Rightarrow> bytes) \<Rightarrow> consensus_msg \<Rightarrow> bool" where
  "round_msg b sig m \<longleftrightarrow> m = Propose b \<or> (\<exists>v. m = Vote (ob_index b) (ob_hash b) v (sig v))"

definition round_voters :: "consensus_msg list \<Rightarrow> node_key set" where
  "round_voters ms = {v. \<exists>h k s. Vote h k v s \<in> set ms}"

text \<open>The proposal is one that the engine accepts, and all voters are active with good signatures.\<close>

definition acceptable :: "crypto \<Rightarrow> op_block \<Rightarrow> engine \<Rightarrow> bool" where
  "acceptable C b e \<longleftrightarrow> proposal_ok C e (ob_hash b) b \<and> proposer_for e (ob_index b) = Some (ob_proposer b)"

definition good_voter :: "crypto \<Rightarrow> op_block \<Rightarrow> (node_key \<Rightarrow> bytes) \<Rightarrow> engine \<Rightarrow> node_key \<Rightarrow> bool" where
  "good_voter C b sig e v \<longleftrightarrow> v \<in> set (active e) \<and> verify_sig C v (ob_hash b) (sig v)"

text \<open>What a round does not change until it commits.\<close>

definition same_round :: "engine \<Rightarrow> engine \<Rightarrow> bool" where
  "same_round e e' \<longleftrightarrow> e_chain e' = e_chain e \<and> active e' = active e \<and> me e' = me e"

definition needed :: "op_block \<Rightarrow> nat" where
  "needed b = unat (max (ob_quorum b) 1)"

text \<open>The engine waits: it has stored the votes of \<open>R\<close> and, once the proposal has come, its own.\<close>

definition waiting :: "crypto \<Rightarrow> op_block \<Rightarrow> node_key set \<Rightarrow> bool \<Rightarrow> engine \<Rightarrow> bool" where
  "waiting C b R P e \<longleftrightarrow> sound_engine C e \<and> acceptable C b e
     \<and> fst ` set (tally_of e (ob_index b) (ob_hash b)) = R \<union> (if P then {me e} else {})
     \<and> Option.bind (hm_get (proposals e) (ob_index b)) (\<lambda>m. hm_get m (ob_hash b)) = (if P then Some b else None)
     \<and> hm_has (voted e) (ob_index b) = P
     \<and> (P \<longrightarrow> length (tally_of e (ob_index b) (ob_hash b)) < needed b)"

definition committed_at :: "op_block list \<Rightarrow> op_block \<Rightarrow> engine \<Rightarrow> bool" where
  "committed_at c b e \<longleftrightarrow> (\<exists>ws. e_chain e = c @ [b\<lparr>ob_votes := ws\<rparr>])"

section \<open>One message\<close>

lemma add_active: "members_ok C e \<Longrightarrow> v \<in> set (active e) \<Longrightarrow> add_validator v e = e"
  by (auto simp: members_ok_def add_validator_def insort_insert_triv)

lemma tally_store_vote [simp]: "tally_of (store_vote h k v s e) h k = hm_insert v s (tally_of e h k)"
  by (simp add: tally_of_def store_vote_def Let_def split: option.split)

lemma tally_frame [simp]:
  "tally_of (store_proposal b e) h k = tally_of e h k" "tally_of (e\<lparr>voted := U\<rparr>) h k = tally_of e h k"
  by (simp_all add: tally_of_def store_proposal_def Let_def)

lemma stored_proposal [simp]:
  "Option.bind (hm_get (proposals (store_proposal b e)) (ob_index b)) (\<lambda>m. hm_get m (ob_hash b)) = Some b"
  by (simp add: store_proposal_def Let_def)

lemma store_vote_fields [simp]:
  "e_chain (store_vote h k v s e) = e_chain e" "proposals (store_vote h k v s e) = proposals e"
  "voted (store_vote h k v s e) = voted e" "active (store_vote h k v s e) = active e"
  "me (store_vote h k v s e) = me e" "e_identity (store_vote h k v s e) = e_identity e"
  "validators (store_vote h k v s e) = validators e"
  "e_next_index (store_vote h k v s e) = e_next_index e" "e_head_hash (store_vote h k v s e) = e_head_hash e"
  by (simp_all add: store_vote_def Let_def)

lemma fst_hm_insert: "fst ` set (hm_insert v s m) = insert v (fst ` set m)"
  by (simp add: dom_update)

lemma length_tally:
  assumes "sound_engine C e"
  shows "length (tally_of e h k) = card (fst ` set (tally_of e h k))"
  using tally_ok [of C e k h] assms distinct_card [of "map fst (tally_of e h k)"]
  by (simp add: sound_engine_def sigs_ok_def)

lemma acceptable_cong:
  "e_chain e' = e_chain e \<Longrightarrow> active e' = active e \<Longrightarrow> acceptable C b e' = acceptable C b e"
  by (simp add: acceptable_def proposal_ok_def proposer_for_def e_next_index_def e_head_hash_def Let_def
      cong: if_cong)

lemma maybe_commit_stored:
  assumes "ob_index b = e_next_index e"
    and "Option.bind (hm_get (proposals e) (ob_index b)) (\<lambda>m. hm_get m (ob_hash b)) = Some b"
  shows "maybe_commit C (ob_index b) (ob_hash b) e =
    (if length (tally_of e (ob_index b) (ob_hash b)) < needed b then ([], e)
     else let b' = b\<lparr>ob_votes := map (\<lambda>(key, sig). \<lparr>voter = key, signature = sig\<rparr>)
                                    (tally_of e (ob_index b) (ob_hash b))\<rparr>
          in ([Committed b'], append_and_apply C b' e))"
  using assms by (simp add: maybe_commit_def needed_def)

lemma commits_block:
  assumes "ob_index b = e_next_index e" and "ob_prev b = e_head_hash e"
  shows "committed_at (e_chain e) b (append_and_apply C (b\<lparr>ob_votes := ws\<rparr>) e)"
  using assms by (auto simp: committed_at_def append_and_apply_fits)

lemma unat_usize: "n < 2 ^ 64 \<Longrightarrow> unat (usize_of n) = n"
  unfolding usize_of_def by (rule unat_word_of_nat) simp

text \<open>Whatever is left of the round after the commit is ignored.\<close>

lemma committed_stays:
  assumes "committed_at c b e" and "ob_index b = usize_of (length c)" and "length c + 1 < 2 ^ 64"
    and "round_msg b sig m"
  shows "committed_at c b (snd (on_message C m e))"
proof -
  have next_i: "e_next_index e = usize_of (length c + 1)"
    using assms(1) by (auto simp: committed_at_def e_next_index_def)
  have "unat (ob_index b) = length c" "unat (e_next_index e) = length c + 1"
    unfolding assms(2) next_i using assms(3) by (intro unat_usize; simp)+
  then have "ob_index b < e_next_index e"
    by (simp add: word_less_nat_alt)
  then show ?thesis
    using assms(1,4) by (auto simp: round_msg_def on_propose_def on_vote_def Let_def committed_at_def)
qed

text \<open>A vote is stored; if the proposal is there it may be the last one needed.\<close>

lemma waiting_vote:
  assumes "waiting C b R P e" and "good_voter C b sig e v"
  shows "let e' = snd (on_message C (Vote (ob_index b) (ob_hash b) v (sig v)) e)
    in same_round e e' \<and> waiting C b (insert v R) P e' \<or> P \<and> committed_at (e_chain e) b e'"
proof -
  let ?h = "ob_index b" and ?k = "ob_hash b"
  let ?s = "store_vote ?h ?k v (sig v) e"
  have sound: "sound_engine C e" and at: "?h = e_next_index e" "ob_prev b = e_head_hash e"
    using assms(1) by (simp_all add: waiting_def acceptable_def proposal_ok_def)
  have member: "add_validator v e = e"
    using assms(2) sound by (intro add_active [of C]) (simp_all add: good_voter_def sound_engine_def engine_ok_def)
  have step: "snd (on_message C (Vote ?h ?k v (sig v)) e) = snd (maybe_commit C ?h ?k ?s)"
    using assms(2) by (simp add: on_vote_def Let_def member at(1) good_voter_def)
  have "v \<in> set (validators e)"
    using assms(2) sound by (auto simp: good_voter_def sound_engine_def engine_ok_def members_ok_def)
  then have ok: "sound_engine C ?s"
    using sound assms(2) engine_ok_store_vote [of C e v ?k "sig v" ?h]
    by (simp add: sound_engine_def good_voter_def own_key_ok_def)
  have acc: "acceptable C b ?s"
    using assms(1) acceptable_cong [of ?s e] by (simp add: waiting_def)
  have voters: "fst ` set (tally_of ?s ?h ?k) = insert v R \<union> (if P then {me ?s} else {})"
    using assms(1) by (simp add: waiting_def fst_hm_insert)
  show ?thesis
  proof (cases P)
    case False
    then have none: "Option.bind (hm_get (proposals ?s) ?h) (\<lambda>m. hm_get m ?k) = None"
      using assms(1) by (simp add: waiting_def)
    then have "maybe_commit C ?h ?k ?s = ([], ?s)"
      by (simp add: maybe_commit_def at(1) [symmetric])
    then show ?thesis
      using assms(1) ok acc voters none False unfolding Let_def step by (simp add: waiting_def same_round_def)
  next
    case True
    then have stored: "Option.bind (hm_get (proposals ?s) ?h) (\<lambda>m. hm_get m ?k) = Some b"
      using assms(1) by (simp add: waiting_def)
    show ?thesis
    proof (cases "length (tally_of ?s ?h ?k) < needed b")
      case True
      then show ?thesis
        using assms(1) ok acc voters stored \<open>P\<close> at(1) maybe_commit_stored [of b ?s C]
        unfolding Let_def step by (simp add: waiting_def same_round_def)
    next
      case False
      then show ?thesis
        using \<open>P\<close> at stored maybe_commit_stored [of b ?s C] commits_block [of b ?s C]
        unfolding Let_def step by simp
    qed
  qed
qed

text \<open>The proposal is stored and voted for.\<close>

lemma accepts_proposal:
  assumes "sound_engine C e" and "acceptable C b e"
  shows "on_propose C b e = vote_and_commit C (ob_index b) (ob_hash b) (store_proposal b e)"
proof -
  have "ob_proposer b \<in> set (active e)"
    using assms(2) by (auto simp: acceptable_def proposer_for_def Let_def split: if_splits) (metis nth_mem)
  then have member: "add_validator (ob_proposer b) e = e"
    using assms(1) by (intro add_active [of C]) (simp_all add: sound_engine_def engine_ok_def)
  have passes: "(ob_index b \<noteq> e_next_index e) = False" "(ob_prev b \<noteq> e_head_hash e) = False"
    "(proposer_for e (ob_index b) \<noteq> Some (ob_proposer b)) = False"
    "(ob_hash b \<noteq> op_block_hash C (ob_index b) (ob_prev b) (ob_proposer b) (ob_ops b) (ob_quorum b)) = False"
    using assms(2) by (auto simp: acceptable_def proposal_ok_def)
  show ?thesis
    unfolding on_propose_def Let_def member passes if_False ..
qed

lemma waiting_proposal:
  assumes "waiting C b R P e"
  shows "let e' = snd (on_message C (Propose b) e)
    in same_round e e' \<and> waiting C b R True e' \<or> committed_at (e_chain e) b e'"
proof -
  let ?h = "ob_index b" and ?k = "ob_hash b"
  let ?s = "store_proposal b e"
  let ?v = "snd (cast_vote C ?h ?k ?s)"
  have sound: "sound_engine C e" and acc: "acceptable C b e"
    using assms by (simp_all add: waiting_def)
  then have at: "?h = e_next_index e" "ob_prev b = e_head_hash e" and ok: "proposal_ok C e ?k b"
    by (simp_all add: acceptable_def proposal_ok_def)
  have step: "snd (on_message C (Propose b) e) = snd (maybe_commit C ?h ?k ?v)"
    using accepts_proposal [OF sound acc] by (simp add: vote_and_commit_parts)
  have "sound_engine C ?s"
    using sound ok by (simp add: sound_engine_def engine_ok_store_proposal own_key_ok_def)
  then have sound': "sound_engine C ?v"
    using at(1) by (simp add: sound_engine_def engine_ok_cast_vote own_key_ok_def)
  have acc': "acceptable C b ?v"
    using acc acceptable_cong [of ?v e C b] by (simp only: cast_vote_fields store_proposal_fields simp_thms)
  have stored: "Option.bind (hm_get (proposals ?v) ?h) (\<lambda>m. hm_get m ?k) = Some b"
    unfolding cast_vote_fields by (rule stored_proposal)
  have voters: "fst ` set (tally_of ?v ?h ?k) = R \<union> {me ?v}"
  proof (cases P)
    case True
    then show ?thesis
      using assms by (simp add: waiting_def cast_vote_def)
  next
    case False
    then show ?thesis
      using assms by (simp add: waiting_def cast_vote_def Let_def fst_hm_insert)
  qed
  have voted: "hm_has (voted ?v) ?h"
    by (simp add: cast_vote_def Let_def)
  have at': "?h = e_next_index ?v" "ob_prev b = e_head_hash ?v"
    using acc' unfolding acceptable_def proposal_ok_def by blast+
  show ?thesis
  proof (cases "length (tally_of ?v ?h ?k) < needed b")
    case True
    then show ?thesis
      using sound' acc' stored voters voted maybe_commit_stored [OF at'(1) stored]
      unfolding Let_def step by (simp add: waiting_def same_round_def)
  next
    case False
    then show ?thesis
      using maybe_commit_stored [OF at'(1) stored] commits_block [OF at', of C]
      unfolding Let_def step by simp
  qed
qed

section \<open>A round\<close>

lemma round_voters_simps [simp]:
  "round_voters [] = {}" "round_voters (Propose b # ms) = round_voters ms"
  "round_voters (Vote h k v s # ms) = insert v (round_voters ms)"
  by (auto simp: round_voters_def)

lemma same_round_good: "same_round e e' \<Longrightarrow> good_voter C b sig e' v = good_voter C b sig e v"
  by (simp add: same_round_def good_voter_def)

lemma round_progress:
  assumes "waiting C b R P e" and "length (e_chain e) + 1 < 2 ^ 64" and "list_all (round_msg b sig) ms"
    and "\<forall>v\<in>round_voters ms. good_voter C b sig e v"
  shows "let e' = snd (engine_run C (map Receive ms) e)
    in committed_at (e_chain e) b e'
      \<or> same_round e e' \<and> waiting C b (R \<union> round_voters ms) (P \<or> Propose b \<in> set ms) e'"
  using assms
proof (induction ms arbitrary: R P e)
  case Nil
  then show ?case
    by (simp add: same_round_def)
next
  case (Cons m ms)
  let ?e = "snd (on_message C m e)"
  have index: "ob_index b = usize_of (length (e_chain e))"
    using Cons.prems(1) by (simp add: waiting_def acceptable_def proposal_ok_def e_next_index_def)
  have ms: "list_all (round_msg b sig) ms" and m: "round_msg b sig m"
    using Cons.prems(3) by simp_all
  have rest: "committed_at (e_chain e) b (snd (engine_run C (map Receive ns) e'))"
    if "committed_at (e_chain e) b e'" "list_all (round_msg b sig) ns" for ns e'
    using that
  proof (induction ns arbitrary: e')
    case (Cons n ns)
    then show ?case
      using committed_stays [OF Cons.prems(1) index \<open>length (e_chain e) + 1 < 2 ^ 64\<close>, of sig n]
      by (simp add: engine_run_parts)
  qed simp
  have onward: "?case" if "same_round e ?e" "waiting C b R' P' ?e"
    and "R' \<union> round_voters ms = R \<union> round_voters (m # ms)" "(P' \<or> Propose b \<in> set ms) = (P \<or> Propose b \<in> set (m # ms))"
    and "round_voters ms \<subseteq> round_voters (m # ms)" for R' P'
  proof -
    have "\<forall>v\<in>round_voters ms. good_voter C b sig ?e v"
      using Cons.prems(4) that(5) same_round_good [OF that(1)] by blast
    then show ?thesis
      using Cons.IH [OF that(2) _ ms] Cons.prems(2) that(1,3,4)
      by (auto simp: Let_def same_round_def engine_run_parts)
  qed
  have voted: "?case" if vote: "m = Vote (ob_index b) (ob_hash b) v (sig v)" for v
  proof -
    have good: "good_voter C b sig e v"
      using Cons.prems(4) by (simp add: vote)
    show ?thesis
      using waiting_vote [OF Cons.prems(1) good] onward [of "insert v R" P] rest [of ?e ms] ms
      by (auto simp: Let_def vote engine_run_parts)
  qed
  have proposed: "?case" if "m = Propose b"
    using waiting_proposal [OF Cons.prems(1), of ] onward [of R True] rest [of ?e ms] ms that
    by (auto simp: Let_def engine_run_parts)
  show ?case
    using m voted proposed unfolding round_msg_def by blast
qed

lemma round_commits:
  assumes "sound_engine C e" and "acceptable C b e" and "length (e_chain e) + 1 < 2 ^ 64"
    and "proposals e = [] \<and> votes e = [] \<and> voted e = []"
    and "list_all (round_msg b sig) ms" and "Propose b \<in> set ms"
    and "\<forall>v\<in>round_voters ms. good_voter C b sig e v"
    and "needed b \<le> card (insert (me e) (round_voters ms))"
  shows "\<exists>ws. e_chain (snd (engine_run C (map Receive ms) e)) = e_chain e @ [b\<lparr>ob_votes := ws\<rparr>]"
proof -
  let ?e = "snd (engine_run C (map Receive ms) e)"
  have "waiting C b {} False e"
    using assms(1,2,4) by (simp add: waiting_def tally_of_def)
  from round_progress [OF this assms(3,5,7)] consider "committed_at (e_chain e) b ?e"
    | "same_round e ?e" "waiting C b (round_voters ms) True ?e"
    using assms(6) by (auto simp: Let_def)
  then show ?thesis
  proof cases
    case 2
    then have "length (tally_of ?e (ob_index b) (ob_hash b)) = card (insert (me e) (round_voters ms))"
      using length_tally [of C ?e "ob_index b" "ob_hash b"] by (simp add: waiting_def same_round_def)
    then show ?thesis
      using 2(2) assms(8) by (simp add: waiting_def)
  qed (simp add: committed_at_def)
qed

text \<open>C13: progress of a round: an engine whose next proposer's block reaches it, together with good
  votes of active validators that are enough for the block's quorum when its own is added, commits
  that block at its height, whatever the order in which the proposal and the votes arrive and
  however often each is repeated.\<close>

theorem quorum_commits:
  assumes "sound_engine C e" and "acceptable C b e" and "length (e_chain e) + 1 < 2 ^ 64"
    and "proposals e = [] \<and> votes e = [] \<and> voted e = []"
    and "list_all (round_msg b sig) ms" and "Propose b \<in> set ms"
    and "\<forall>v\<in>round_voters ms. good_voter C b sig e v"
    and "needed b \<le> card (insert (me e) (round_voters ms))"
  shows "\<exists>ws. e_chain (snd (engine_run C (map Receive ms) e)) = e_chain e @ [b\<lparr>ob_votes := ws\<rparr>]"
  by (rule round_commits [OF assms])

text \<open>The second of two validators, which gets the vote of the first before its proposal.\<close>

definition demo_peer :: engine where
  "demo_peer = engine_new toy_crypto other_identity [signing_key demo_identity]"

definition demo_proposal :: op_block where
  "demo_proposal = op_block_proposed toy_crypto 1 (e_head_hash demo_peer) (signing_key demo_identity) [demo_op] 2"

definition demo_round :: "consensus_msg list" where
  "demo_round = [Vote 1 (ob_hash demo_proposal) (signing_key demo_identity)
     (signing_key demo_identity @ signing_key demo_identity), Propose demo_proposal]"

theorem quorum_commits_witness:
  "length (active demo_peer) = 2 \<and> (\<exists>ws. e_chain (snd (engine_run toy_crypto (map Receive demo_round) demo_peer))
     = e_chain demo_peer @ [demo_proposal\<lparr>ob_votes := ws\<rparr>])"
proof
  show "length (active demo_peer) = 2"
    by code_simp
  have sound: "sound_engine toy_crypto demo_peer"
    unfolding demo_peer_def by (rule sound_new [OF toy_signatures_ok]) (simp add: other_identity_def)
  have block: "acceptable toy_crypto demo_proposal demo_peer"
    by code_simp
  have short: "length (e_chain demo_peer) = 1"
    by code_simp
  have fresh: "proposals demo_peer = [] \<and> votes demo_peer = [] \<and> voted demo_peer = []"
    by (simp add: demo_peer_def engine_new_def Let_def)
  have index: "ob_index demo_proposal = 1"
    by (simp add: demo_proposal_def op_block_proposed_def)
  have msgs: "list_all (round_msg demo_proposal (\<lambda>v. v @ v)) demo_round" "Propose demo_proposal \<in> set demo_round"
    by (simp_all add: demo_round_def round_msg_def index)
  have voter: "good_voter toy_crypto demo_proposal (\<lambda>v. v @ v) demo_peer (signing_key demo_identity)"
    by code_simp
  have "me demo_peer \<noteq> signing_key demo_identity"
    by code_simp
  then have enough: "needed demo_proposal \<le> card (insert (me demo_peer) (round_voters demo_round))"
    by (simp add: demo_round_def needed_def demo_proposal_def op_block_proposed_def max_def)
  show "\<exists>ws. e_chain (snd (engine_run toy_crypto (map Receive demo_round) demo_peer))
      = e_chain demo_peer @ [demo_proposal\<lparr>ob_votes := ws\<rparr>]"
    by (rule quorum_commits [OF sound block _ fresh msgs _ enough])
      (use voter in \<open>simp_all add: short demo_round_def\<close>)
qed

section \<open>A round of a cluster\<close>

text \<open>Delivering lists of sent messages to the honest nodes of a set.\<close>

definition delivered :: "crypto \<Rightarrow> membership \<Rightarrow> cluster \<Rightarrow> (node_key \<Rightarrow> consensus_msg list) \<Rightarrow> node_key set \<Rightarrow> cluster \<Rightarrow> bool" where
  "delivered C P s ms N t \<longleftrightarrow> reachable C P t \<and> soup s \<subseteq> soup t
     \<and> (\<forall>v\<in>N. node_at C P t v = snd (engine_run C (map Receive (ms v)) (node_at C P s v))
          \<and> set (fst (engine_run C (map Receive (ms v)) (node_at C P s v))) \<subseteq> soup t)
     \<and> (\<forall>w. w \<notin> N \<longrightarrow> node_at C P t w = node_at C P s w)"

lemma deliver_list:
  "reachable C P s \<Longrightarrow> v \<in> honest P \<Longrightarrow> set ms \<subseteq> soup s \<Longrightarrow> \<exists>t. delivered C P s (\<lambda>w. ms) {v} t"
proof (induction ms arbitrary: s)
  case Nil
  then show ?case
    by (intro exI [of _ s]) (simp add: delivered_def)
next
  case (Cons m ms)
  let ?s = "advance C P v (Receive m) s"
  have "reachable C P ?s"
    using Cons.prems by (intro reachable.step [OF Cons.prems(1)] cluster_step.deliver) simp_all
  moreover have "set ms \<subseteq> soup ?s"
    using Cons.prems(3) by (auto simp: advance_def)
  ultimately obtain t where "delivered C P ?s (\<lambda>w. ms) {v} t"
    using Cons.IH Cons.prems(2) by blast
  then have "delivered C P s (\<lambda>w. m # ms) {v} t"
    by (auto simp: delivered_def node_at_advance engine_run_parts) (auto simp: advance_def)
  then show ?case
    by blast
qed

lemma deliver_all:
  assumes "finite N" and "reachable C P s" and "N \<subseteq> honest P" and "\<forall>v\<in>N. set (ms v) \<subseteq> soup s"
  shows "\<exists>t. delivered C P s ms N t"
  using assms
proof (induction N)
  case empty
  then show ?case
    by (intro exI [of _ s]) (simp add: delivered_def)
next
  case (insert v N)
  then obtain t where t: "delivered C P s ms N t"
    by auto
  then have "reachable C P t" "set (ms v) \<subseteq> soup t"
    using insert.prems(3) by (auto simp: delivered_def)
  then obtain u where "delivered C P t (\<lambda>w. ms v) {v} u"
    using deliver_list [of C P t v "ms v"] insert.prems(2) by blast
  note u = this [unfolded delivered_def] and t = t [unfolded delivered_def]
  have "delivered C P s ms (insert v N) u"
    unfolding delivered_def
  proof (intro conjI ballI allI impI)
    show "reachable C P u" "soup s \<subseteq> soup u"
      using u t by blast+
    show "node_at C P u w = node_at C P s w" if "w \<notin> insert v N" for w
      using u t that by simp
    fix w assume w: "w \<in> insert v N"
    show "node_at C P u w = snd (engine_run C (map Receive (ms w)) (node_at C P s w))"
      using u t w insert.hyps(2) by (cases "w = v") simp_all
    show "set (fst (engine_run C (map Receive (ms w)) (node_at C P s w))) \<subseteq> soup u"
      using u t w insert.hyps(2) by (cases "w = v") auto
  qed
  then show ?case
    by blast
qed

text \<open>What an engine sends when it votes, and the block a proposer makes.\<close>

lemma proposal_vote:
  assumes "voted e = []"
  shows "Vote h k (me e) (sign_nonce C (e_identity e) k) \<in> set (fst (vote_and_commit C h k (store_proposal b e)))"
  using assms by (simp add: vote_and_commit_parts cast_vote_def Let_def)

lemma proposes_block:
  assumes "am_proposer_for e (e_next_index e)" and "mempool e \<noteq> []" and "proposals e = []"
    and b: "b = op_block_proposed C (e_next_index e) (e_head_hash e) (me e) (mempool e) (e_quorum e)"
  shows "try_propose C e = (Propose b # fst (vote_and_commit C (ob_index b) (ob_hash b) (store_proposal b e)),
      snd (vote_and_commit C (ob_index b) (ob_hash b) (store_proposal b e)))"
    and "acceptable C b e"
proof -
  have index: "ob_index b = e_next_index e"
    by (simp add: b op_block_proposed_def)
  show "try_propose C e = (Propose b # fst (vote_and_commit C (ob_index b) (ob_hash b) (store_proposal b e)),
      snd (vote_and_commit C (ob_index b) (ob_hash b) (store_proposal b e)))"
    unfolding index using assms(1-3) by (simp add: try_propose_def Let_def b [symmetric] case_prod_beta)
  show "acceptable C b e"
    using assms(1) by (simp add: acceptable_def proposal_ok_def b op_block_proposed_def am_proposer_for_def)
qed

text \<open>A cluster without faults whose nodes stand at the same chain, between two rounds.\<close>

definition level :: "crypto \<Rightarrow> membership \<Rightarrow> cluster \<Rightarrow> op_block list \<Rightarrow> bool" where
  "level C P s c \<longleftrightarrow> (\<forall>v\<in>honest P. e_chain (node_at C P s v) = c \<and> set (active (node_at C P s v)) = honest P
     \<and> proposals (node_at C P s v) = [] \<and> votes (node_at C P s v) = [] \<and> voted (node_at C P s v) = [])"

lemma level_active:
  assumes "membership_ok C P" and "level C P s c" and "v \<in> honest P" and "w \<in> honest P"
  shows "active (node_at C P s v) = active (node_at C P s w)"
proof (rule sorted_distinct_set_unique)
  show "set (active (node_at C P s v)) = set (active (node_at C P s w))"
    using assms(2-4) by (simp add: level_def)
qed (use sound_node [OF assms(1,3)] sound_node [OF assms(1,4)] in
    \<open>simp_all add: sound_engine_def engine_ok_def members_ok_def\<close>)

lemma node_identity: "e_identity (node_at C P s v) = ident_of P v"
proof -
  have "e_identity (snd (engine_run C evs e)) = e_identity e" for evs e
    by (induction evs arbitrary: e) (simp_all add: engine_run_parts engine_step_identity)
  then show ?thesis
    by (simp add: node_at_def node_run_def engine_new_def Let_def)
qed

lemma quorum_reached:
  assumes "0 < n" and "n < 2 ^ 63"
  shows "unat (max (quorum_for (usize_of n)) 1) \<le> n"
proof -
  have "unat (quorum_for (usize_of n)) = 2 * n div 3 + 1"
    by (rule unat_quorum_for [OF assms(2)])
  moreover have "2 * n div 3 + 1 \<le> n"
    using assms(1) by presburger
  ultimately show ?thesis
    using assms(1) by (simp add: max_def)
qed

text \<open>The proposer speaks first and the others vote.\<close>

lemma cluster_votes:
  assumes "reachable C P s" and "membership_ok C P" and "level C P s c" and "finite (honest P)"
    and p: "p \<in> honest P" "am_proposer_for (node_at C P s p) (e_next_index (node_at C P s p))"
      "mempool (node_at C P s p) \<noteq> []"
  shows "\<exists>b t. ob_ops b = mempool (node_at C P s p) \<and> ob_quorum b = e_quorum (node_at C P s p)
    \<and> reachable C P t \<and> (\<forall>v\<in>honest P. acceptable C b (node_at C P s v)
      \<and> node_at C P t v = snd (engine_step C (Receive (Propose b)) (node_at C P s v))
      \<and> Vote (ob_index b) (ob_hash b) v (sign_nonce C (ident_of P v) (ob_hash b)) \<in> soup t)"
proof -
  define e where "e = node_at C P s p"
  define b where "b = op_block_proposed C (e_next_index e) (e_head_hash e) (me e) (mempool e) (e_quorum e)"
  define s1 where "s1 = advance C P p TryPropose s"
  let ?vote = "\<lambda>v. Vote (ob_index b) (ob_hash b) v (sign_nonce C (ident_of P v) (ob_hash b))"
  have e: "proposals e = []"
    using assms(3) p(1) by (simp add: level_def e_def)
  note made = proposes_block [OF p(2) [folded e_def] p(3) [folded e_def] e b_def]
  have acc: "acceptable C b (node_at C P s v)" if "v \<in> honest P" for v
  proof -
    have "e_chain (node_at C P s v) = e_chain e"
      using assms(3) that p(1) by (simp add: level_def e_def)
    then show ?thesis
      using acceptable_cong [of "node_at C P s v" e C b] made(2)
        level_active [OF assms(2,3) that p(1)] by (simp add: e_def)
  qed
  have takes: "on_propose C b (node_at C P s v)
      = vote_and_commit C (ob_index b) (ob_hash b) (store_proposal b (node_at C P s v))"
    if "v \<in> honest P" for v
    by (rule accepts_proposal [OF sound_node [OF assms(2) that] acc [OF that]])
  have voted: "?vote v \<in> set (fst (vote_and_commit C (ob_index b) (ob_hash b) (store_proposal b (node_at C P s v))))"
    if "v \<in> honest P" for v
    using proposal_vote [of "node_at C P s v" "ob_index b" "ob_hash b" C b] assms(3) that
      me_node [OF assms(2) that, of s] by (simp add: level_def node_identity)
  have "reachable C P s1"
    unfolding s1_def by (intro reachable.step [OF assms(1)] cluster_step.drive) (simp_all add: p(1))
  moreover have sent: "Propose b \<in> soup s1" "?vote p \<in> soup s1"
    using made(1) voted [OF p(1)] by (simp_all add: s1_def advance_def e_def)
  ultimately obtain t where t: "delivered C P s1 (\<lambda>v. [Propose b]) (honest P - {p}) t"
    using deliver_all [of "honest P - {p}" C P s1 "\<lambda>v. [Propose b]"] assms(4) by auto
  have after: "node_at C P t v = snd (engine_step C (Receive (Propose b)) (node_at C P s v)) \<and> ?vote v \<in> soup t"
    if v: "v \<in> honest P" for v
  proof (cases "v = p")
    case True
    then have "node_at C P t v = snd (try_propose C e)"
      using t by (simp add: delivered_def s1_def node_at_advance e_def)
    then show ?thesis
      using True t sent(2) made(1) takes [OF v] by (auto simp: delivered_def e_def)
  next
    case False
    then have same: "node_at C P s1 v = node_at C P s v"
      by (simp add: s1_def node_at_advance)
    have "node_at C P t v = snd (on_propose C b (node_at C P s1 v))"
      and "set (fst (on_propose C b (node_at C P s1 v))) \<subseteq> soup t"
      using t v False by (simp_all add: delivered_def engine_run_parts)
    then show ?thesis
      using voted [OF v] takes [OF v] unfolding same by auto
  qed
  show ?thesis
    by (intro exI [of _ b] exI [of _ t])
      (use t acc after in \<open>auto simp: delivered_def b_def op_block_proposed_def e_def\<close>)
qed

text \<open>C12: a cluster is not stuck: when no node is faulty and all stand at the same chain between two
  rounds, with each other as active validators, and the proposer of the next height has pending
  operations, then messages can be delivered so that every node appends the same block with these
  operations.\<close>

theorem cluster_commits:
  assumes "reachable C P s" and "membership_ok C P" and "level C P s c"
    and "finite (honest P)" and "card (honest P) < 2 ^ 63" and "length c + 1 < 2 ^ 64"
    and "p \<in> honest P" and "am_proposer_for (node_at C P s p) (e_next_index (node_at C P s p))"
    and "mempool (node_at C P s p) \<noteq> []"
  shows "\<exists>t b. reachable C P t \<and> ob_ops b = mempool (node_at C P s p)
    \<and> (\<forall>v\<in>honest P. \<exists>ws. e_chain (node_at C P t v) = c @ [b\<lparr>ob_votes := ws\<rparr>])"
proof -
  obtain b t where b: "ob_ops b = mempool (node_at C P s p)" "ob_quorum b = e_quorum (node_at C P s p)"
    and t: "reachable C P t" "\<forall>v\<in>honest P. acceptable C b (node_at C P s v)
      \<and> node_at C P t v = snd (engine_step C (Receive (Propose b)) (node_at C P s v))
      \<and> Vote (ob_index b) (ob_hash b) v (sign_nonce C (ident_of P v) (ob_hash b)) \<in> soup t"
    using cluster_votes [OF assms(1-4,7-9)] by blast
  define sig where "sig v = sign_nonce C (ident_of P v) (ob_hash b)" for v
  define ms where "ms = map (\<lambda>v. Vote (ob_index b) (ob_hash b) v (sig v)) (sorted_list_of_set (honest P))"
  have ms: "set ms \<subseteq> soup t" "round_voters ms = honest P" "list_all (round_msg b sig) ms"
    using t(2) assms(4) by (auto simp: ms_def sig_def round_voters_def round_msg_def list_all_iff)
  obtain u where u: "delivered C P t (\<lambda>v. ms) (honest P) u"
    using deliver_all [OF assms(4) t(1) order_refl, of "\<lambda>v. ms"] ms(1) by blast
  have len: "length (active (node_at C P s p)) = card (honest P)"
    using sound_node [OF assms(2,7), of s] assms(3,7) distinct_card [of "active (node_at C P s p)"]
    by (simp add: sound_engine_def engine_ok_def members_ok_def level_def)
  have "0 < card (honest P)"
    using assms(4,7) by (auto simp: card_gt_0_iff)
  then have enough: "needed b \<le> card (honest P)"
    using quorum_reached [OF _ assms(5)] by (simp add: needed_def b(2) e_quorum_def len)
  have "\<exists>ws. e_chain (node_at C P u v) = c @ [b\<lparr>ob_votes := ws\<rparr>]" if v: "v \<in> honest P" for v
  proof -
    have lv: "e_chain (node_at C P s v) = c" "set (active (node_at C P s v)) = honest P"
      "proposals (node_at C P s v) = [] \<and> votes (node_at C P s v) = [] \<and> voted (node_at C P s v) = []"
      using assms(3) v by (simp_all add: level_def)
    have good: "\<forall>w\<in>round_voters (Propose b # ms). good_voter C b sig (node_at C P s v) w"
      using assms(2) verify_own by (auto simp: ms(2) good_voter_def lv(2) sig_def membership_ok_def) metis
    have "node_at C P u v = snd (engine_run C (map Receive (Propose b # ms)) (node_at C P s v))"
      using u t(2) v by (simp add: delivered_def engine_run_parts)
    moreover have "needed b \<le> card (insert (me (node_at C P s v)) (round_voters (Propose b # ms)))"
      using enough by (simp add: ms(2) me_node [OF assms(2) v] insert_absorb [OF v])
    ultimately show ?thesis
      using round_commits [OF sound_node [OF assms(2) v] _ _ lv(3) _ _ good] t(2) v assms(6) ms(3)
      by (simp add: lv(1) round_msg_def)
  qed
  then show ?thesis
    using u b(1) unfolding delivered_def by blast
qed

definition pair_members :: membership where
  "pair_members = demo_members\<lparr>known_of := (\<lambda>v. [key_a, key_b])\<rparr>"

definition pair_cluster :: cluster where
  "pair_cluster = advance cluster_crypto pair_members key_a (SubmitLocal demo_op) cluster_init"

lemma pair_honest: "honest pair_members = {key_a, key_b}"
  by (simp add: pair_members_def demo_members_def)

lemma pair_level: "level cluster_crypto pair_members pair_cluster [op_genesis cluster_crypto]"
proof -
  let ?a = "node_at cluster_crypto pair_members pair_cluster key_a"
  let ?b = "node_at cluster_crypto pair_members pair_cluster key_b"
  have "e_chain ?a = [op_genesis cluster_crypto]" "e_chain ?b = [op_genesis cluster_crypto]"
    "set (active ?a) = {key_a, key_b}" "set (active ?b) = {key_a, key_b}"
    "proposals ?a = [] \<and> votes ?a = [] \<and> voted ?a = []" "proposals ?b = [] \<and> votes ?b = [] \<and> voted ?b = []"
    by code_simp+
  then show ?thesis
    by (simp add: level_def pair_honest)
qed

theorem cluster_commits_witness:
  "\<exists>t b ws us. reachable cluster_crypto pair_members t \<and> ob_ops b = [demo_op]
     \<and> e_chain (node_at cluster_crypto pair_members t key_a) = [op_genesis cluster_crypto, b\<lparr>ob_votes := ws\<rparr>]
     \<and> e_chain (node_at cluster_crypto pair_members t key_b) = [op_genesis cluster_crypto, b\<lparr>ob_votes := us\<rparr>]"
proof -
  let ?a = "node_at cluster_crypto pair_members pair_cluster key_a"
  have reach: "reachable cluster_crypto pair_members pair_cluster"
    unfolding pair_cluster_def
    by (rule reachable.step [OF reachable.start cluster_step.drive]) (simp_all add: pair_honest)
  have ok: "membership_ok cluster_crypto pair_members"
    using demo_members_ok by (simp add: membership_ok_def pair_members_def)
  have size: "finite (honest pair_members)" "card (honest pair_members) < 2 ^ 63"
    "length [op_genesis cluster_crypto] + 1 < 2 ^ 64" "key_a \<in> honest pair_members"
    by (simp_all add: pair_honest card_insert_if)
  have turn: "am_proposer_for ?a (e_next_index ?a)" and pool: "mempool ?a = [demo_op]"
    by code_simp+
  show ?thesis
    using cluster_commits [OF reach ok pair_level size turn] pool by (simp add: pair_honest)
qed

end
