(* ===== verification/App.thy ===== *)
theory App
  imports Snapshot Executor
begin

text \<open>
  The logic of the desktop application (src/src/app.rs): its state, how it follows the events of
  the node, what its buttons send, and the texts it derives from the snapshot. The drawing of
  widgets is left out; a click handler is the function of the state that the click runs.

  A command is handed to a bounded queue that drops it when full; the handlers return the
  commands they offer.
\<close>

section \<open>State\<close>

datatype payload_mode = PythonMode | GpuMode

datatype task_filter =
  FilterAll | FilterPending | FilterAssigned | FilterCompleted | FilterQuota | FilterRejected

datatype tab = TabConnect | TabProjects | TabTasks | TabExecutor | TabPackages | TabNetwork

record app =
  connected :: bool
  my_id :: "participant_id option"
  snapshot :: network_snapshot
  log :: "string list"
  executor_running :: bool
  active_tab :: tab
  log_expanded :: bool
  selected_task :: "task_id option"
  node_mode :: node_mode
  listen_addr :: string
  coord_addr :: string
  coordinators :: "string list"
  new_coordinator_input :: string
  peer_coordinators :: "string list"
  new_peer_coordinator_input :: string
  app_name :: string
  balance_input :: string
  new_project_name :: string
  fund_project_id :: string
  fund_amount :: string
  donate_project_id :: string
  donate_amount :: string
  worker_donate_amounts :: "(project_id, string) hmap"
  task_project_id :: string
  task_project_selected :: "project_id option"
  task_reward :: string
  task_payload_mode :: payload_mode
  task_code :: string
  task_filter :: task_filter
  batch_range_start :: string
  batch_range_end :: string
  batch_chunk_size :: string
  exec_reliability :: u8
  exec_compute_ticks :: u64
  exec_allowed_packages :: "string list"
  exec_new_package_input :: string
  quick_demo_done :: bool
  quorum_input :: string
  bootstrap_input :: string
  send_to_input :: string
  send_amount_input :: string
  p2p :: "p2p_snapshot option"
  public_key_short :: string
  encryption_short :: string
  encryption_pubkey :: "bytes32 option"
  decrypted_content :: "string option"
  decrypt_error :: "string option"
  decrypt_cache :: "(task_id, string + string) hmap"

definition single_quoted :: "string \<Rightarrow> string" where
  "single_quoted s = [CHR 0x27] @ s @ [CHR 0x27]"

definition app_new :: "crypto \<Rightarrow> identity \<Rightarrow> app" where
  "app_new C i =
     \<lparr>connected = False, my_id = None, snapshot = empty_snapshot, log = [],
      executor_running = False, active_tab = TabConnect, log_expanded = False,
      selected_task = None, node_mode = ModeCoordinator, listen_addr = ''0.0.0.0:7878'',
      coord_addr = ''127.0.0.1:7878'',
      coordinators = [''127.0.0.1:7878'', ''127.0.0.1:7879'', ''127.0.0.1:7880'',
        ''192.168.1.10:7878''],
      new_coordinator_input = [], peer_coordinators = [], new_peer_coordinator_input = [],
      app_name = ''Alice'', balance_input = ''100'',
      new_project_name = [], fund_project_id = [], fund_amount = [], donate_project_id = [],
      donate_amount = [], worker_donate_amounts = [], task_project_id = [],
      task_project_selected = None, task_reward = ''10'', task_payload_mode = PythonMode,
      task_code = ''print('' @ single_quoted ''hello from BOINC'' @ '')'',
      task_filter = FilterAll, batch_range_start = ''2'', batch_range_end = ''10000'',
      batch_chunk_size = ''1000'', exec_reliability = 95, exec_compute_ticks = 2,
      exec_allowed_packages = default_allowed_packages, exec_new_package_input = [],
      quick_demo_done = False, quorum_input = ''2'', bootstrap_input = ''127.0.0.1:7878'',
      send_to_input = [], send_amount_input = ''10'', p2p = None,
      public_key_short = Identity.public_key_short C i,
      encryption_short = encryption_pubkey_short C i,
      encryption_pubkey = Some (encryption_pubkey_bytes C i), decrypted_content = None,
      decrypt_error = None, decrypt_cache = []\<rparr>"

section \<open>Events of the node\<close>

definition push_log :: "string \<Rightarrow> app \<Rightarrow> app" where
  "push_log msg a = a\<lparr>log := log a @ [msg]\<rparr>"

text \<open>One event of \<open>drain_events\<close>.\<close>

definition handle_event :: "app_event \<Rightarrow> app \<Rightarrow> app" where
  "handle_event ev a =
     (case ev of
        Connected \<Rightarrow> push_log ''Connected'' (a\<lparr>connected := True\<rparr>)
      | Disconnected reason \<Rightarrow>
          push_log (''Disconnected: '' @ reason)
            (a\<lparr>connected := False, executor_running := False, my_id := None\<rparr>)
      | Registered i \<Rightarrow>
          push_log (''Registered as participant #'' @ show_u64 i) (a\<lparr>my_id := Some i\<rparr>)
      | IdentityEvent signing enc \<Rightarrow> a\<lparr>public_key_short := signing, encryption_short := enc\<rparr>
      | StateUpdate snap \<Rightarrow> a\<lparr>snapshot := snap, decrypt_cache := []\<rparr>
      | P2pUpdate snap \<Rightarrow>
          let s = (snapshot a)\<lparr>sn_blocks := ps_blocks snap, sn_block_count := ps_block_count snap,
                               sn_valid := ps_valid snap\<rparr>;
              s = (case my_id a of
                     None \<Rightarrow> s
                   | Some i \<Rightarrow> s\<lparr>sn_participants := [\<lparr>pv_id = i, pv_name = app_name a,
                        pv_balance = ps_balance snap, pv_reputation = 1\<rparr>]\<rparr>)
          in a\<lparr>snapshot := s, p2p := Some snap\<rparr>
      | ExecutorStarted \<Rightarrow> a\<lparr>executor_running := True\<rparr>
      | ExecutorStopped \<Rightarrow> a\<lparr>executor_running := False\<rparr>
      | LogEvent msg \<Rightarrow>
          let a = push_log msg a
          in if 500 < length (log a) then a\<lparr>log := drop 100 (log a)\<rparr> else a
      | ErrorEvent msg \<Rightarrow> push_log (''ERROR: '' @ msg) a)"

definition drain_events :: "app_event list \<Rightarrow> app \<Rightarrow> app" where
  "drain_events evs a = fold handle_event evs a"

section \<open>Reading the snapshot\<close>

definition my_participant :: "app \<Rightarrow> participant_view option" where
  "my_participant a =
     Option.bind (my_id a) (\<lambda>i. find (\<lambda>p. pv_id p = i) (sn_participants (snapshot a)))"

definition my_balance :: "app \<Rightarrow> u64" where
  "my_balance a = (case my_participant a of None \<Rightarrow> 0 | Some p \<Rightarrow> pv_balance p)"

definition my_reputation :: "app \<Rightarrow> u64" where
  "my_reputation a = (case my_participant a of None \<Rightarrow> 0 | Some p \<Rightarrow> pv_reputation p)"

text \<open>\<open>default_identity\<close> is what the default identity file holds, \<open>lossy\<close> the standard
  library's replacement of invalid UTF-8.\<close>

definition decrypt_task_result ::
  "crypto \<Rightarrow> (bytes \<Rightarrow> string) \<Rightarrow> identity \<Rightarrow> task_view \<Rightarrow> app \<Rightarrow> string option \<times> app" where
  "decrypt_task_result C lossy default_identity t a =
     (case hm_get (decrypt_cache a) (tkv_id t) of
        Some (Inl s) \<Rightarrow> (Some s, a)
      | Some (Inr err) \<Rightarrow> (None, a)
      | None \<Rightarrow>
          (case (tkv_result t, find (\<lambda>p. prv_id p = tkv_project t) (sn_projects (snapshot a)), my_id a) of
             (Some blob, Some p, Some i) \<Rightarrow>
               if prv_owner p \<noteq> i then (None, a)
               else
                 (case decrypt_blob C default_identity blob of
                    Inr bs \<Rightarrow> (Some (lossy bs),
                      a\<lparr>decrypt_cache := hm_insert (tkv_id t) (Inl (lossy bs)) (decrypt_cache a)\<rparr>)
                  | Inl err \<Rightarrow> (None,
                      a\<lparr>decrypt_cache := hm_insert (tkv_id t)
                          (Inr (case err of InvalidKey \<Rightarrow> ''InvalidKey'' | Decrypt \<Rightarrow> ''Decrypt''))
                          (decrypt_cache a)\<rparr>))
           | _ \<Rightarrow> (None, a)))"

definition ellipsis :: string where
  "ellipsis = [CHR 0xE2, CHR 0x80, CHR 0xA6]"

definition payload_preview :: "string \<Rightarrow> nat \<Rightarrow> string" where
  "payload_preview p max_chars =
     (let chs = chars_of p; preview = concat (take max_chars chs)
      in if drop max_chars chs \<noteq> [] then preview @ ellipsis else preview)"

text \<open>The preview of the task list and of the detail panel slice bytes: None is a panic.\<close>

definition sliced_preview :: "nat \<Rightarrow> string \<Rightarrow> string option" where
  "sliced_preview k p =
     (if k < length p then map_option (\<lambda>s. s @ ellipsis) (slice_to p k) else Some p)"

definition list_preview :: "task_view \<Rightarrow> string option" where
  "list_preview t = sliced_preview 60 (tkv_payload t)"

definition detail_preview :: "task_view \<Rightarrow> string option" where
  "detail_preview t = sliced_preview 200 (tkv_payload t)"

definition passes_filter :: "task_filter \<Rightarrow> task_view \<Rightarrow> bool" where
  "passes_filter f t =
     (case f of
        FilterAll \<Rightarrow> True
      | FilterPending \<Rightarrow> tkv_label t = ''Pending''
      | FilterAssigned \<Rightarrow> starts_with ''Assigned'' (tkv_label t)
      | FilterCompleted \<Rightarrow> starts_with ''Done'' (tkv_label t)
      | FilterQuota \<Rightarrow> tkv_label t = ''Quota exhausted''
      | FilterRejected \<Rightarrow> tkv_label t = ''Rejected'')"

definition filtered_tasks :: "app \<Rightarrow> task_view list" where
  "filtered_tasks a = filter (passes_filter (task_filter a)) (sn_tasks (snapshot a))"

definition worker_tasks :: "app \<Rightarrow> task_view list" where
  "worker_tasks a =
     filter (\<lambda>t. tkv_assigned t = my_id a
               \<or> (case my_id a of None \<Rightarrow> False | Some i \<Rightarrow> i \<in> set (tkv_reported t)))
       (sn_tasks (snapshot a))"

definition active_worker_tasks :: "app \<Rightarrow> nat" where
  "active_worker_tasks a = length (filter (\<lambda>t. tkv_assigned t = my_id a) (worker_tasks a))"

definition transaction_text :: "tx_view \<Rightarrow> string" where
  "transaction_text tx =
     (let amount = '' amount='' @ show_u64 (tv_amount tx)
      in case (tv_from tx, tv_to tx, tv_memo tx) of
           (Some src, Some dst, Some memo) \<Rightarrow>
             tv_kind tx @ '' '' @ show_u64 src @ '' -> '' @ show_u64 dst @ amount @ '' '' @ memo
         | (Some src, Some dst, None) \<Rightarrow>
             tv_kind tx @ '' '' @ show_u64 src @ '' -> '' @ show_u64 dst @ amount
         | (None, Some dst, _) \<Rightarrow> tv_kind tx @ '' -> '' @ show_u64 dst @ amount
         | (Some src, None, _) \<Rightarrow> tv_kind tx @ '' '' @ show_u64 src @ amount
         | (None, None, _) \<Rightarrow> tv_kind tx @ amount)"

section \<open>Clicks\<close>

text \<open>A click handler returns the commands it offers to the node and the application.\<close>

type_synonym click = "app_command list \<times> app"

definition connect_clicked :: "app \<Rightarrow> click" where
  "connect_clicked a =
     (let balance = (case parse_u64 (balance_input a) of None \<Rightarrow> 100 | Some b \<Rightarrow> b);
          q = (case parse_u64 (quorum_input a) of None \<Rightarrow> 2 | Some x \<Rightarrow> x)
      in (case node_mode a of
            ModeCoordinator \<Rightarrow>
              [ConnectCoordinator (listen_addr a) (app_name a) balance q (peer_coordinators a)]
          | ModeWorker \<Rightarrow>
              [ConnectWorker (coord_addr a) (app_name a) balance (exec_allowed_packages a)]
          | ModePeer \<Rightarrow>
              [JoinP2P (listen_addr a)
                 (filter (\<lambda>s. s \<noteq> []) (map trim (split_at (CHR '','') (bootstrap_input a))))
                 (app_name a) balance], a))"

definition python_payload :: "crypto \<Rightarrow> string \<Rightarrow> string" where
  "python_payload C code = ''python:'' @ b64_encode C (str_bytes code)"

definition quick_demo_clicked :: "crypto \<Rightarrow> app \<Rightarrow> click" where
  "quick_demo_clicked C a =
     ([CmdCreateProject ''Demo'' (encryption_pubkey a), CmdFundProject 1 50,
       CmdSubmitTask 1 20
         (python_payload C (''print('' @ single_quoted ''hello from BOINC'' @ '')''))],
      a\<lparr>quick_demo_done := True\<rparr>)"

definition create_project_clicked :: "app \<Rightarrow> click" where
  "create_project_clicked a =
     (if new_project_name a = [] then ([], a)
      else ([CmdCreateProject (new_project_name a) (encryption_pubkey a)],
            a\<lparr>new_project_name := []\<rparr>))"

text \<open>Both fields have to be numbers.\<close>

definition both_numbers :: "string \<Rightarrow> string \<Rightarrow> (u64 \<Rightarrow> u64 \<Rightarrow> app_command) \<Rightarrow> app_command list" where
  "both_numbers x y f =
     (case (parse_u64 x, parse_u64 y) of (Some a, Some b) \<Rightarrow> [f a b] | _ \<Rightarrow> [])"

definition fund_clicked :: "app \<Rightarrow> click" where
  "fund_clicked a = (both_numbers (fund_project_id a) (fund_amount a) CmdFundProject, a)"

definition donate_clicked :: "app \<Rightarrow> click" where
  "donate_clicked a =
     (both_numbers (donate_project_id a) (donate_amount a) CmdDonateToProject, a)"

definition worker_donate_clicked :: "project_id \<Rightarrow> app \<Rightarrow> click" where
  "worker_donate_clicked pid a =
     (let input = (case hm_get (worker_donate_amounts a) pid of None \<Rightarrow> [] | Some s \<Rightarrow> s)
      in case parse_u64 input of
           None \<Rightarrow> ([], a)
         | Some amt \<Rightarrow>
             if 0 < amt then
               ([CmdDonateToProject pid amt],
                a\<lparr>worker_donate_amounts := hm_insert pid [] (worker_donate_amounts a)\<rparr>)
             else ([], a))"

definition send_tokens_clicked :: "app \<Rightarrow> click" where
  "send_tokens_clicked a =
     (both_numbers (trim (send_to_input a)) (trim (send_amount_input a)) SendTokens, a)"

definition selected_task_project_id :: "app \<Rightarrow> string + project_id" where
  "selected_task_project_id a =
     (case task_project_selected a of
        Some pid \<Rightarrow> Inr pid
      | None \<Rightarrow>
          if trim (task_project_id a) = [] then
            Inl ''ERROR: select a project before submitting a task''
          else case parse_u64 (task_project_id a) of
                 Some pid \<Rightarrow> Inr pid
               | None \<Rightarrow> Inl ''ERROR: selected project id is invalid'')"

definition task_payload_for_submit :: "crypto \<Rightarrow> app \<Rightarrow> string" where
  "task_payload_for_submit C a =
     (case task_payload_mode a of
        PythonMode \<Rightarrow> ''python:'' @ b64_encode C (str_bytes (task_code a))
      | GpuMode \<Rightarrow> ''python-gpu:'' @ b64_encode C (str_bytes (task_code a)))"

definition submit_task_clicked :: "crypto \<Rightarrow> app \<Rightarrow> click" where
  "submit_task_clicked C a =
     (case (selected_task_project_id a, parse_u64 (task_reward a)) of
        (Inr pid, Some rew) \<Rightarrow> ([CmdSubmitTask pid rew (task_payload_for_submit C a)], a)
      | (Inl msg, _) \<Rightarrow> ([], push_log msg a)
      | (_, None) \<Rightarrow> ([], push_log ''ERROR: task reward must be a number'' a))"

definition executor_clicked :: "app \<Rightarrow> click" where
  "executor_clicked a =
     (if executor_running a then ([StopExecutor], a\<lparr>executor_running := False\<rparr>)
      else ([StartExecutor (exec_reliability a) (exec_compute_ticks a) (exec_allowed_packages a)],
            a\<lparr>executor_running := True\<rparr>))"

subsection \<open>Lists of addresses and packages\<close>

text \<open>The list, the input field and the selection after a click on Add.\<close>

definition add_address ::
  "string list \<Rightarrow> string \<Rightarrow> string option \<Rightarrow> string list \<times> string \<times> string option" where
  "add_address addrs input selected =
     (let a = trim input
      in if a \<noteq> [] \<and> a \<notin> set addrs then (addrs @ [a], [], map_option (\<lambda>_. a) selected)
         else (addrs, input, selected))"

definition add_package_clicked :: "app \<Rightarrow> app" where
  "add_package_clicked a =
     (let name = trim (exec_new_package_input a);
          a = (if name \<noteq> [] \<and> name \<notin> set (exec_allowed_packages a)
               then a\<lparr>exec_allowed_packages := sort_key str_bytes (exec_allowed_packages a @ [name])\<rparr>
               else a)
      in a\<lparr>exec_new_package_input := []\<rparr>)"

definition reset_packages_clicked :: "app \<Rightarrow> app" where
  "reset_packages_clicked a = a\<lparr>exec_allowed_packages := default_allowed_packages\<rparr>"

definition remove_package_clicked :: "nat \<Rightarrow> app \<Rightarrow> app" where
  "remove_package_clicked i a =
     a\<lparr>exec_allowed_packages := take i (exec_allowed_packages a) @ drop (Suc i) (exec_allowed_packages a)\<rparr>"

subsection \<open>Batches\<close>

definition newline :: string where
  "newline = [char_of (10 :: nat)]"

definition batch_code :: "u64 \<Rightarrow> u64 \<Rightarrow> string" where
  "batch_code k chunk_end =
     ''start,end='' @ show_u64 k @ '','' @ show_u64 chunk_end @ newline
     @ ''primes=[]'' @ newline
     @ ''for n in range(max(2,start),end):'' @ newline
     @ ''    ok=all(n%i!=0 for i in range(2,int(n**0.5)+1))'' @ newline
     @ ''    if ok:primes.append(n)'' @ newline
     @ ''print('' @ single_quoted '','' @ ''.join(map(str,primes)) or '' @ single_quoted ''none''
     @ '')'' @ newline"

text \<open>The loop over the chunks of a batch may run forever; a batch that does is None. The value is
  the bounds of the chunks.\<close>

partial_function (option) batch_chunks :: "u64 \<Rightarrow> u64 \<Rightarrow> u64 \<Rightarrow> (u64 \<times> u64) list option" where
  "batch_chunks k bound chunk =
     (if k < bound then
        Option.bind (batch_chunks (min (k + chunk) bound) bound chunk)
          (\<lambda>rest. Some ((k, min (k + chunk) bound) # rest))
      else Some [])"

definition batch_clicked :: "crypto \<Rightarrow> app \<Rightarrow> click option" where
  "batch_clicked C a =
     (case (parse_u64 (batch_range_start a), parse_u64 (batch_range_end a),
            parse_u64 (batch_chunk_size a), parse_u64 (task_reward a)) of
        (Some start, Some bound, Some chunk, Some rew) \<Rightarrow>
          (case selected_task_project_id a of
             Inr pid \<Rightarrow>
               map_option (\<lambda>chunks.
                   (map (\<lambda>(k, m). CmdSubmitTask pid rew (python_payload C (batch_code k m))) chunks,
                    push_log (''Batch: submitted '' @ digits_of 10 (length chunks mod 2 ^ 32)
                      @ '' prime-check tasks'') a))
                 (batch_chunks start bound chunk)
           | Inl msg \<Rightarrow> Some ([], push_log msg a))
      | _ \<Rightarrow> Some ([], push_log ''ERROR: batch start/end/chunk and reward must be numbers'' a))"

end
