(* ===== verification/Execution.thy ===== *)
theory Execution
  imports App
begin

text \<open>
  Properties of the executor, the estimator and the application: what a payload survives, what a
  digest depends on, what a run may cost, and when a run fails.
\<close>

section \<open>Strings\<close>

text \<open>A pattern that ends in a character the end of a string does not have lies before it.\<close>

lemma contains_before:
  assumes "c \<notin> set h" and "pat \<noteq> []" and "last pat = c"
  shows "str_contains pat (pre @ h) \<longleftrightarrow> str_contains pat pre"
proof
  assume "str_contains pat (pre @ h)"
  then obtain u v where "pre @ h = u @ pat @ v"
    by (auto simp: str_contains_iff)
  moreover have pat: "pat = butlast pat @ [c]"
    using assms(2,3) by (metis append_butlast_last_id)
  ultimately have "pre @ h = (u @ butlast pat) @ c # v"
    by (metis append.assoc append_Cons append_Nil)
  then obtain w where "pre = (u @ butlast pat) @ c # w"
    using assms(1) by (auto simp: append_eq_append_conv2 append_eq_Cons_conv)
  then have "pre = u @ pat @ w"
    using pat by (metis append.assoc append_Cons append_Nil)
  then show "str_contains pat pre"
    by (auto simp: str_contains_iff)
next
  assume "str_contains pat pre"
  then show "str_contains pat (pre @ h)"
    unfolding str_contains_iff by (metis append.assoc)
qed

lemma digits_of_hex: "x \<in> set (digits_of 16 n) \<Longrightarrow> x \<in> set ''0123456789abcdef''"
proof (induction n rule: less_induct)
  case (less n)
  define hex where "hex = ''0123456789abcdef''"
  have digits: "digits_of 16 n =
      (if n < 16 then [hex ! n] else digits_of 16 (n div 16) @ [hex ! (n mod 16)])"
    by (subst digits_of.simps) (simp add: hex_def)
  have "hex ! k \<in> set hex" if "k < 16" for k
    using that by (intro nth_mem) (simp add: hex_def)
  moreover have "x \<in> set (digits_of 16 (n div 16)) \<Longrightarrow> 16 \<le> n \<Longrightarrow> x \<in> set hex"
    unfolding hex_def by (rule less.IH) simp_all
  ultimately have "x \<in> set hex"
    using less.prems by (auto simp: digits split: if_splits)
  then show ?case
    by (simp only: hex_def)
qed

lemma no_dash_hex: "CHR ''-'' \<notin> set (hex_u64 w)" "CHR ''-'' \<notin> set (hex16 w)"
  using digits_of_hex [of "CHR ''-''" "unat w"] by (auto simp: hex_u64_def hex16_def Let_def)

lemma string_of_str_bytes [simp]: "string_of (str_bytes s) = s"
proof -
  have "char_of (unat (of_char c :: u8)) = c" for c
    by (simp add: unsigned_of_nat take_bit_eq_mod flip: of_nat_of_char [of c, where ?'a = u8])
  then show ?thesis
    by (simp add: string_of_def str_bytes_def o_def)
qed

section \<open>The sandbox and the estimator\<close>

text \<open>A package name may be an option of pip, though the source means to refuse one.\<close>

lemma pip_option_accepted: "is_valid_package_name ''--pre''"
  by code_simp

lemma lower_not_upper: "c \<in> set (to_ascii_lowercase s) \<Longrightarrow> \<not> (65 \<le> byte_of c \<and> byte_of c \<le> 90)"
  by (auto simp: to_ascii_lowercase_def lower_char_def byte_of_def)

text \<open>The third rule for unbounded loops can never fire: it looks for an upper-case letter in a
  text that has just been lowered.\<close>

lemma repeat_rule_dead: "detect_unbounded_python source \<noteq> Some ''unbounded repeat loop''"
proof -
  have "\<not> str_contains ''repeat(None)'' (to_ascii_lowercase s)" for s
  proof
    assume "str_contains ''repeat(None)'' (to_ascii_lowercase s)"
    then obtain u v where "to_ascii_lowercase s = u @ ''repeat(None)'' @ v"
      by (auto simp: str_contains_iff)
    then have "CHR ''N'' \<in> set (to_ascii_lowercase s)"
      by simp
    then show False
      using lower_not_upper [of "CHR ''N''" s] by (simp add: byte_of_def)
  qed
  then show ?thesis
    by (simp add: detect_unbounded_python_def Let_def)
qed

lemma unat_div_ceil:
  "b \<noteq> 0 \<Longrightarrow> unat (div_ceil a b) = (unat a + unat b - 1) div unat b"
proof -
  assume "b \<noteq> 0"
  then have b: "0 < unat b"
    by (simp add: unat_gt_0)
  show ?thesis
  proof (cases "a mod b = 0")
    case True
    then have "unat a mod unat b = 0"
      by (metis unat_0 unat_mod_distrib)
    then obtain q where "unat a = unat b * q"
      by (metis dvdE mod_0_imp_dvd)
    then have "unat a + unat b - 1 = unat b * q + (unat b - 1)"
      using b by simp
    then have "(unat a + unat b - 1) div unat b = q"
      using b by (intro div_nat_eqI) simp_all
    then show ?thesis
      using True b \<open>unat a = unat b * q\<close> by (simp add: div_ceil_def unat_div_distrib)
  next
    case False
    then have m: "0 < unat a mod unat b"
      by (metis gr0I unat_eq_zero unat_mod_distrib)
    have "unat a div unat b < 2 ^ 64 - 1"
    proof (cases "unat b = 1")
      case True
      with m show ?thesis by simp
    next
      case False
      then have "unat a div unat b \<le> unat a div 2"
        using b by (intro div_le_mono2) simp_all
      moreover have "unat a div 2 < 18446744073709551615"
        using unat_less_64 [of a] by presburger
      ultimately show ?thesis
        by simp
    qed
    then have "unat (a div b + 1) = unat a div unat b + 1"
      using unat_add_no_wrap [of "a div b" 1] by (simp add: unat_div_distrib)
    moreover have "(unat a + unat b - 1) div unat b = unat a div unat b + 1"
    proof -
      have "unat a + unat b - 1 = unat b * (unat a div unat b + 1) + (unat a mod unat b - 1)"
        using m mult_div_mod_eq [of "unat b" "unat a"] by (simp only: distrib_left)
      moreover have "unat a mod unat b - 1 < unat b"
        using b by (simp add: less_imp_diff_less)
      ultimately show ?thesis
        by (intro div_nat_eqI) simp_all
    qed
    ultimately show ?thesis
      using False by (simp add: div_ceil_def)
  qed
qed

section \<open>Properties\<close>

lemma timeout_bought:
  fixes cfg rew
  defines "rate \<equiv> max (unat (cpu_rate cfg)) 1" and "budget \<equiv> unat rew - unat (base_fee cfg)"
    and "t \<equiv> unat (timeout_for_budget cfg rew)"
  shows "1 \<le> t \<and> budget \<le> t * rate \<and> (t = 1 \<or> (t - 1) * rate < budget)"
proof -
  let ?r = "max (cpu_rate cfg) 1"
  have r: "unat ?r = rate" "?r \<noteq> 0" "0 < rate"
    by (simp_all add: rate_def unat_max_u64) (auto simp: max_def)
  have t: "t = max ((budget + rate - 1) div rate) 1"
    unfolding t_def timeout_for_budget_def MIN_SUGGESTED_TIMEOUT_SECS_def Let_def unat_max_u64
      unat_div_ceil [OF r(2)] unat_sat_sub r(1) budget_def by (simp add: rate_def)
  let ?q = "(budget + rate - 1) div rate"
  have "budget + rate - 1 < (?q + 1) * rate" "?q * rate \<le> budget + rate - 1"
    using r(3) by (simp_all add: dividend_less_div_times div_times_less_eq_dividend)
  moreover have "(?q + 1) * rate = ?q * rate + rate"
    by simp
  ultimately have "budget \<le> ?q * rate" and low: "?q * rate < budget + rate"
    using r(3) by linarith+
  moreover have "?q * rate \<le> t * rate"
    by (simp add: t)
  ultimately have "budget \<le> t * rate"
    by linarith
  moreover have "t = 1 \<or> (t - 1) * rate < budget"
    using low r(3) by (cases "t = 1") (auto simp: t max_def algebra_simps diff_mult_distrib split: if_splits)
  moreover have "1 \<le> t"
    by (simp add: t)
  ultimately show ?thesis
    by blast
qed

text \<open>C28: the time a reward buys is exact: the least number of seconds, at least one, whose price
  at the CPU rate covers what is left of the reward after the base fee.\<close>

theorem budget_timeout_exact:
  "unat (timeout_for_budget cfg rew) = (LEAST t. 1 \<le> t
     \<and> unat rew - unat (base_fee cfg) \<le> t * max (unat (cpu_rate cfg)) 1)"
proof (rule sym, rule Least_equality)
  fix t assume t: "1 \<le> t \<and> unat rew - unat (base_fee cfg) \<le> t * max (unat (cpu_rate cfg)) 1"
  show "unat (timeout_for_budget cfg rew) \<le> t"
  proof (rule ccontr)
    assume "\<not> unat (timeout_for_budget cfg rew) \<le> t"
    then have "t \<le> unat (timeout_for_budget cfg rew) - 1" "unat (timeout_for_budget cfg rew) \<noteq> 1"
      using t by linarith+
    then show False
      using timeout_bought [of cfg rew] t mult_le_mono1 [of t "unat (timeout_for_budget cfg rew) - 1"
        "max (unat (cpu_rate cfg)) 1"] by linarith
  qed
qed (use timeout_bought [of cfg rew] in blast)

text \<open>C29: a payload survives the way from the application to the interpreter: what the user
  submits is recognised as Python, with the mode that was chosen, and decodes to exactly the code
  that was entered.\<close>

theorem payload_roundtrip:
  assumes "base64_ok C" and "utf8_ok U (str_bytes (task_code a))"
  shows "\<exists>code_b64. payload_parse (task_payload_for_submit C a)
           = PythonPayload code_b64 (task_payload_mode a = GpuMode)
         \<and> decode_python_source C U tid code_b64 prefix = Inr (task_code a)"
proof -
  let ?b64 = "b64_encode C (str_bytes (task_code a))"
  have "payload_parse (task_payload_for_submit C a) = PythonPayload ?b64 (task_payload_mode a = GpuMode)"
    by (cases "task_payload_mode a")
      (simp_all add: task_payload_for_submit_def payload_parse_def strip_prefix_def)
  then show ?thesis
    using assms by (auto simp: decode_python_source_def base64_ok_def)
qed

theorem payload_roundtrip_witness:
  "\<exists>code_b64. payload_parse (task_payload_for_submit toy_crypto (app_new toy_crypto demo_identity))
      = PythonPayload code_b64 False
    \<and> decode_python_source toy_crypto \<lparr>utf8_ok = (\<lambda>bs. True)\<rparr> 1 code_b64 ''python''
      = Inr (''print('' @ single_quoted ''hello from BOINC'' @ '')'')"
  using payload_roundtrip [OF toy_base64_ok, of "\<lparr>utf8_ok = (\<lambda>bs. True)\<rparr>"
      "app_new toy_crypto demo_identity" 1 "''python''"]
  by (simp add: app_new_def)


text \<open>Which digests carry the mark of an exhausted budget.\<close>

lemma digest_only_simps [simp]:
  "cr_digest (digest_only d) = d" "budget_exhausted (digest_only d) = False"
  by (simp_all add: digest_only_def)

lemma unmarked:
  assumes "CHR ''-'' \<notin> set h" and "\<not> str_contains ''-budget-exhausted-'' pre"
  shows "\<not> is_budget_exhausted_digest (pre @ h)"
  using assms contains_before [of "CHR ''-''" h "''-budget-exhausted-''" pre]
  by (simp add: is_budget_exhausted_digest_def)

lemma output_unmarked: "digest_from_stdout C out = Some d \<Longrightarrow> \<not> is_budget_exhausted_digest d"
  using unmarked [OF no_dash_hex(2), of "''python-ok-''"] by (auto simp: digest_from_stdout_def)

lemma timeout_marked:
  "is_budget_exhausted_digest (cr_digest (python_timeout_result pre tid True out ms))"
  "budget_exhausted (python_timeout_result pre tid b out ms) = b"
proof -
  have "is_budget_exhausted_digest (pre @ ''-'' @ ''budget-exhausted'' @ ''-'' @ hex_u64 tid)"
    unfolding is_budget_exhausted_digest_def str_contains_iff
    by (intro exI [where x = pre] exI [where x = "hex_u64 tid"]) simp
  then show "is_budget_exhausted_digest (cr_digest (python_timeout_result pre tid True out ms))"
    "budget_exhausted (python_timeout_result pre tid b out ms) = b"
    by (simp_all add: python_timeout_result_def Let_def)
qed

lemma undecoded_unmarked:
  assumes "decode_python_source C U tid code_b64 ''python'' = Inl r"
  shows "\<not> is_budget_exhausted_digest (cr_digest r)" and "\<not> budget_exhausted r"
  using assms unmarked [OF no_dash_hex(1), of "''python-error:bad-base64-''" tid]
    unmarked [OF no_dash_hex(1), of "''python-error:invalid-utf8-''" tid]
  by (auto simp: decode_python_source_def split: option.splits if_splits)

lemma digest_marks_exhaustion:
  assumes res: "compute_result_with_budget C U P elapsed ex tid p (Some rew) = Some res"
  shows "is_budget_exhausted_digest (cr_digest res) \<longleftrightarrow> budget_exhausted res"
proof (cases "payload_parse p")
  case (PythonPayload code_b64 gpu)
  have corrupt: "\<not> is_budget_exhausted_digest
      ((if gpu then ''python-gpu'' else ''python'') @ ''-corrupt-'' @ hex_u64 tid)"
    using unmarked [OF no_dash_hex(1), of "''python-gpu-corrupt-''" tid]
      unmarked [OF no_dash_hex(1), of "''python-corrupt-''" tid] by simp
  have failed: "\<not> is_budget_exhausted_digest
      ((if gpu then ''python-gpu'' else ''python'') @ ''-sandbox-error-'' @ hex_u64 tid)"
    using unmarked [OF no_dash_hex(1), of "''python-gpu-sandbox-error-''" tid]
      unmarked [OF no_dash_hex(1), of "''python-sandbox-error-''" tid] by simp
  show ?thesis
    using res corrupt failed undecoded_unmarked timeout_marked output_unmarked
    unfolding compute_result_with_budget_def PythonPayload payload.case run_python_payload_def Let_def
      run_python_via_sandbox_def
    by (fastforce split: sum.splits if_splits option.splits estimator_error.splits
        sandbox_error.splits)
next
  case UnknownPayload
  then show ?thesis
    using res unmarked [OF no_dash_hex(1), of "''error:unknown-payload-''" tid]
    by (auto simp: compute_result_with_budget_def)
qed

text \<open>C21: a worker never asks for more than the reward, and it asks for all of it whenever the
  run exhausted its budget; the digest it reports carries the mark of an exhausted budget, by
  which the network burns the reward, for such runs and for no others.\<close>

theorem cost_within_reward:
  assumes "execute_task_payload C U P elapsed ex tid p rew = Some (res, cost)"
  shows "cost \<le> rew \<and> (budget_exhausted res \<longrightarrow> cost = rew)
    \<and> (is_budget_exhausted_digest (cr_digest res) \<longleftrightarrow> budget_exhausted res)"
proof -
  have "compute_result_with_budget C U P elapsed ex tid p (Some rew) = Some res"
    and "cost = actual_cost_of ex (cr_metrics res) rew (budget_exhausted res)"
    using assms by (auto simp: execute_task_payload_def)
  then show ?thesis
    using digest_marks_exhaustion by (auto simp: actual_cost_of_def split: option.split)
qed



text \<open>A chunk size of zero, which the application accepts, makes the loop run forever.\<close>

lemma batch_zero_diverges:
  assumes "start < bound"
  shows "batch_chunks start bound 0 = None"
proof (rule ccontr)
  assume "batch_chunks start bound 0 \<noteq> None"
  then obtain chunks where chunks: "batch_chunks start bound 0 = Some chunks"
    by blast
  have "min start bound = start"
    using assms by simp
  then have "batch_chunks start bound 0
      = Option.bind (batch_chunks start bound 0) (\<lambda>rest. Some ((start, start) # rest))"
    using assms by (subst batch_chunks.simps) simp
  with chunks show False
    by simp
qed

lemma timeout_at_least_1 [simp]: "max (timeout_for_budget cfg rew) 1 = timeout_for_budget cfg rew"
  by (simp add: timeout_for_budget_def MIN_SUGGESTED_TIMEOUT_SECS_def Let_def)

text \<open>An interpreter whose every script ends alike, and a worker that always means to be honest.\<close>

definition scripted_python :: "script_end \<Rightarrow> string \<Rightarrow> python" where
  "scripted_python e out =
     \<lparr>py_setup = (\<lambda>allowed extra. None),
      py_script = (\<lambda>code t allowed. \<lparr>script_end = e, print_outputs = out, operation_counter = 0\<rparr>),
      py_thread = (\<lambda>code t. ThreadDone), py_extra_paths = [], py_venv = None,
      py_importable = (\<lambda>pkg. False), py_pip = (\<lambda>pkg. PipOk)\<rparr>"

definition honest_worker :: executor where
  "honest_worker = executor_new 1 ''ann'' 100 1 1 default_allowed_packages"

definition any_text :: text_ops where
  "any_text = \<lparr>utf8_ok = (\<lambda>bs. True)\<rparr>"

lemma honest_worker_simps [simp]:
  "estimator honest_worker = Some default_costs" "\<not> generates_corrupted_result honest_worker 1 ''x''"
  by (simp_all add: honest_worker_def executor_new_def generates_corrupted_result_def usize_of_def)

lemma payload_x [simp]:
  "payload_parse ''python:x'' = PythonPayload ''x'' False"
  "decode_python_source toy_crypto any_text tid ''x'' prefix = Inr ''x''"
proof -
  have "b64_decode toy_crypto ''x'' = Some (str_bytes ''x'')"
    by (simp add: toy_crypto_def str_bytes_def)
  then show "decode_python_source toy_crypto any_text tid ''x'' prefix = Inr ''x''"
    by (simp only: decode_python_source_def option.case any_text_def text_ops.simps if_True string_of_str_bytes)
qed (simp add: payload_parse_def strip_prefix_def)

lemma scripted_python_runs [simp]:
  "run_python_sandboxed (scripted_python (ReturnsLogs (Some out)) out') code t allowed
    = Inr \<lparr>sb_stdout = out, sb_success = True, sb_operations = 0\<rparr>"
  by (simp add: run_python_sandboxed_def run_in_gil_def run_glue_def scripted_python_def Let_def
      to_ascii_lowercase_def str_contains_iff)

text \<open>Output longer than 1024 bytes crashes the worker when byte 1024 falls inside a
  character: cutting the output for the digest panics, so the run has no result and nothing is
  ever reported for the task.\<close>

theorem long_output_panics:
  assumes "payload_parse p = PythonPayload code_b64 gpu"
    and "decode_python_source C U tid code_b64 ''python'' = Inr code"
    and "\<not> generates_corrupted_result ex tid code_b64" and "estimator ex = Some cfg"
    and "run_python_sandboxed P code (timeout_for_budget cfg rew) (allowed_packages ex) = Inr out"
    and "1024 < length (sb_stdout out)" and "continuation (sb_stdout out ! 1024)"
  shows "execute_task_payload C U P elapsed ex tid p rew = None"
proof -
  have "digest_from_stdout C (sb_stdout out) = None"
    using assms(6,7) by (simp add: digest_from_stdout_def slice_to_def is_char_boundary_def min_def)
  then show ?thesis
    using assms(1-5) by (simp add: execute_task_payload_def compute_result_with_budget_def
        run_python_payload_def Let_def python_timeout_def measure_via_sandbox_def)
qed

theorem long_output_panics_witness:
  "execute_task_payload toy_crypto any_text
     (scripted_python (ReturnsLogs (Some (replicate 1023 CHR ''a'' @ map char_of [195 :: nat, 169]))) [])
     0 honest_worker 1 ''python:x'' 50 = None"
  by (rule long_output_panics [where gpu = False and ?code_b64.0 = "''x''" and code = "''x''"
        and cfg = default_costs and out = "\<lparr>sb_stdout = replicate 1023 CHR ''a'' @ map char_of [195 :: nat, 169],
          sb_success = True, sb_operations = 0\<rparr>"])
    (simp_all add: nth_append continuation_def byte_of_def)

text \<open>A failing script is reported as a success: when a script raises an error that is not
  taken for a timeout, the worker reports the same digest as for a script that printed the same
  output and ended well.\<close>

theorem failed_script_counts_as_ok:
  assumes "payload_parse p = PythonPayload code_b64 gpu"
    and "decode_python_source C U tid code_b64 ''python'' = Inr code"
    and "\<not> generates_corrupted_result ex tid code_b64" and "estimator ex = Some cfg"
    and "\<forall>t. py_thread P code t = ThreadDone" and "py_setup P (allowed_packages ex) (py_extra_paths P) = None"
    and "\<forall>t. script_end (py_script P code t (allowed_packages ex)) = RaisesInterpreterError msg
          \<and> print_outputs (py_script P code t (allowed_packages ex)) = out"
    and "\<forall>pat\<in>{''maximum number of'', ''timed out'', ''operations''}.
          \<not> str_contains pat (to_ascii_lowercase msg)"
    and "digest_from_stdout C out = Some digest"
  shows "\<exists>res cost. execute_task_payload C U P elapsed ex tid p rew = Some (res, cost)
    \<and> cr_digest res = digest \<and> cr_stdout res = out \<and> \<not> budget_exhausted res"
  using assms
  by (simp add: execute_task_payload_def compute_result_with_budget_def run_python_payload_def
      Let_def measure_via_sandbox_def run_python_sandboxed_def run_in_gil_def run_glue_def)

theorem failed_script_counts_as_ok_witness:
  "\<exists>res cost. execute_task_payload toy_crypto any_text
       (scripted_python (RaisesInterpreterError ''division by zero'') ''x'') 0 honest_worker 1
       ''python:x'' 50 = Some (res, cost)
    \<and> cr_stdout res = ''x'' \<and> \<not> budget_exhausted res"
proof -
  let ?digest = "''python-ok-'' @ hex16 (be_u64 (sha256 toy_crypto (str_bytes ''x'')))"
  have "digest_from_stdout toy_crypto ''x'' = Some ?digest"
    by (simp add: digest_from_stdout_def slice_to_def is_char_boundary_def)
  moreover have "\<not> str_contains pat (to_ascii_lowercase ''division by zero'')"
    if "pat \<in> {''maximum number of'', ''timed out'', ''operations''}" for pat
    using that by auto code_simp+
  ultimately show ?thesis
    using failed_script_counts_as_ok [where P = "scripted_python (RaisesInterpreterError ''division by zero'') ''x''"
        and ex = honest_worker and p = "''python:x''" and tid = 1 and U = any_text and C = toy_crypto
        and code = "''x''" and cfg = default_costs and ?code_b64.0 = "''x''" and gpu = False
        and msg = "''division by zero''" and out = "''x''" and digest = ?digest and elapsed = 0 and rew = 50]
    by (fastforce simp: scripted_python_def)
qed


theorem cost_within_reward_witness:
  "\<exists>res cost. execute_task_payload toy_crypto any_text (scripted_python (ReturnsLogs None) []) 0
      honest_worker 1 ''ruby:x'' 50 = Some (res, cost) \<and> cost \<le> 50"
proof -
  have "payload_parse ''ruby:x'' = UnknownPayload"
    by (simp add: payload_parse_def strip_prefix_def)
  then have "\<exists>r. execute_task_payload toy_crypto any_text (scripted_python (ReturnsLogs None) []) 0
      honest_worker 1 ''ruby:x'' 50 = Some r"
    by (simp add: execute_task_payload_def compute_result_with_budget_def)
  then obtain res cost where "execute_task_payload toy_crypto any_text
      (scripted_python (ReturnsLogs None) []) 0 honest_worker 1 ''ruby:x'' 50 = Some (res, cost)"
    by auto
  from cost_within_reward [OF this] this show ?thesis
    by blast
qed

end
