(* ===== verification/Pyenv.thy ===== *)
theory Pyenv
  imports Text
begin

text \<open>
  The Python environment of the worker (src/src/pyenv.rs): where the interpreter comes from, how
  the virtual environment is created and filled, and the cache of the result.

  The file system, the processes that are run and the platform are the record \<open>os\<close>, a parameter;
  its state \<open>'h\<close> is threaded through every call that can change it.
\<close>

section \<open>The operating system\<close>

text \<open>How a process ends: it could not be started, or it exited, successfully or not, with this
  standard output and standard error.\<close>

datatype process_end = NotStarted string | Exited bool string string

record 'h os =
  os_exists :: "string \<Rightarrow> 'h \<Rightarrow> bool"
  os_mkdir :: "string \<Rightarrow> 'h \<Rightarrow> string option \<times> 'h" \<comment> \<open>the error, if any\<close>
  os_spawn :: "bool \<Rightarrow> string list \<Rightarrow> 'h \<Rightarrow> process_end \<times> 'h"
    \<comment> \<open>whether PYTHONHOME is removed, program and arguments\<close>
  os_join :: "string \<Rightarrow> string \<Rightarrow> string"
  os_parent :: "string \<Rightarrow> string option"
  os_exe_dir :: "string option"
  os_cwd :: "string option"
  os_data_dir :: string
  os_windows :: bool

definition proc_ok :: "process_end \<Rightarrow> bool" where
  "proc_ok p = (case p of Exited ok out err \<Rightarrow> ok | NotStarted e \<Rightarrow> False)"

record py_env =
  venv_interpreter :: string
  site_packages :: string

section \<open>Finding an interpreter\<close>

definition PYTHON_CANDIDATES :: "string list" where
  "PYTHON_CANDIDATES = [''python3.12'', ''python3.11'', ''python3.10'', ''python3'', ''python'']"

definition bundle_interpreter :: "'h os \<Rightarrow> string \<Rightarrow> string" where
  "bundle_interpreter S prefix =
     (if os_windows S then os_join S prefix ''python.exe''
      else os_join S (os_join S prefix ''bin'') ''python3'')"

definition venv_python :: "'h os \<Rightarrow> string \<Rightarrow> string" where
  "venv_python S venv =
     (if os_windows S then os_join S (os_join S venv ''Scripts'') ''python.exe''
      else os_join S (os_join S venv ''bin'') ''python3'')"

definition venv_dir :: "'h os \<Rightarrow> string" where
  "venv_dir S = os_join S (os_join S (os_data_dir S) ''boinc-quota'') ''venv''"

definition bundle_roots :: "'h os \<Rightarrow> string list" where
  "bundle_roots S =
     (case os_exe_dir S of
        None \<Rightarrow> []
      | Some d \<Rightarrow> [d, os_join S (os_join S d ''..'') ''Resources'', os_join S d ''..'',
                    os_join S (os_join S d ''..'') ''..''])
     @ (case os_cwd S of None \<Rightarrow> [] | Some d \<Rightarrow> [d])"

definition bundled_python_dir :: "'h os \<Rightarrow> 'h \<Rightarrow> string option" where
  "bundled_python_dir S h =
     find (\<lambda>cand. os_exists S (bundle_interpreter S cand) h)
       (concat (map (\<lambda>root. map (os_join S root) [''python'', ''vendor/python'']) (bundle_roots S)))"

definition version_check :: string where
  "version_check = ''import sys; sys.exit(0 if sys.version_info >= (3, 10) else 1)''"

fun find_system_python :: "'h os \<Rightarrow> string list \<Rightarrow> 'h \<Rightarrow> string option \<times> 'h" where
  "find_system_python S [] h = (None, h)"
| "find_system_python S (cand # cands) h =
     (let (p, h) = os_spawn S False [cand, ''-c'', version_check] h
      in if proc_ok p then (Some cand, h) else find_system_python S cands h)"

definition base_python :: "'h os \<Rightarrow> 'h \<Rightarrow> string option \<times> 'h" where
  "base_python S h =
     (case bundled_python_dir S h of
        Some dir \<Rightarrow>
          if os_exists S (bundle_interpreter S dir) h then (Some (bundle_interpreter S dir), h)
          else find_system_python S PYTHON_CANDIDATES h
      | None \<Rightarrow> find_system_python S PYTHON_CANDIDATES h)"

text \<open>\<open>PYTHONHOME\<close> of the process before and after.\<close>

definition prepare_embedded_python :: "'h os \<Rightarrow> 'h \<Rightarrow> string option \<Rightarrow> string option" where
  "prepare_embedded_python S h home =
     (case home of Some d \<Rightarrow> Some d | None \<Rightarrow> bundled_python_dir S h)"

section \<open>Setting up the environment\<close>

definition run_ok :: "string \<Rightarrow> process_end \<Rightarrow> string + unit" where
  "run_ok what p =
     (case p of
        NotStarted e \<Rightarrow> Inl (what @ '': '' @ e)
      | Exited ok out err \<Rightarrow>
          if ok then Inr ()
          else let ls = lines_of err
               in Inl (what @ '' failed: '' @ trim (if ls = [] then [] else last ls)))"

definition ensure_smolagents :: "'h os \<Rightarrow> string \<Rightarrow> 'h \<Rightarrow> (string + unit) \<times> 'h" where
  "ensure_smolagents S venv_py h =
     (let (p, h) = os_spawn S True [venv_py, ''-c'', ''import smolagents''] h
      in if proc_ok p then (Inr (), h)
         else
           let (p, h) = os_spawn S True [venv_py, ''-m'', ''pip'', ''install'',
                 ''--disable-pip-version-check'', ''-q'', ''smolagents''] h
           in (run_ok ''install smolagents'' p, h))"

definition query_site_packages :: "'h os \<Rightarrow> string \<Rightarrow> 'h \<Rightarrow> (string + string) \<times> 'h" where
  "query_site_packages S venv_py h =
     (let (p, h) = os_spawn S True
            [venv_py, ''-c'', ''import site; print(site.getsitepackages()[0])''] h
      in (case p of
            NotStarted e \<Rightarrow> Inl (''query site-packages: '' @ e)
          | Exited ok out err \<Rightarrow>
              if \<not> ok then Inl (''query site-packages failed: '' @ trim err)
              else if trim out = [] then Inl ''empty site-packages path''
              else Inr (trim out), h))"

text \<open>The creation of the environment when its interpreter is missing.\<close>

definition create_venv :: "'h os \<Rightarrow> string \<Rightarrow> 'h \<Rightarrow> (string + unit) \<times> 'h" where
  "create_venv S base h =
     (let venv = venv_dir S;
          (err, h) = (case os_parent S venv of None \<Rightarrow> (None, h) | Some d \<Rightarrow> os_mkdir S d h)
      in case err of
           Some e \<Rightarrow> (Inl (''create data dir: '' @ e), h)
         | None \<Rightarrow>
             let (p, h) = os_spawn S False [base, ''-m'', ''venv'', venv] h
             in (run_ok ''create venv'' p, h))"

definition bootstrap :: "'h os \<Rightarrow> 'h \<Rightarrow> (string + py_env) \<times> 'h" where
  "bootstrap S h =
     (case base_python S h of
        (None, h) \<Rightarrow>
          (Inl (''no Python found: bundle missing and no system python3.10+ ''
             @ ''(tried python3.12 ... python3)''), h)
      | (Some base, h) \<Rightarrow>
          let venv_py = venv_python S (venv_dir S);
              (made, h) = (if os_exists S venv_py h then (Inr (), h) else create_venv S base h)
          in case made of
               Inl e \<Rightarrow> (Inl e, h)
             | Inr _ \<Rightarrow>
                 if \<not> os_exists S venv_py h then
                   (Inl (''venv python missing after creation: '' @ venv_py), h)
                 else
                   (case ensure_smolagents S venv_py h of
                      (Inl e, h) \<Rightarrow> (Inl e, h)
                    | (Inr _, h) \<Rightarrow>
                        (case query_site_packages S venv_py h of
                           (Inl e, h) \<Rightarrow> (Inl e, h)
                         | (Inr site, h) \<Rightarrow>
                             (Inr \<lparr>venv_interpreter = venv_py, site_packages = site\<rparr>, h))))"

section \<open>The cache\<close>

text \<open>The cell of the process: nothing yet, or the result of the first attempt.\<close>

type_synonym cell = "py_env option option"

definition get_env :: "'h os \<Rightarrow> cell \<times> 'h \<Rightarrow> py_env option \<times> (cell \<times> 'h)" where
  "get_env S s =
     (case s of
        (Some res, h) \<Rightarrow> (res, s)
      | (None, h) \<Rightarrow>
          let (made, h) = bootstrap S h; res = (case made of Inl e \<Rightarrow> None | Inr env \<Rightarrow> Some env)
          in (res, (Some res, h)))"

definition env_python :: "'h os \<Rightarrow> cell \<times> 'h \<Rightarrow> string option \<times> (cell \<times> 'h)" where
  "env_python S s = map_prod (map_option venv_interpreter) id (get_env S s)"

definition ensure_ready :: "'h os \<Rightarrow> cell \<times> 'h \<Rightarrow> (string + unit) \<times> (cell \<times> 'h)" where
  "ensure_ready S s =
     (case get_env S s of
        (Some env, s) \<Rightarrow> (Inr (), s)
      | (None, s) \<Rightarrow>
          (Inl ''Python environment unavailable (no bundled or system Python 3.10+)'', s))"

definition site_packages_if_ready :: "'h os \<Rightarrow> cell \<times> 'h \<Rightarrow> string option \<times> (cell \<times> 'h)" where
  "site_packages_if_ready S s =
     (case s of
        (Some (Some env), h) \<Rightarrow> (Some (site_packages env), s)
      | (c, h) \<Rightarrow>
          let venv_py = venv_python S (venv_dir S)
          in if os_exists S venv_py h then
               (let (res, h) = query_site_packages S venv_py h
                in (case res of Inl e \<Rightarrow> None | Inr site \<Rightarrow> Some site, (c, h)))
             else (None, s))"

section \<open>What a set-up establishes\<close>

text \<open>The result of the first attempt is final: later calls return it and touch nothing.\<close>

lemma get_env_cached:
  assumes "get_env S s = (res, s')"
  shows "get_env S s' = (res, s')"
  using assms by (auto simp: get_env_def case_prod_beta Let_def split: prod.splits option.splits)

lemma ensure_ready_cached: "fst (ensure_ready S s) = fst (ensure_ready S (snd (get_env S s)))"
  using get_env_cached [of S s "fst (get_env S s)" "snd (get_env S s)"]
  by (auto simp: ensure_ready_def split: prod.split option.split)

text \<open>A set-up that succeeds names the interpreter in the data directory and a path of packages
  that is not empty.\<close>

lemma query_nonempty: "query_site_packages S py h = (Inr site, h') \<Longrightarrow> site \<noteq> []"
  by (auto simp: query_site_packages_def case_prod_beta Let_def split: process_end.splits if_splits)

lemma bootstrap_env:
  assumes "bootstrap S h = (Inr env, h')"
  shows "venv_interpreter env = venv_python S (venv_dir S) \<and> site_packages env \<noteq> []"
  using assms
  by (auto simp: bootstrap_def Let_def dest: query_nonempty
      split: prod.splits option.splits sum.splits if_splits)

text \<open>The bundled interpreter comes first, then the system's candidates in their order, and only
  one that passes the check of its version.\<close>

lemma find_system_python_passes:
  assumes "find_system_python S cands h = (Some cand, h')"
  shows "cand \<in> set cands \<and> (\<exists>g. proc_ok (fst (os_spawn S False [cand, ''-c'', version_check] g))
    \<and> snd (os_spawn S False [cand, ''-c'', version_check] g) = h')"
  using assms
  by (induction cands arbitrary: h) (auto simp: case_prod_beta Let_def split: if_splits)

lemma base_python_bundle_first:
  assumes "bundled_python_dir S h = Some dir"
  shows "base_python S h = (Some (bundle_interpreter S dir), h)"
proof -
  have "os_exists S (bundle_interpreter S dir) h"
    using assms by (auto simp: bundled_python_dir_def find_Some_iff)
  with assms show ?thesis
    by (simp add: base_python_def)
qed


end
