(* ===== verification/Screen.thy ===== *)
theory Screen
  imports App
begin

text \<open>
  The windows of the desktop application (src/src/app.rs, src/src/app/payload_templates.rs): what
  each tab shows and which actions it offers, as functions of the state, and the runs of the user
  interface: a frame takes the pending events, draws the screen and runs the action of one of the
  widgets drawn.

  Sizes, colours and layout are left out; a screen is the list of its widgets in the order they
  are drawn. A part that can be folded or a list that pops up is shown open. An action takes effect
  when the frame is drawn, so its effect is seen in the next frame.
\<close>

section \<open>Widgets and actions\<close>

datatype field =
    ListenAddr | BootstrapInput | MyName | BalanceInput | NewCoordinatorInput | NewPeerInput
  | ProjectName | FundProject | FundAmount | DonateProject | DonateAmount
  | WorkerAmount project_id | TaskCode | TaskReward | BatchStart | BatchEnd | BatchChunk
  | SendTo | SendAmount | NewPackage

datatype slider = ReliabilitySlider | TicksSlider

datatype template = GpuPytorch | PrimeCheck | PrimeChunk

datatype action =
    SelectTab tab
  | ToggleLog
  | DoQuickDemo
  | DoDisconnect
  | ChooseMode node_mode
  | ChooseCoordinator string
  | NoEffect
  | AddCoordinator
  | AddPeerCoordinator
  | DoConnect
  | DoSendTokens
  | DoCreateProject
  | DoFund
  | DoDonate
  | DoWorkerDonate project_id
  | SetFilter task_filter
  | ChooseProject project_id
  | ChoosePayload payload_mode
  | UseTemplate template
  | DoSubmitTask
  | DoBatch
  | OpenTask task_id
  | CloseTask
  | DecryptResult task_view
  | DoExecutor
  | AddPackage
  | RemovePackage nat
  | ResetPackages
  | Edit field string
  | Slide slider nat

datatype widget =
    Text string
  | Button string action
  | Card action \<comment> \<open>the card whose texts precede it reacts to a click\<close>
  | Entry field string
  | Slider slider nat nat nat \<comment> \<open>value and range\<close>
  | Progress u64 u64 \<comment> \<open>a part and the total\<close>

text \<open>The actions a widget lets the user take.\<close>

fun offers :: "widget \<Rightarrow> action \<Rightarrow> bool" where
  "offers (Button s act) act' = (act' = act)"
| "offers (Card act) act' = (act' = act)"
| "offers (Entry f s) (Edit g s') = (g = f)"
| "offers (Slider sl v lo hi) (Slide sl' v') = (sl' = sl \<and> lo \<le> v' \<and> v' \<le> hi)"
| "offers _ _ = False"

subsection \<open>Texts\<close>

text \<open>A character as the bytes of its UTF-8 encoding.\<close>

definition uchar :: "nat \<Rightarrow> string" where
  "uchar n = map char_of
     (if n < 0x80 then [n]
      else if n < 0x800 then [0xC0 + n div 64, 0x80 + n mod 64]
      else if n < 0x10000 then [0xE0 + n div 4096, 0x80 + n div 64 mod 64, 0x80 + n mod 64]
      else [0xF0 + n div 262144, 0x80 + n div 4096 mod 64, 0x80 + n div 64 mod 64, 0x80 + n mod 64])"

definition emdash :: string where "emdash = uchar 0x2014"
definition right_arrow :: string where "right_arrow = uchar 0x2192"
definition star :: string where "star = uchar 0x2605"
definition scales :: string where "scales = uchar 0x2696"
definition bullet :: string where "bullet = uchar 0x25CF"
definition check_mark :: string where "check_mark = uchar 0x2713"
definition ballot_x :: string where "ballot_x = uchar 0x2717"
definition padlock :: string where "padlock = uchar 0x1F512"
definition warning_sign :: string where "warning_sign = uchar 0x26A0"

definition upper_char :: "char \<Rightarrow> char" where
  "upper_char c = (if 97 \<le> byte_of c \<and> byte_of c \<le> 122 then char_of (byte_of c - 32) else c)"

text \<open>The titles are ASCII.\<close>

definition section_header :: "string \<Rightarrow> widget" where
  "section_header title = Text (map upper_char title)"

definition show_nat :: "nat \<Rightarrow> string" where
  "show_nat n = digits_of 10 n"

definition short_id :: "u64 \<Rightarrow> string" where
  "short_id i = (if 8 < length (show_u64 i) then take 8 (show_u64 i) @ ellipsis else show_u64 i)"

definition mode_badge :: "node_mode \<Rightarrow> widget" where
  "mode_badge m = Text (case m of ModeCoordinator \<Rightarrow> ''Coordinator'' | ModeWorker \<Rightarrow> ''Worker''
     | ModePeer \<Rightarrow> ''P2P Peer'')"

definition text_lines :: "string list \<Rightarrow> string" where
  "text_lines ls = concat (map (\<lambda>l. l @ newline) ls)"

fun template_code :: "template \<Rightarrow> string" where
  "template_code GpuPytorch =
     text_lines [''import torch'', [],
       ''device = '' @ single_quoted ''cuda'' @ '' if torch.cuda.is_available() else ''
         @ single_quoted ''cpu'',
       ''print(f'' @ single_quoted ''device={device}'' @ '')'', [],
       ''a = torch.randn(512, 512, device=device)'',
       ''b = torch.randn(512, 512, device=device)'',
       ''c = torch.mm(a, b)'', [],
       ''checksum = float(c.sum().cpu())'',
       ''print(f'' @ single_quoted ''matmul_512x512_checksum={checksum:.4f}'' @ '')'']"
| "template_code PrimeCheck =
     text_lines [''N = 982451653  # change per task'', [],
       ''def is_prime(n):'', ''    if n < 2: return False'', ''    if n == 2: return True'',
       ''    if n % 2 == 0: return False'', ''    i = 3'', ''    while i * i <= n:'',
       ''        if n % i == 0: return False'', ''        i += 2'', ''    return True'', []]
     @ ''print(f'' @ [CHR 0x22] @ ''{N}:{'' @ single_quoted ''prime'' @ '' if is_prime(N) else ''
     @ single_quoted ''composite'' @ ''}'' @ [CHR 0x22] @ '')''"
| "template_code PrimeChunk =
     text_lines [''START = 2'', ''END = 1002  # exclusive - change per task'', [],
       ''primes = []'', ''for n in range(max(2, START), END):'',
       ''    ok = all(n % i != 0 for i in range(2, int(n**0.5)+1))'', ''    if ok:'',
       ''        primes.append(n)'']
     @ ''print('' @ single_quoted '','' @ ''.join(map(str, primes)) or '' @ single_quoted ''none'' @ '')''"

section \<open>The frame around the tabs\<close>

definition header_bar :: "app \<Rightarrow> widget list" where
  "header_bar a =
     [Text ''BOINC Quota'']
     @ (if connected a then [mode_badge (node_mode a)] else [])
     @ (case my_id a of None \<Rightarrow> [] | Some i \<Rightarrow> [Text (''ID: '' @ short_id i)])
     @ (if connected a
        then [Text (bullet @ '' Connected''), Text (star @ '' '' @ show_u64 (my_reputation a)),
              Text (scales @ '' '' @ show_u64 (my_balance a))]
        else [Text (bullet @ '' Disconnected'')])"

definition allowed_tabs :: "node_mode \<Rightarrow> tab list" where
  "allowed_tabs m =
     (case m of
        ModeCoordinator \<Rightarrow> [TabConnect, TabProjects, TabTasks, TabNetwork]
      | ModeWorker \<Rightarrow> [TabConnect, TabProjects, TabTasks, TabExecutor, TabNetwork]
      | ModePeer \<Rightarrow> [TabConnect, TabNetwork])"

definition redirect :: "app \<Rightarrow> app" where
  "redirect a =
     (if active_tab a \<in> set (allowed_tabs (node_mode a)) then a else a\<lparr>active_tab := TabConnect\<rparr>)"

definition tab_bar :: "node_mode \<Rightarrow> widget list" where
  "tab_bar m = map (\<lambda>(t, name). Button name (SelectTab t))
     (case m of
        ModeCoordinator \<Rightarrow>
          [(TabConnect, ''Connect''), (TabProjects, ''Projects''), (TabTasks, ''Tasks''),
           (TabNetwork, ''Network'')]
      | ModeWorker \<Rightarrow>
          [(TabConnect, ''Connect''), (TabProjects, ''Projects''), (TabTasks, ''Tasks''),
           (TabExecutor, ''Executor''), (TabNetwork, ''Network'')]
      | ModePeer \<Rightarrow> [(TabConnect, ''Connect''), (TabNetwork, ''Ledger'')])"

definition log_panel :: "app \<Rightarrow> widget list" where
  "log_panel a =
     (let n = length (log a); shown = drop (n - 50) (log a);
          mark = (if log_expanded a then uchar 0x25BE else uchar 0x25B8)
      in [Button (mark @ '' Log ('' @ show_nat n @ '')'') ToggleLog]
         @ (if log_expanded a then map Text shown
            else if shown = [] then [] else [Text (last shown)]))"

section \<open>The connection tab\<close>

definition p2p_controls :: "app \<Rightarrow> widget list" where
  "p2p_controls a =
     (case p2p a of
        None \<Rightarrow> []
      | Some p \<Rightarrow>
          [Text (''Peers: '' @ show_u64 (ps_peers p)), Text (''Validators: '' @ show_u64 (ps_validators p)),
           Text (''Mempool: '' @ show_u64 (ps_mempool p)), Text (''Blocks: '' @ show_u64 (ps_block_count p)),
           Text (if ps_valid p then check_mark @ '' chain valid'' else ballot_x @ '' chain invalid'')])
     @ (case my_id a of None \<Rightarrow> [] | Some i \<Rightarrow> [Text ''Your address:'', Text (show_u64 i)])
     @ [Text ''Send tokens'', Text ''To (addr):'', Entry SendTo (send_to_input a), Text ''Amount:'',
        Entry SendAmount (send_amount_input a), Button ''Submit transfer'' DoSendTokens]"

definition address_listbox :: "string list \<Rightarrow> (string \<Rightarrow> action) \<Rightarrow> widget list" where
  "address_listbox addrs act =
     (if addrs = [] then [Text (emdash @ '' none '' @ emdash)] else [])
     @ map (\<lambda>addr. Button addr (act addr)) addrs"

definition add_address_row :: "field \<Rightarrow> string \<Rightarrow> action \<Rightarrow> widget list" where
  "add_address_row f input act = [Entry f input, Button ''Add'' act]"

definition connection_controls :: "app \<Rightarrow> widget list" where
  "connection_controls a =
     [Text ''Status:'', mode_badge (node_mode a)]
     @ (if node_mode a = ModePeer then p2p_controls a else [])
     @ (if node_mode a \<noteq> ModePeer \<and> \<not> quick_demo_done a
        then [Button (uchar 0x26A1 @ '' Quick Demo Setup'') DoQuickDemo,
              Text ''Creates project #1, funds 50, submits Python task reward=20'']
        else [])
     @ [Button ''Disconnect'' DoDisconnect]"

definition connection_form :: "app \<Rightarrow> widget list" where
  "connection_form a =
     [Button ''Coordinator'' (ChooseMode ModeCoordinator), Button ''Worker'' (ChooseMode ModeWorker)]
     @ (case node_mode a of
          ModeCoordinator \<Rightarrow>
            [Text ''Listen address'', Entry ListenAddr (listen_addr a), Text ''Peer coordinators'']
            @ address_listbox (peer_coordinators a) (\<lambda>addr. NoEffect)
        | ModeWorker \<Rightarrow> Text ''Coordinators'' # address_listbox (coordinators a) ChooseCoordinator
        | ModePeer \<Rightarrow>
            [Text ''Listen address'', Entry ListenAddr (listen_addr a),
             Text ''Bootstrap peers (comma-separated, blank for first node)'',
             Entry BootstrapInput (bootstrap_input a)])
     @ [Text ''Your name'', Entry MyName (app_name a), Text ''Initial balance'',
        Entry BalanceInput (balance_input a)]
     @ (case node_mode a of
          ModeWorker \<Rightarrow> add_address_row NewCoordinatorInput (new_coordinator_input a) AddCoordinator
        | ModeCoordinator \<Rightarrow>
            add_address_row NewPeerInput (new_peer_coordinator_input a) AddPeerCoordinator
        | ModePeer \<Rightarrow> [])
     @ [Button ''Connect'' DoConnect]"

definition node_info :: "app \<Rightarrow> widget list" where
  "node_info a =
     [section_header ''Node Info'', Text ''Address:'',
      Text (case node_mode a of ModeCoordinator \<Rightarrow> listen_addr a | ModeWorker \<Rightarrow> coord_addr a
              | ModePeer \<Rightarrow> listen_addr a)]
     @ (case my_participant a of
          None \<Rightarrow> []
        | Some p \<Rightarrow>
            [Text ''Name:'', Text (pv_name p), Text ''Balance:'', Text (show_u64 (pv_balance p)),
             Text ''Reputation:'', Text (star @ '' '' @ show_u64 (pv_reputation p))])"

definition about_modes :: "widget list" where
  "about_modes =
     [section_header ''About Modes'', Text ''Coordinator'',
      Text ''Runs the server, manages the blockchain and task queue. Start this first.'',
      Text ''Worker'',
      Text ''Connects to a coordinator, picks up and executes tasks, earns rewards.'']"

definition connect_tab :: "app \<Rightarrow> widget list" where
  "connect_tab a =
     [Text ''Your Identity (Ed25519 signing key):'', Text (public_key_short a),
      Text (emdash @ '' stored in ~/.boinc-quota/identity.json''), Text ''X25519 encryption key:'',
      Text (encryption_short a), Text (emdash @ '' workers encrypt task results to this key''),
      section_header ''Connection'']
     @ (if connected a then connection_controls a @ node_info a
        else connection_form a @ about_modes)"

section \<open>The project tabs\<close>

definition not_connected :: "widget list" where
  "not_connected = [Text ''Not connected.'']"

definition number_form :: "string \<Rightarrow> field \<Rightarrow> string \<Rightarrow> field \<Rightarrow> string \<Rightarrow> string \<Rightarrow> action \<Rightarrow> widget list" where
  "number_form title f x g y name act =
     [section_header title, Text ''Project ID'', Entry f x, Text ''Amount'', Entry g y, Button name act]"

definition project_title :: "project_view \<Rightarrow> widget list" where
  "project_title p = [Text (prv_name p), Text (''#'' @ show_u64 (prv_id p))]"

definition project_card :: "project_view \<Rightarrow> widget list" where
  "project_card p =
     (let total = prv_available p + prv_locked p
      in project_title p
         @ [Text ''Available:'', Progress (prv_available p) total, Text (show_u64 (prv_available p)),
            Text ''Locked:  '', Progress (prv_locked p) total, Text (show_u64 (prv_locked p))])"

definition projects_header :: "app \<Rightarrow> widget" where
  "projects_header a =
     section_header (''Projects ('' @ show_nat (length (sn_projects (snapshot a))) @ '')'')"

definition coordinator_projects :: "app \<Rightarrow> widget list" where
  "coordinator_projects a =
     [section_header ''New Project'', Text ''Project name'', Entry ProjectName (new_project_name a),
      Button ''Create Project'' DoCreateProject]
     @ number_form ''Fund Project'' FundProject (fund_project_id a) FundAmount (fund_amount a) ''Fund'' DoFund
     @ number_form ''Donate Quota'' DonateProject (donate_project_id a) DonateAmount (donate_amount a)
         ''Donate'' DoDonate
     @ [projects_header a]
     @ (if sn_projects (snapshot a) = [] then [Text ''No projects yet.'']
        else concat (map project_card (sn_projects (snapshot a))))"

definition donate_row :: "app \<Rightarrow> project_view \<Rightarrow> widget list" where
  "donate_row a p =
     project_title p
     @ [Text ''Available:'', Progress (prv_available p) (prv_available p + prv_locked p),
        Text (show_u64 (prv_available p)),
        Entry (WorkerAmount (prv_id p))
          (case hm_get (worker_donate_amounts a) (prv_id p) of None \<Rightarrow> [] | Some s \<Rightarrow> s),
        Button ''Donate'' (DoWorkerDonate (prv_id p))]"

definition worker_projects :: "app \<Rightarrow> widget list" where
  "worker_projects a =
     [projects_header a, Text (''Balance: '' @ show_u64 (my_balance a))]
     @ (if sn_projects (snapshot a) = [] then [Text ''No projects yet.'']
        else concat (map (donate_row a) (sn_projects (snapshot a))))"

text \<open>Drawing an amount creates its entry in the map.\<close>

definition open_amounts :: "app \<Rightarrow> app" where
  "open_amounts a =
     a\<lparr>worker_donate_amounts :=
         fold (\<lambda>p m. if hm_has m (prv_id p) then m else hm_insert (prv_id p) [] m)
           (sn_projects (snapshot a)) (worker_donate_amounts a)\<rparr>"

definition projects_tab :: "app \<Rightarrow> widget list \<times> app" where
  "projects_tab a =
     (if \<not> connected a then (not_connected, a)
      else if node_mode a = ModeWorker then (worker_projects a, open_amounts a)
      else (coordinator_projects a, a))"

section \<open>The task tabs\<close>

text \<open>The packages used for drawing: the cryptography, the standard library's handling of text,
  and the identity in the default file.\<close>

record gui =
  gui_crypto :: crypto
  gui_lossy :: "bytes \<Rightarrow> string" \<comment> \<open>\<open>from_utf8_lossy\<close>\<close>
  gui_lower :: "string \<Rightarrow> string" \<comment> \<open>\<open>to_lowercase\<close>\<close>
  gui_identity :: identity

definition filter_bar :: "widget list" where
  "filter_bar =
     [Button ''All'' (SetFilter FilterAll), Button ''Pending'' (SetFilter FilterPending),
      Button ''Assigned'' (SetFilter FilterAssigned), Button ''Completed'' (SetFilter FilterCompleted),
      Button ''Quota'' (SetFilter FilterQuota), Button ''Rejected'' (SetFilter FilterRejected)]"

definition project_label :: "project_view \<Rightarrow> string" where
  "project_label p = ''#'' @ show_u64 (prv_id p) @ '' '' @ prv_name p"

definition selected_project_label :: "app \<Rightarrow> string" where
  "selected_project_label a =
     (case Option.bind (task_project_selected a)
             (\<lambda>i. find (\<lambda>p. prv_id p = i) (sn_projects (snapshot a))) of
        Some p \<Rightarrow> project_label p
      | None \<Rightarrow> if task_project_id a = [] then emdash @ '' select '' @ emdash
                else ''#'' @ task_project_id a)"

definition submit_form :: "app \<Rightarrow> widget list" where
  "submit_form a =
     (let is_gpu = (task_payload_mode a = GpuMode)
      in [section_header ''Submit Task'', Text ''Project'', Text (selected_project_label a)]
         @ map (\<lambda>p. Button (project_label p) (ChooseProject (prv_id p))) (sn_projects (snapshot a))
         @ [Text ''Payload type'', Button ''Python'' (ChoosePayload PythonMode),
            Button ''GPU'' (ChoosePayload GpuMode)]
         @ (if is_gpu then [Text ''GPU mode: runs in pytorch Docker with --gpus all''] else [])
         @ [Text ''Python code'', Entry TaskCode (task_code a)]
         @ (if \<not> is_gpu then [Button ''Prime check'' (UseTemplate PrimeCheck),
                             Button ''Prime chunk'' (UseTemplate PrimeChunk)]
            else [Button ''PyTorch matmul'' (UseTemplate GpuPytorch)])
         @ [Text (''Will encode '' @ show_nat (length (task_code a)) @ '' bytes with base64''),
            Text ''Reward'', Entry TaskReward (task_reward a), Button ''Submit Task'' DoSubmitTask])"

definition batch_form :: "app \<Rightarrow> widget list" where
  "batch_form a =
     [Text ''Batch Submit (Prime Sieve)'', Text ''Splits range into chunks, one task per chunk.'',
      Text ''Start'', Entry BatchStart (batch_range_start a), Text ''End'',
      Entry BatchEnd (batch_range_end a), Text ''Chunk size'', Entry BatchChunk (batch_chunk_size a),
      Button ''Batch Submit'' DoBatch]"

text \<open>The first line of a result, of at most 60 characters.\<close>

definition result_line :: "string \<Rightarrow> string" where
  "result_line s = (case lines_of s of [] \<Rightarrow> [] | l # ls \<Rightarrow> concat (take 60 (chars_of l)))"

definition has_outcome :: "task_view \<Rightarrow> bool" where
  "has_outcome t \<longleftrightarrow> starts_with ''Done'' (tkv_label t) \<or> tkv_label t = ''Quota exhausted''"

definition task_card :: "task_view \<Rightarrow> string \<Rightarrow> string option \<Rightarrow> widget list" where
  "task_card t preview result =
     [Text (tkv_label t), Text (''Task #'' @ show_u64 (tkv_id t)),
      Text (right_arrow @ '' Project #'' @ show_u64 (tkv_project t))]
     @ (if tkv_has_result t then [Text padlock] else [])
     @ [Text (scales @ '' '' @ show_u64 (tkv_reward t)), Text preview, Text ''Result:'',
        Text (case result of
                Some s \<Rightarrow> s
              | None \<Rightarrow> if tkv_has_result t then padlock else emdash),
        Card (OpenTask (tkv_id t))]"

text \<open>Drawing the list decrypts the results of the own projects and keeps them; a preview that cuts
  a character is a panic, here None.\<close>

fun task_list :: "gui \<Rightarrow> task_view list \<Rightarrow> app \<Rightarrow> (widget list \<times> app) option" where
  "task_list G [] a = Some ([], a)"
| "task_list G (t # ts) a =
     (let (result, a) =
            (if has_outcome t
             then map_prod (map_option result_line) id
                    (decrypt_task_result (gui_crypto G) (gui_lossy G) (gui_identity G) t a)
             else (None, a))
      in case list_preview t of
           None \<Rightarrow> None
         | Some preview \<Rightarrow>
             map_option (map_prod (\<lambda>ws. task_card t preview result @ ws) id) (task_list G ts a))"

definition owns_task :: "app \<Rightarrow> task_view \<Rightarrow> bool" where
  "owns_task a t =
     (let owner = map_option prv_owner (find (\<lambda>p. prv_id p = tkv_project t) (sn_projects (snapshot a)))
      in owner \<noteq> None \<and> owner = my_id a)"

definition task_details :: "app \<Rightarrow> task_view \<Rightarrow> string \<Rightarrow> widget list" where
  "task_details a t preview =
     [Text (''Task #'' @ show_u64 (tkv_id t) @ '' details''), Button ''close'' CloseTask,
      Text (''Status: '' @ tkv_label t),
      Text (''Project: #'' @ show_u64 (tkv_project t) @ ''  Reward: '' @ show_u64 (tkv_reward t)),
      Text ''Payload:'', Text preview]
     @ (if tkv_has_result t then
          [Text (padlock @ '' Encrypted result available''),
           if owns_task a t then Button ''Decrypt result'' (DecryptResult t)
           else Text ''Only the project owner can decrypt this result.'']
          @ (case decrypt_error a of None \<Rightarrow> [] | Some err \<Rightarrow> [Text (''Decrypt error: '' @ err)])
          @ (case decrypted_content a of None \<Rightarrow> [] | Some s \<Rightarrow> [Text ''Plaintext:'', Text s])
        else [Text ''No encrypted result attached.''])"

definition detail_panel :: "app \<Rightarrow> widget list option" where
  "detail_panel a =
     (case Option.bind (selected_task a) (\<lambda>i. find (\<lambda>t. tkv_id t = i) (sn_tasks (snapshot a))) of
        None \<Rightarrow> Some []
      | Some t \<Rightarrow> map_option (task_details a t) (detail_preview t))"

definition coordinator_tasks :: "gui \<Rightarrow> app \<Rightarrow> (widget list \<times> app) option" where
  "coordinator_tasks G a =
     (let tasks = filtered_tasks a;
          forms = filter_bar @ submit_form a @ batch_form a
                  @ [section_header (''Tasks ('' @ show_nat (length tasks) @ '')'')]
      in case task_list G tasks a of
           None \<Rightarrow> None
         | Some (cards, a) \<Rightarrow>
             map_option (\<lambda>panel.
                 (forms @ (if tasks = [] then [Text ''No tasks match filter.''] else cards) @ panel, a))
               (detail_panel a))"

definition worker_task_card :: "task_view \<Rightarrow> widget list" where
  "worker_task_card t =
     [Text (tkv_label t), Text (''Task #'' @ show_u64 (tkv_id t)),
      Text (''Project #'' @ show_u64 (tkv_project t)), Text (''Reward '' @ show_u64 (tkv_reward t)),
      Text (payload_preview (tkv_payload t) 180)]"

definition worker_tasks_tab :: "app \<Rightarrow> widget list" where
  "worker_tasks_tab a =
     (let tasks = worker_tasks a
      in section_header (''Worker Tasks ('' @ show_nat (active_worker_tasks a) @ '' active / ''
             @ show_nat (length tasks) @ '' total)'')
         # (if tasks = [] then
              [Text ''No tasks are currently assigned to this worker.'',
               Text ''The executor picks up pending work automatically while it is running.'']
            else concat (map worker_task_card tasks)))"

definition tasks_tab :: "gui \<Rightarrow> app \<Rightarrow> (widget list \<times> app) option" where
  "tasks_tab G a =
     (if \<not> connected a then Some (not_connected, a)
      else if node_mode a = ModeWorker then Some (worker_tasks_tab a, a)
      else coordinator_tasks G a)"

section \<open>The executor and package tabs\<close>

text \<open>The last eight lines of the log about the executor.\<close>

definition executor_lines :: "gui \<Rightarrow> app \<Rightarrow> string list" where
  "executor_lines G a =
     rev (take 8 (filter (\<lambda>l. let low = gui_lower G l in str_contains ''executor'' low
         \<or> str_contains ''tick'' low \<or> str_contains ''task'' low) (rev (log a))))"

text \<open>The slider works on 32 bits of the number of ticks and stores them back.\<close>

definition executor_tab :: "gui \<Rightarrow> app \<Rightarrow> widget list \<times> app" where
  "executor_tab G a =
     (if \<not> connected a then (not_connected, a)
      else
        let val = (ucast (exec_compute_ticks a) :: 32 word)
        in ([Text (uchar 0x2139 @ '' Workers start executor automatically after connecting. ''
                @ ''Coordinators can still run one manually for local validation.''),
             section_header ''Execution Controls'', Text ''Reliability:'',
             Slider ReliabilitySlider (unat (exec_reliability a)) 0 100, Text ''Compute ticks:'',
             Slider TicksSlider (unat val) 1 20]
            @ (if executor_running a then [Text (bullet @ '' Executor running'')] else [])
            @ [Button (if executor_running a then uchar 0x25A0 @ '' Stop Executor''
                       else uchar 0x25B6 @ '' Start Executor'') DoExecutor,
               section_header ''Status'']
            @ (if executor_lines G a = [] then [Text ''No executor activity yet.'']
               else map Text (executor_lines G a)),
            a\<lparr>exec_compute_ticks := ucast val\<rparr>))"

definition packages_tab :: "app \<Rightarrow> widget list" where
  "packages_tab a =
     [Text (uchar 0x2139 @ '' These are additional imports allowed in the isolated interpreter, on top ''
        @ ''of a safe stdlib baseline (math, random, datetime, collections, re, '' @ ellipsis
        @ ''). Submodule access (e.g. random._os) is always blocked. Changes apply when you ''
        @ ''(re)start the executor.''),
      section_header ''Add Package'', Entry NewPackage (exec_new_package_input a),
      Button ''+ Add'' AddPackage, section_header ''Allowed Packages'',
      Button ''Reset to defaults'' ResetPackages]
     @ (if exec_allowed_packages a = []
        then [Text (''No additional packages '' @ emdash @ '' only the safe stdlib baseline is importable.'')]
        else concat (map (\<lambda>(i, pkg). [Button (uchar 0x2715) (RemovePackage i), Text pkg])
               (enumerate 0 (exec_allowed_packages a))))
     @ (if executor_running a
        then [Text (warning_sign @ '' Executor is running '' @ emdash
                @ '' restart it to apply allowlist changes.'')] else [])"

section \<open>The network tab\<close>

definition total_balance :: "app \<Rightarrow> u64" where
  "total_balance a = sum_list (map pv_balance (sn_participants (snapshot a)))"

text \<open>\<open>max_by_key\<close> yields the last of several greatest elements.\<close>

definition top_rep :: "app \<Rightarrow> participant_view option" where
  "top_rep a = fold (\<lambda>p best. case best of
       None \<Rightarrow> Some p
     | Some q \<Rightarrow> if pv_reputation q \<le> pv_reputation p then Some p else Some q)
     (sn_participants (snapshot a)) None"

definition participant_row :: "app \<Rightarrow> participant_view \<Rightarrow> widget list" where
  "participant_row a p =
     [Text (if my_id a = Some (pv_id p) then pv_name p @ '' (me)'' else pv_name p),
      Text (short_id (pv_id p)), Text (show_u64 (pv_balance p)),
      Text (star @ '' '' @ show_u64 (pv_reputation p))]"

definition block_row :: "block_view \<Rightarrow> widget list option" where
  "block_row b =
     map_option (\<lambda>short_hash.
         [Text (''#'' @ show_u64 (bv_index b)), Text (''tick '' @ show_u64 (bv_tick b)), Text short_hash,
          Text (show_nat (length (bv_transactions b)) @ '' tx'')]
         @ map (Text \<circ> transaction_text) (bv_transactions b))
       (slice_to (bv_hash b) (min (length (bv_hash b)) 12))"

fun block_rows :: "block_view list \<Rightarrow> widget list option" where
  "block_rows [] = Some []"
| "block_rows (b # bs) =
     Option.bind (block_row b) (\<lambda>row. map_option (\<lambda>rows. row @ rows) (block_rows bs))"

definition network_tab :: "app \<Rightarrow> widget list option" where
  "network_tab a =
     (if \<not> connected a then Some not_connected
      else
        let s = snapshot a; ps = sn_participants s
        in map_option (\<lambda>rows.
             [Text ''Participants'', Text (show_nat (length ps)), Text ''Total Balance'',
              Text (show_u64 (total_balance a)), Text ''Blockchain'',
              Text (if sn_valid s then check_mark else ballot_x),
              Text (show_u64 (sn_block_count s) @ '' blocks''), Text ''Top Rep'']
             @ (case top_rep a of
                  Some p \<Rightarrow> [Text (pv_name p), Text (star @ '' '' @ show_u64 (pv_reputation p))]
                | None \<Rightarrow> [Text emdash])
             @ [section_header (''Participants ('' @ show_nat (length ps) @ '')''), Text ''Name'',
                Text ''ID'', Text ''Balance'', Text ''Rep'']
             @ concat (map (participant_row a) ps)
             @ [section_header (''Blocks ('' @ show_nat (length (sn_blocks s)) @ '')'')] @ rows)
           (block_rows (rev (sn_blocks s))))"

section \<open>Frames\<close>

definition central_panel :: "gui \<Rightarrow> app \<Rightarrow> (widget list \<times> app) option" where
  "central_panel G a =
     (case active_tab a of
        TabConnect \<Rightarrow> Some (connect_tab a, a)
      | TabProjects \<Rightarrow> Some (projects_tab a)
      | TabTasks \<Rightarrow> tasks_tab G a
      | TabExecutor \<Rightarrow> Some (executor_tab G a)
      | TabPackages \<Rightarrow> Some (packages_tab a, a)
      | TabNetwork \<Rightarrow> map_option (\<lambda>ws. (ws, a)) (network_tab a))"

text \<open>One frame: the pending events, the redirection, and the screen. None is a panic.\<close>

definition frame :: "gui \<Rightarrow> app_event list \<Rightarrow> app \<Rightarrow> (widget list \<times> app) option" where
  "frame G evs a =
     (let a = drain_events evs a; top = header_bar a; a = redirect a;
          bars = top @ tab_bar (node_mode a) @ log_panel a
      in map_option (map_prod (\<lambda>ws. bars @ ws) id) (central_panel G a))"

fun set_field :: "field \<Rightarrow> string \<Rightarrow> app \<Rightarrow> app" where
  "set_field ListenAddr s a = a\<lparr>listen_addr := s\<rparr>"
| "set_field BootstrapInput s a = a\<lparr>bootstrap_input := s\<rparr>"
| "set_field MyName s a = a\<lparr>app_name := s\<rparr>"
| "set_field BalanceInput s a = a\<lparr>balance_input := s\<rparr>"
| "set_field NewCoordinatorInput s a = a\<lparr>new_coordinator_input := s\<rparr>"
| "set_field NewPeerInput s a = a\<lparr>new_peer_coordinator_input := s\<rparr>"
| "set_field ProjectName s a = a\<lparr>new_project_name := s\<rparr>"
| "set_field FundProject s a = a\<lparr>fund_project_id := s\<rparr>"
| "set_field FundAmount s a = a\<lparr>fund_amount := s\<rparr>"
| "set_field DonateProject s a = a\<lparr>donate_project_id := s\<rparr>"
| "set_field DonateAmount s a = a\<lparr>donate_amount := s\<rparr>"
| "set_field (WorkerAmount pid) s a =
     a\<lparr>worker_donate_amounts := hm_insert pid s (worker_donate_amounts a)\<rparr>"
| "set_field TaskCode s a = a\<lparr>task_code := s\<rparr>"
| "set_field TaskReward s a = a\<lparr>task_reward := s\<rparr>"
| "set_field BatchStart s a = a\<lparr>batch_range_start := s\<rparr>"
| "set_field BatchEnd s a = a\<lparr>batch_range_end := s\<rparr>"
| "set_field BatchChunk s a = a\<lparr>batch_chunk_size := s\<rparr>"
| "set_field SendTo s a = a\<lparr>send_to_input := s\<rparr>"
| "set_field SendAmount s a = a\<lparr>send_amount_input := s\<rparr>"
| "set_field NewPackage s a = a\<lparr>exec_new_package_input := s\<rparr>"

definition close_details :: "task_id option \<Rightarrow> app \<Rightarrow> app" where
  "close_details sel a = a\<lparr>selected_task := sel, decrypted_content := None, decrypt_error := None\<rparr>"

definition decrypt_clicked :: "gui \<Rightarrow> task_view \<Rightarrow> app \<Rightarrow> app" where
  "decrypt_clicked G t a =
     (case tkv_result t of
        None \<Rightarrow> a\<lparr>decrypt_error := Some ''no encrypted blob attached''\<rparr>
      | Some blob \<Rightarrow>
          (case decrypt_blob (gui_crypto G) (gui_identity G) blob of
             Inr bs \<Rightarrow> a\<lparr>decrypted_content := Some (gui_lossy G bs), decrypt_error := None\<rparr>
           | Inl InvalidKey \<Rightarrow> a\<lparr>decrypt_error := Some ''InvalidKey'', decrypted_content := None\<rparr>
           | Inl Decrypt \<Rightarrow> a\<lparr>decrypt_error := Some ''Decrypt'', decrypted_content := None\<rparr>))"

text \<open>What an action does. Only a batch may run forever.\<close>

fun perform :: "gui \<Rightarrow> action \<Rightarrow> app \<Rightarrow> click option" where
  "perform G (SelectTab t) a = Some ([], a\<lparr>active_tab := t\<rparr>)"
| "perform G ToggleLog a = Some ([], a\<lparr>log_expanded := \<not> log_expanded a\<rparr>)"
| "perform G DoQuickDemo a = Some (quick_demo_clicked (gui_crypto G) a)"
| "perform G DoDisconnect a = Some ([Disconnect], a)"
| "perform G (ChooseMode m) a = Some ([], a\<lparr>node_mode := m\<rparr>)"
| "perform G (ChooseCoordinator addr) a = Some ([], a\<lparr>coord_addr := addr\<rparr>)"
| "perform G NoEffect a = Some ([], a)"
| "perform G AddCoordinator a =
     (let (addrs, input, sel) =
            add_address (coordinators a) (new_coordinator_input a) (Some (coord_addr a))
      in Some ([], a\<lparr>coordinators := addrs, new_coordinator_input := input, coord_addr := the sel\<rparr>))"
| "perform G AddPeerCoordinator a =
     (let (addrs, input, sel) = add_address (peer_coordinators a) (new_peer_coordinator_input a) None
      in Some ([], a\<lparr>peer_coordinators := addrs, new_peer_coordinator_input := input\<rparr>))"
| "perform G DoConnect a = Some (connect_clicked a)"
| "perform G DoSendTokens a = Some (send_tokens_clicked a)"
| "perform G DoCreateProject a = Some (create_project_clicked a)"
| "perform G DoFund a = Some (fund_clicked a)"
| "perform G DoDonate a = Some (donate_clicked a)"
| "perform G (DoWorkerDonate pid) a = Some (worker_donate_clicked pid a)"
| "perform G (SetFilter f) a = Some ([], a\<lparr>task_filter := f\<rparr>)"
| "perform G (ChooseProject pid) a =
     Some ([], a\<lparr>task_project_selected := Some pid, task_project_id := show_u64 pid\<rparr>)"
| "perform G (ChoosePayload m) a = Some ([], a\<lparr>task_payload_mode := m\<rparr>)"
| "perform G (UseTemplate tp) a = Some ([], a\<lparr>task_code := template_code tp\<rparr>)"
| "perform G DoSubmitTask a = Some (submit_task_clicked (gui_crypto G) a)"
| "perform G DoBatch a = batch_clicked (gui_crypto G) a"
| "perform G (OpenTask tid) a = Some ([], close_details (Some tid) a)"
| "perform G CloseTask a = Some ([], close_details None a)"
| "perform G (DecryptResult t) a = Some ([], decrypt_clicked G t a)"
| "perform G DoExecutor a = Some (executor_clicked a)"
| "perform G AddPackage a = Some ([], add_package_clicked a)"
| "perform G (RemovePackage i) a = Some ([], remove_package_clicked i a)"
| "perform G ResetPackages a = Some ([], reset_packages_clicked a)"
| "perform G (Edit f s) a = Some ([], set_field f s a)"
| "perform G (Slide ReliabilitySlider v) a = Some ([], a\<lparr>exec_reliability := of_nat v\<rparr>)"
| "perform G (Slide TicksSlider v) a = Some ([], a\<lparr>exec_compute_ticks := of_nat v\<rparr>)"

text \<open>Runs of the user interface: frames in which nothing is done, and frames with an action. The
  last argument of a step is the commands it offers to the node.\<close>

inductive gui_step :: "gui \<Rightarrow> app \<Rightarrow> app_command list \<Rightarrow> app \<Rightarrow> bool" for G where
  idle: "frame G evs a = Some (ws, b) \<Longrightarrow> gui_step G a [] b"
| acts: "frame G evs a = Some (ws, b) \<Longrightarrow> w \<in> set ws \<Longrightarrow> offers w act \<Longrightarrow>
    perform G act b = Some (cmds, c) \<Longrightarrow> gui_step G a cmds c"

inductive gui_reaches :: "gui \<Rightarrow> identity \<Rightarrow> app \<Rightarrow> bool" for G i where
  opens: "gui_reaches G i (app_new (gui_crypto G) i)"
| steps: "gui_reaches G i a \<Longrightarrow> gui_step G a cmds b \<Longrightarrow> gui_reaches G i b"

section \<open>What a screen offers\<close>

definition shows_act :: "action \<Rightarrow> widget list \<Rightarrow> bool" where
  "shows_act act ws \<longleftrightarrow> (\<exists>w\<in>set ws. offers w act)"

lemma shows_act_simps [simp]:
  "\<not> shows_act act []" "shows_act act (w # ws) \<longleftrightarrow> offers w act \<or> shows_act act ws"
  "shows_act act (ws @ vs) \<longleftrightarrow> shows_act act ws \<or> shows_act act vs"
  "shows_act act (concat (map f xs)) \<longleftrightarrow> (\<exists>x\<in>set xs. shows_act act (f x))"
  "shows_act act (map g xs) \<longleftrightarrow> (\<exists>x\<in>set xs. offers (g x) act)"
  "shows_act act (if c then ws else vs) \<longleftrightarrow> (if c then shows_act act ws else shows_act act vs)"
  by (auto simp: shows_act_def)

lemma offers_simps [simp]:
  "\<not> offers (Text s) act" "\<not> offers (Progress x y) act" "offers (Button s act') act \<longleftrightarrow> act = act'"
  "offers (Card act') act \<longleftrightarrow> act = act'" "offers (Entry f s) act \<longleftrightarrow> (\<exists>s'. act = Edit f s')"
  "offers (Slider sl v lo hi) act \<longleftrightarrow> (\<exists>v'. act = Slide sl v' \<and> lo \<le> v' \<and> v' \<le> hi)"
  "\<not> offers (section_header s) act" "\<not> offers (mode_badge m) act" "\<not> offers (projects_header a) act"
  by (cases act; simp add: section_header_def mode_badge_def projects_header_def)+

text \<open>The actions the user can take in a state, tab by tab.\<close>

fun field_open :: "app \<Rightarrow> field \<Rightarrow> bool" where
  "field_open a f \<longleftrightarrow>
     (case active_tab a of
        TabConnect \<Rightarrow>
          if connected a then node_mode a = ModePeer \<and> f \<in> {SendTo, SendAmount}
          else f \<in> {MyName, BalanceInput}
            \<or> node_mode a = ModeCoordinator \<and> f \<in> {ListenAddr, NewPeerInput}
            \<or> node_mode a = ModeWorker \<and> f = NewCoordinatorInput
            \<or> node_mode a = ModePeer \<and> f \<in> {ListenAddr, BootstrapInput}
      | TabProjects \<Rightarrow> connected a
          \<and> (if node_mode a = ModeWorker
              then f \<in> (\<lambda>p. WorkerAmount (prv_id p)) ` set (sn_projects (snapshot a))
              else f \<in> {ProjectName, FundProject, FundAmount, DonateProject, DonateAmount})
      | TabTasks \<Rightarrow> connected a \<and> node_mode a \<noteq> ModeWorker
          \<and> f \<in> {TaskCode, TaskReward, BatchStart, BatchEnd, BatchChunk}
      | TabPackages \<Rightarrow> f = NewPackage
      | _ \<Rightarrow> False)"

fun offered :: "app \<Rightarrow> action \<Rightarrow> bool" where
  "offered a (SelectTab t) = (t \<in> set (allowed_tabs (node_mode a)))"
| "offered a ToggleLog = True"
| "offered a DoQuickDemo = (active_tab a = TabConnect \<and> connected a \<and> node_mode a \<noteq> ModePeer
     \<and> \<not> quick_demo_done a)"
| "offered a DoDisconnect = (active_tab a = TabConnect \<and> connected a)"
| "offered a (ChooseMode m) = (active_tab a = TabConnect \<and> \<not> connected a
     \<and> m \<in> {ModeCoordinator, ModeWorker})"
| "offered a (ChooseCoordinator addr) = (active_tab a = TabConnect \<and> \<not> connected a
     \<and> node_mode a = ModeWorker \<and> addr \<in> set (coordinators a))"
| "offered a NoEffect = (active_tab a = TabConnect \<and> \<not> connected a \<and> node_mode a = ModeCoordinator
     \<and> peer_coordinators a \<noteq> [])"
| "offered a AddCoordinator = (active_tab a = TabConnect \<and> \<not> connected a \<and> node_mode a = ModeWorker)"
| "offered a AddPeerCoordinator =
     (active_tab a = TabConnect \<and> \<not> connected a \<and> node_mode a = ModeCoordinator)"
| "offered a DoConnect = (active_tab a = TabConnect \<and> \<not> connected a)"
| "offered a DoSendTokens = (active_tab a = TabConnect \<and> connected a \<and> node_mode a = ModePeer)"
| "offered a (DoWorkerDonate pid) = (active_tab a = TabProjects \<and> connected a
     \<and> node_mode a = ModeWorker \<and> pid \<in> prv_id ` set (sn_projects (snapshot a)))"
| "offered a (ChooseProject pid) = (active_tab a = TabTasks \<and> connected a
     \<and> node_mode a \<noteq> ModeWorker \<and> pid \<in> prv_id ` set (sn_projects (snapshot a)))"
| "offered a (UseTemplate tp) = (active_tab a = TabTasks \<and> connected a \<and> node_mode a \<noteq> ModeWorker
     \<and> (tp = GpuPytorch \<longleftrightarrow> task_payload_mode a = GpuMode))"
| "offered a (OpenTask tid) = (active_tab a = TabTasks \<and> connected a \<and> node_mode a \<noteq> ModeWorker
     \<and> tid \<in> tkv_id ` set (filtered_tasks a))"
| "offered a CloseTask = (active_tab a = TabTasks \<and> connected a \<and> node_mode a \<noteq> ModeWorker
     \<and> (\<exists>i. selected_task a = Some i \<and> i \<in> tkv_id ` set (sn_tasks (snapshot a))))"
| "offered a (DecryptResult t) = (active_tab a = TabTasks \<and> connected a \<and> node_mode a \<noteq> ModeWorker
     \<and> Option.bind (selected_task a) (\<lambda>i. find (\<lambda>t. tkv_id t = i) (sn_tasks (snapshot a))) = Some t
     \<and> tkv_has_result t \<and> owns_task a t)"
| "offered a DoExecutor = (active_tab a = TabExecutor \<and> connected a)"
| "offered a AddPackage = (active_tab a = TabPackages)"
| "offered a (RemovePackage i) = (active_tab a = TabPackages \<and> i < length (exec_allowed_packages a))"
| "offered a ResetPackages = (active_tab a = TabPackages)"
| "offered a (Edit f s) = field_open a f"
| "offered a (Slide sl v) = (active_tab a = TabExecutor \<and> connected a
     \<and> (case sl of ReliabilitySlider \<Rightarrow> v \<le> 100 | TicksSlider \<Rightarrow> 1 \<le> v \<and> v \<le> 20))"
| "offered a (ChoosePayload m) = (active_tab a = TabTasks \<and> connected a \<and> node_mode a \<noteq> ModeWorker)"
| "offered a (SetFilter f) = (active_tab a = TabTasks \<and> connected a \<and> node_mode a \<noteq> ModeWorker)"
| "offered a DoSubmitTask = (active_tab a = TabTasks \<and> connected a \<and> node_mode a \<noteq> ModeWorker)"
| "offered a DoBatch = (active_tab a = TabTasks \<and> connected a \<and> node_mode a \<noteq> ModeWorker)"
| "offered a _ = (active_tab a = TabProjects \<and> connected a \<and> node_mode a \<noteq> ModeWorker)"

lemma shows_header: "\<not> shows_act act (header_bar a)"
  by (simp add: header_bar_def split: option.split)

lemma shows_tabs: "shows_act act (tab_bar m) \<longleftrightarrow> (\<exists>t\<in>set (allowed_tabs m). act = SelectTab t)"
  by (auto simp: tab_bar_def allowed_tabs_def split: node_mode.split)

lemma shows_log: "shows_act act (log_panel a) \<longleftrightarrow> act = ToggleLog"
  by (auto simp: log_panel_def Let_def)

lemma shows_connect:
  assumes "active_tab a = TabConnect"
  shows "shows_act act (connect_tab a) \<longleftrightarrow>
    offered a act \<and> act \<noteq> ToggleLog \<and> \<not> (\<exists>t. act = SelectTab t)"
  using assms
  by (cases act; cases "node_mode a") (auto simp: connect_tab_def connection_controls_def connection_form_def node_info_def
      about_modes_def p2p_controls_def address_listbox_def add_address_row_def split: option.splits)

lemma shows_projects:
  assumes "active_tab a = TabProjects"
  shows "shows_act act (fst (projects_tab a)) \<longleftrightarrow>
    offered a act \<and> act \<noteq> ToggleLog \<and> \<not> (\<exists>t. act = SelectTab t)"
  using assms
  by (cases act; cases "node_mode a = ModeWorker")
    (auto simp: projects_tab_def not_connected_def worker_projects_def coordinator_projects_def
      number_form_def project_card_def project_title_def donate_row_def Let_def)

lemma shows_texts [simp]:
  "\<not> shows_act act (worker_tasks_tab a)" "\<not> shows_act act not_connected"
  by (simp_all add: worker_tasks_tab_def worker_task_card_def not_connected_def Let_def)

lemma shows_executor:
  assumes "active_tab a = TabExecutor"
  shows "shows_act act (fst (executor_tab G a)) \<longleftrightarrow>
    offered a act \<and> act \<noteq> ToggleLog \<and> \<not> (\<exists>t. act = SelectTab t)"
  using assms
  by (cases act) (auto simp: executor_tab_def Let_def split: slider.splits)

lemma shows_packages:
  assumes "active_tab a = TabPackages"
  shows "shows_act act (packages_tab a) \<longleftrightarrow>
    offered a act \<and> act \<noteq> ToggleLog \<and> \<not> (\<exists>t. act = SelectTab t)"
proof -
  have "fst ` set (enumerate 0 xs) = {..<length xs}" for xs :: "string list"
    by (simp only: set_map [symmetric] map_fst_enumerate) (simp add: lessThan_atLeast0)
  then have rows: "(\<exists>x\<in>set (enumerate 0 xs). P (fst x)) \<longleftrightarrow> (\<exists>i<length xs. P i)"
    for P and xs :: "string list"
    by (metis imageE imageI lessThan_iff)
  show ?thesis
    using assms by (cases act) (auto simp: packages_tab_def case_prod_beta rows)
qed

lemma shows_blocks: "block_rows bs = Some ws \<Longrightarrow> \<not> shows_act act ws"
proof (induction bs arbitrary: ws)
  case (Cons b bs)
  have "block_row b = Some row \<Longrightarrow> \<not> shows_act act row" for row
    by (auto simp: block_row_def)
  then show ?case
    using Cons by (auto simp: bind_eq_Some_conv)
qed simp

lemma shows_network:
  assumes "active_tab a = TabNetwork" and "network_tab a = Some ws"
  shows "shows_act act ws \<longleftrightarrow>
    offered a act \<and> act \<noteq> ToggleLog \<and> \<not> (\<exists>t. act = SelectTab t)"
  using assms shows_blocks
  by (cases act) (auto simp: network_tab_def Let_def participant_row_def split: if_splits option.splits)

text \<open>Drawing the tasks changes nothing but the cache of decrypted results.\<close>

definition same_but_cache :: "app \<Rightarrow> app \<Rightarrow> bool" where
  "same_but_cache a b \<longleftrightarrow> (\<exists>c. b = a\<lparr>decrypt_cache := c\<rparr>)"

lemma same_but_cache_refl: "same_but_cache a a"
  unfolding same_but_cache_def by (rule exI [of _ "decrypt_cache a"]) simp

lemma same_but_cache_trans: "same_but_cache a b \<Longrightarrow> same_but_cache b c \<Longrightarrow> same_but_cache a c"
  by (auto simp: same_but_cache_def)

lemma decrypt_result_cache: "same_but_cache a (snd (decrypt_task_result C lossy i t a))"
  using same_but_cache_refl [of a]
  by (auto simp: decrypt_task_result_def same_but_cache_def split: option.split sum.split)

lemma task_list_drawn:
  assumes "task_list G ts a = Some (ws, b)"
  shows "same_but_cache a b \<and> (shows_act act ws \<longleftrightarrow> (\<exists>t\<in>set ts. act = OpenTask (tkv_id t)))"
  using assms
proof (induction ts arbitrary: a ws)
  case Nil
  then show ?case
    by (simp add: same_but_cache_refl)
next
  case (Cons t ts)
  define c where "c = (if has_outcome t
    then snd (decrypt_task_result (gui_crypto G) (gui_lossy G) (gui_identity G) t a) else a)"
  obtain preview result vs where rest: "task_list G ts c = Some (vs, b)"
    and ws: "ws = task_card t preview result @ vs"
    using Cons.prems by (auto simp: c_def Let_def case_prod_beta split: if_splits option.splits)
  have "same_but_cache a c"
    by (simp add: c_def decrypt_result_cache same_but_cache_refl)
  then have "same_but_cache a b"
    using Cons.IH [OF rest] same_but_cache_trans by blast
  moreover have "shows_act act (task_card t preview result) \<longleftrightarrow> act = OpenTask (tkv_id t)"
    by (simp add: task_card_def)
  ultimately show ?case
    using Cons.IH [OF rest] by (simp add: ws)
qed

lemma shows_forms:
  "shows_act act (filter_bar @ submit_form a @ batch_form a) \<longleftrightarrow>
     (\<exists>f. act = SetFilter f) \<or> (\<exists>m. act = ChoosePayload m) \<or> act \<in> {DoSubmitTask, DoBatch}
     \<or> (\<exists>p\<in>set (sn_projects (snapshot a)). act = ChooseProject (prv_id p))
     \<or> (\<exists>tp. act = UseTemplate tp \<and> (tp = GpuPytorch \<longleftrightarrow> task_payload_mode a = GpuMode))
     \<or> (\<exists>f s. act = Edit f s \<and> f \<in> {TaskCode, TaskReward, BatchStart, BatchEnd, BatchChunk})"
proof -
  have "f = FilterAll \<or> f = FilterPending \<or> f = FilterAssigned \<or> f = FilterCompleted \<or> f = FilterQuota
      \<or> f = FilterRejected" for f
    by (cases f) auto
  moreover have "m = PythonMode \<or> m = GpuMode" for m
    by (cases m) auto
  moreover have "tp = GpuPytorch \<or> tp = PrimeCheck \<or> tp = PrimeChunk" for tp
    by (cases tp) auto
  ultimately show ?thesis
    by (cases act) (auto simp: filter_bar_def submit_form_def batch_form_def Let_def)
qed

lemma shows_details:
  "shows_act act (task_details a t preview) \<longleftrightarrow>
     act = CloseTask \<or> tkv_has_result t \<and> owns_task a t \<and> act = DecryptResult t"
  by (auto simp: task_details_def split: option.split)

lemma shows_panel:
  "detail_panel a = Some ws \<Longrightarrow> shows_act act ws \<longleftrightarrow>
     (\<exists>t. Option.bind (selected_task a) (\<lambda>i. find (\<lambda>t. tkv_id t = i) (sn_tasks (snapshot a))) = Some t
        \<and> (act = CloseTask \<or> tkv_has_result t \<and> owns_task a t \<and> act = DecryptResult t))"
  by (auto simp: detail_panel_def shows_details split: option.splits)

lemma found_task:
  "(\<exists>t. Option.bind sel (\<lambda>i. find (\<lambda>t. tkv_id t = i) ts) = Some t) \<longleftrightarrow>
   (\<exists>i. sel = Some i \<and> i \<in> tkv_id ` set ts)"
proof -
  have "(\<exists>t. find (\<lambda>t. tkv_id t = i) ts = Some t) \<longleftrightarrow> i \<in> tkv_id ` set ts" for i
    by (induction ts) auto
  then show ?thesis
    by (cases sel) simp_all
qed

lemma offered_frame [simp]:
  "offered (a\<lparr>decrypt_cache := c\<rparr>) act = offered a act"
  "offered (a\<lparr>worker_donate_amounts := d\<rparr>) act = offered a act"
  "offered (a\<lparr>exec_compute_ticks := n\<rparr>) act = offered a act"
  by (cases act; cases "active_tab a"; simp add: owns_task_def filtered_tasks_def)+

lemma shows_tasks:
  assumes "active_tab a = TabTasks" and "tasks_tab G a = Some (ws, b)"
  shows "same_but_cache a b \<and> (shows_act act ws \<longleftrightarrow>
    offered a act \<and> act \<noteq> ToggleLog \<and> \<not> (\<exists>t. act = SelectTab t))"
proof (cases "connected a \<and> node_mode a \<noteq> ModeWorker")
  case False
  then have "b = a" "\<not> shows_act act ws"
    using assms(2) by (auto simp: tasks_tab_def split: if_splits)
  moreover have "\<not> (offered a act \<and> act \<noteq> ToggleLog \<and> \<not> (\<exists>t. act = SelectTab t))"
    using False assms(1) by (cases act) auto
  ultimately show ?thesis
    by (simp add: same_but_cache_refl)
next
  case True
  then obtain cards panel where cards: "task_list G (filtered_tasks a) a = Some (cards, b)"
    and panel: "detail_panel b = Some panel"
    and ws: "ws = (filter_bar @ submit_form a @ batch_form a)
        @ section_header (''Tasks ('' @ show_nat (length (filtered_tasks a)) @ '')'')
        # (if filtered_tasks a = [] then [Text ''No tasks match filter.''] else cards) @ panel"
    using assms(2) by (auto simp: tasks_tab_def coordinator_tasks_def Let_def split: if_splits option.splits)
  have same: "same_but_cache a b"
    using task_list_drawn [OF cards] by blast
  have panel': "detail_panel b = Some panel" "selected_task b = selected_task a" "snapshot b = snapshot a"
    "owns_task b t = owns_task a t" for t
    using same panel by (auto simp: same_but_cache_def owns_task_def)
  have shown: "shows_act act ws \<longleftrightarrow> shows_act act (filter_bar @ submit_form a @ batch_form a)
      \<or> (\<exists>t\<in>set (filtered_tasks a). act = OpenTask (tkv_id t)) \<or> shows_act act panel"
    using task_list_drawn [OF cards] unfolding ws by simp
  show ?thesis
    unfolding shown shows_forms shows_panel [OF panel'(1)] panel'(2-4)
    using True assms(1) same found_task [of "selected_task a" "sn_tasks (snapshot a)"]
    by (cases act) auto
qed

section \<open>Every frame\<close>

lemma offered_everywhere:
  "offered a act \<longleftrightarrow> act = ToggleLog \<or> (\<exists>t\<in>set (allowed_tabs (node_mode a)). act = SelectTab t)
     \<or> offered a act \<and> act \<noteq> ToggleLog \<and> \<not> (\<exists>t. act = SelectTab t)"
  by (cases act) auto

lemma central_drawn:
  assumes "central_panel G a = Some (ws, b)"
  shows "offered b act = offered a act \<and> (shows_act act ws \<longleftrightarrow>
    offered a act \<and> act \<noteq> ToggleLog \<and> \<not> (\<exists>t. act = SelectTab t))"
proof (cases "active_tab a")
  case TabConnect
  then show ?thesis
    using assms shows_connect [OF TabConnect] by (auto simp: central_panel_def)
next
  case TabProjects
  have "offered (snd (projects_tab a)) act = offered a act"
    by (simp add: projects_tab_def open_amounts_def)
  then show ?thesis
    using assms shows_projects [OF TabProjects] by (simp add: central_panel_def TabProjects prod_eq_iff)
next
  case TabTasks
  then show ?thesis
    using assms shows_tasks [OF TabTasks, of G ws b act]
    by (auto simp: central_panel_def same_but_cache_def)
next
  case TabExecutor
  have "offered (snd (executor_tab G a)) act = offered a act"
    by (simp add: executor_tab_def Let_def)
  then show ?thesis
    using assms shows_executor [OF TabExecutor, of act G]
    by (auto simp: central_panel_def TabExecutor prod_eq_iff)
next
  case TabPackages
  then show ?thesis
    using assms shows_packages [OF TabPackages] by (auto simp: central_panel_def)
next
  case TabNetwork
  then show ?thesis
    using assms shows_network [OF TabNetwork] by (auto simp: central_panel_def)
qed

lemma redirect_allowed: "active_tab (redirect a) \<in> set (allowed_tabs (node_mode a))"
  by (auto simp: redirect_def allowed_tabs_def split: node_mode.split)

lemma frame_parts:
  "frame G evs a = map_option (map_prod (\<lambda>ws. (header_bar (drain_events evs a)
       @ tab_bar (node_mode (redirect (drain_events evs a))) @ log_panel (redirect (drain_events evs a))) @ ws) id)
     (central_panel G (redirect (drain_events evs a)))"
  unfolding frame_def Let_def by (simp del: append_assoc)

lemma central_tab:
  assumes "central_panel G a = Some (ws, b)"
  shows "node_mode b = node_mode a \<and> active_tab b = active_tab a"
  using assms shows_tasks [of a G ws b ToggleLog]
  by (auto simp: central_panel_def projects_tab_def open_amounts_def executor_tab_def Let_def
      same_but_cache_def split: tab.splits if_splits)

lemma frame_offers: "frame G evs a = Some (ws, b) \<Longrightarrow> shows_act act ws \<longleftrightarrow> offered b act"
  using central_drawn [of G "redirect (drain_events evs a)" _ b act]
    offered_everywhere [of "redirect (drain_events evs a)" act]
  by (auto simp: frame_parts shows_header shows_tabs shows_log)

lemma task_list_panics: "task_list G ts a = None \<longleftrightarrow> (\<exists>t\<in>set ts. list_preview t = None)"
proof (induction ts arbitrary: a)
  case (Cons t ts)
  then show ?case
    by (cases "list_preview t") (simp_all add: Let_def case_prod_beta)
qed simp

lemma block_rows_panic:
  "block_rows bs = None \<longleftrightarrow> (\<exists>b\<in>set bs. slice_to (bv_hash b) (min (length (bv_hash b)) 12) = None)"
  by (induction bs) (auto simp: block_row_def bind_eq_None_conv split: option.splits)

definition unpaintable :: "app \<Rightarrow> bool" where
  "unpaintable s \<longleftrightarrow> connected s \<and>
     (active_tab s = TabTasks \<and> node_mode s \<noteq> ModeWorker
        \<and> ((\<exists>t\<in>set (filtered_tasks s). list_preview t = None)
           \<or> (\<exists>t. Option.bind (selected_task s) (\<lambda>i. find (\<lambda>t. tkv_id t = i) (sn_tasks (snapshot s))) = Some t
                \<and> detail_preview t = None))
      \<or> active_tab s = TabNetwork \<and> (\<exists>b\<in>set (sn_blocks (snapshot s)).
          slice_to (bv_hash b) (min (length (bv_hash b)) 12) = None))"

lemma detail_panics:
  "detail_panel a = None \<longleftrightarrow> (\<exists>t. Option.bind (selected_task a)
     (\<lambda>i. find (\<lambda>t. tkv_id t = i) (sn_tasks (snapshot a))) = Some t \<and> detail_preview t = None)"
  by (auto simp: detail_panel_def split: option.splits)

lemma tasks_panic:
  "coordinator_tasks G s = None \<longleftrightarrow>
     (\<exists>t\<in>set (filtered_tasks s). list_preview t = None) \<or> detail_panel s = None"
proof (cases "task_list G (filtered_tasks s) s")
  case None
  moreover from None have "\<exists>t\<in>set (filtered_tasks s). list_preview t = None"
    by (simp add: task_list_panics)
  ultimately show ?thesis
    by (simp add: coordinator_tasks_def Let_def)
next
  case (Some res)
  obtain cards b where res: "res = (cards, b)"
    by (cases res)
  have "same_but_cache s b"
    using task_list_drawn [OF Some [unfolded res]] by blast
  then have "detail_panel b = None \<longleftrightarrow> detail_panel s = None"
    unfolding detail_panics by (auto simp: same_but_cache_def)
  moreover have "\<not> (\<exists>t\<in>set (filtered_tasks s). list_preview t = None)"
    using Some task_list_panics [of G "filtered_tasks s" s] by simp
  ultimately show ?thesis
    using Some by (auto simp: coordinator_tasks_def Let_def res)
qed

lemma central_panics: "central_panel G s = None \<longleftrightarrow> unpaintable s"
proof -
  have "network_tab s = None \<longleftrightarrow> connected s \<and> (\<exists>b\<in>set (sn_blocks (snapshot s)).
      slice_to (bv_hash b) (min (length (bv_hash b)) 12) = None)"
    by (simp add: network_tab_def Let_def block_rows_panic)
  then show ?thesis
    by (cases "active_tab s") (simp_all add: central_panel_def unpaintable_def tasks_tab_def tasks_panic
        detail_panics)
qed

text \<open>C35: the screen is exact: a frame shows a widget for an action just when the action is open in
  that state, tab by tab and mode by mode; and the user interface panics just when it has to draw,
  on the tasks tab of a coordinator, a payload whose 60th byte, or for the selected task whose
  200th, is inside a character, or on the network tab a block hash cut inside a character.\<close>

theorem screen_exact:
  "case frame G evs a of
     Some (ws, b) \<Rightarrow> (\<forall>act. (\<exists>w\<in>set ws. offers w act) \<longleftrightarrow> offered b act)
       \<and> \<not> unpaintable (redirect (drain_events evs a))
   | None \<Rightarrow> unpaintable (redirect (drain_events evs a))"
proof (cases "frame G evs a")
  case None
  then have "central_panel G (redirect (drain_events evs a)) = None"
    by (simp add: frame_parts)
  then show ?thesis
    by (simp add: None central_panics)
next
  case (Some res)
  then have "central_panel G (redirect (drain_events evs a)) \<noteq> None"
    by (auto simp: frame_parts)
  then show ?thesis
    using frame_offers [of G evs a "fst res" "snd res"]
    by (simp add: Some central_panics case_prod_beta shows_act_def)
qed

section \<open>Runs of the user interface\<close>

text \<open>What holds in every state the user can bring about.\<close>

definition gui_ok :: "app \<Rightarrow> bool" where
  "gui_ok a \<longleftrightarrow> node_mode a \<noteq> ModePeer \<and> active_tab a \<noteq> TabPackages \<and> quorum_input a = ''2''
     \<and> exec_allowed_packages a = default_allowed_packages \<and> exec_reliability a \<le> 100
     \<and> 1 \<le> exec_compute_ticks a \<and> exec_compute_ticks a \<le> 20
     \<and> (task_project_selected a = None \<longrightarrow> task_project_id a = [])"

lemma gui_ok_event: "gui_ok a \<Longrightarrow> gui_ok (handle_event ev a)"
  by (simp add: gui_ok_def handle_event_def push_log_def Let_def split: app_event.split option.split)

lemma gui_ok_events: "gui_ok a \<Longrightarrow> gui_ok (drain_events evs a)"
  unfolding drain_events_def by (induction evs arbitrary: a) (simp_all add: gui_ok_event)

lemma gui_ok_redirect: "gui_ok a \<Longrightarrow> gui_ok (redirect a)"
  by (simp add: gui_ok_def redirect_def)

lemma ticks_kept:
  assumes "n \<le> (20 :: u64)"
  shows "ucast (ucast n :: 32 word) = n"
proof -
  have "unat n \<le> 20"
    using assms by (simp add: word_le_nat_alt)
  then have "unat (ucast (ucast n :: 32 word) :: u64) = unat n"
    by (simp add: unsigned_ucast_eq unsigned_take_bit_eq take_bit_nat_eq_self)
  then show ?thesis
    by (simp only: word_unat_eq_iff)
qed

lemma gui_ok_central:
  assumes "gui_ok a" and "central_panel G a = Some (ws, b)"
  shows "gui_ok b"
proof (cases "active_tab a")
  case TabTasks
  then show ?thesis
    using assms shows_tasks [OF TabTasks, of G ws b ToggleLog]
    by (auto simp: central_panel_def same_but_cache_def gui_ok_def)
next
  case TabExecutor
  then show ?thesis
    using assms by (auto simp: central_panel_def executor_tab_def Let_def gui_ok_def ticks_kept
        split: if_splits)
qed (use assms in \<open>auto simp: central_panel_def projects_tab_def open_amounts_def gui_ok_def
      split: if_splits\<close>)

lemma gui_ok_frame: "gui_ok a \<Longrightarrow> frame G evs a = Some (ws, b) \<Longrightarrow> gui_ok b"
  using gui_ok_central [of "redirect (drain_events evs a)" G _ b] gui_ok_redirect gui_ok_events
  by (auto simp: frame_parts)

text \<open>The commands the user can send from a state.\<close>

fun sendable :: "app \<Rightarrow> app_command \<Rightarrow> bool" where
  "sendable a (ConnectCoordinator l n bal q ps) \<longleftrightarrow>
     \<not> connected a \<and> node_mode a = ModeCoordinator \<and> q = 2"
| "sendable a (ConnectWorker c n bal pkgs) \<longleftrightarrow>
     \<not> connected a \<and> node_mode a = ModeWorker \<and> pkgs = default_allowed_packages"
| "sendable a (CmdCreateProject name key) \<longleftrightarrow>
     connected a \<and> (node_mode a = ModeWorker \<longrightarrow> name = ''Demo'' \<and> \<not> quick_demo_done a)"
| "sendable a (CmdFundProject pid amt) \<longleftrightarrow>
     connected a \<and> (node_mode a = ModeWorker \<longrightarrow> pid = 1 \<and> amt = 50 \<and> \<not> quick_demo_done a)"
| "sendable a (CmdDonateToProject pid amt) \<longleftrightarrow> connected a \<and> (node_mode a = ModeWorker \<longrightarrow>
     0 < amt \<and> pid \<in> prv_id ` set (sn_projects (snapshot a)))"
| "sendable a (CmdSubmitTask pid rew payload) \<longleftrightarrow>
     connected a \<and> (node_mode a = ModeWorker \<longrightarrow> pid = 1 \<and> rew = 20 \<and> \<not> quick_demo_done a)"
| "sendable a (StartExecutor r n pkgs) \<longleftrightarrow> connected a \<and> node_mode a = ModeWorker
     \<and> \<not> executor_running a \<and> r \<le> 100 \<and> 1 \<le> n \<and> n \<le> 20 \<and> pkgs = default_allowed_packages"
| "sendable a StopExecutor \<longleftrightarrow> connected a \<and> node_mode a = ModeWorker \<and> executor_running a"
| "sendable a (JoinP2P l bs n bal) \<longleftrightarrow> False"
| "sendable a (SendTokens to amt) \<longleftrightarrow> False"
| "sendable a Disconnect \<longleftrightarrow> connected a"

lemma sent_pairs:
  "(\<And>x y. sendable a (f x y)) \<Longrightarrow> list_all (sendable a) (both_numbers s r f)"
  by (simp add: both_numbers_def split: option.split)

lemma batch_sends:
  assumes "batch_clicked C a = Some (cmds, b)" and "connected a" and "node_mode a \<noteq> ModeWorker"
  shows "list_all (sendable a) cmds \<and> (\<exists>l. b = a\<lparr>log := l\<rparr>)"
proof -
  have same: "\<exists>l. a = a\<lparr>log := l\<rparr>"
    by (rule exI [of _ "log a"]) simp
  show ?thesis
    using assms same by (auto simp: batch_clicked_def push_log_def list_all_iff
        split: option.splits sum.splits)
qed

text \<open>On the tab bar of a mode the executor is a worker's.\<close>

lemma executor_worker: "TabExecutor \<in> set (allowed_tabs m) \<Longrightarrow> m = ModeWorker"
  by (cases m) (simp_all add: allowed_tabs_def)

lemma parse_two [simp]: "parse_u64 ''2'' = Some 2"
proof -
  have "byte_of CHR ''2'' = 50"
    by code_simp
  then show ?thesis
    by (simp add: parse_u64_def digit_def)
qed

lemma perform_ok:
  assumes "gui_ok a" and "offered a act" and "active_tab a \<in> set (allowed_tabs (node_mode a))"
    and "perform G act a = Some (cmds, b)"
  shows "gui_ok b \<and> list_all (sendable a) cmds"
proof (cases act)
  case (SelectTab t)
  have "TabPackages \<notin> set (allowed_tabs m)" for m
    by (cases m) (simp_all add: allowed_tabs_def)
  then show ?thesis
    using assms by (auto simp: SelectTab gui_ok_def)
next
  case DoQuickDemo
  then show ?thesis
    using assms by (auto simp: quick_demo_clicked_def gui_ok_def)
next
  case DoConnect
  then show ?thesis
    using assms by (cases "node_mode a") (auto simp: connect_clicked_def Let_def gui_ok_def)
next
  case (DoWorkerDonate pid)
  then show ?thesis
    using assms by (auto simp: worker_donate_clicked_def Let_def gui_ok_def split: option.splits if_splits)
next
  case DoSubmitTask
  then show ?thesis
    using assms by (auto simp: submit_task_clicked_def push_log_def gui_ok_def
        split: option.splits sum.splits)
next
  case DoExecutor
  then have "node_mode a = ModeWorker"
    using assms(2,3) executor_worker by auto
  then show ?thesis
    using assms DoExecutor by (auto simp: executor_clicked_def gui_ok_def split: if_splits)
next
  case DoBatch
  then show ?thesis
    using assms batch_sends [of "gui_crypto G" a cmds b] by (auto simp: gui_ok_def)
next
  case (DecryptResult t)
  then show ?thesis
    using assms by (auto simp: decrypt_clicked_def gui_ok_def split: option.splits sum.splits crypto_error.splits)
next
  case (Edit f s)
  then show ?thesis
    using assms by (cases f) (auto simp: gui_ok_def)
next
  case (Slide sl v)
  have small: "of_nat v \<le> (100 :: u8)" if "v \<le> 100"
    using that by (simp add: word_le_nat_alt unat_of_nat)
  have ticks: "1 \<le> (of_nat v :: u64) \<and> of_nat v \<le> (20 :: u64)" if "1 \<le> v" "v \<le> 20"
    using that by (simp add: word_le_nat_alt unat_of_nat)
  show ?thesis
    using assms small ticks by (cases sl) (auto simp: Slide gui_ok_def)
next
  case DoFund
  then show ?thesis
    using assms by (auto simp: fund_clicked_def intro!: sent_pairs)
next
  case DoDonate
  then show ?thesis
    using assms by (auto simp: donate_clicked_def intro!: sent_pairs)
next
  case DoCreateProject
  then show ?thesis
    using assms by (auto simp: create_project_clicked_def gui_ok_def split: if_splits)
qed (use assms in \<open>auto simp: gui_ok_def close_details_def Let_def case_prod_beta\<close>)

lemma frame_tab: "frame G evs a = Some (ws, b) \<Longrightarrow> active_tab b \<in> set (allowed_tabs (node_mode b))"
  using central_tab [of G "redirect (drain_events evs a)" _ b] redirect_allowed [of "drain_events evs a"]
  by (auto simp: frame_parts) (simp add: redirect_def split: if_splits)

lemma gui_ok_new: "gui_ok (app_new C i)"
  by (simp add: gui_ok_def app_new_def)

lemma gui_step_ok:
  assumes "gui_ok a" and "gui_step G a cmds c"
  shows "gui_ok c"
  using assms(2)
proof (cases rule: gui_step.cases)
  case (idle evs ws)
  then show ?thesis
    using gui_ok_frame assms(1) by blast
next
  case (acts evs ws b w act)
  then have "offered b act"
    using frame_offers [OF acts(1)] by (auto simp: shows_act_def)
  then show ?thesis
    using perform_ok [OF gui_ok_frame [OF assms(1) acts(1)] _ frame_tab [OF acts(1)] acts(4)] by simp
qed

lemma gui_reaches_ok: "gui_reaches G i a \<Longrightarrow> gui_ok a"
  by (induction rule: gui_reaches.induct) (simp_all add: gui_ok_new gui_step_ok)

lemma gui_act:
  "frame G evs a = Some (ws, b) \<Longrightarrow> offered b act \<Longrightarrow> perform G act b = Some (cmds, c) \<Longrightarrow>
   gui_step G a cmds c"
  using frame_offers [of G evs a ws b act] gui_step.acts [of G evs a ws b _ act cmds c]
  by (auto simp: shows_act_def)

lemma frame_connect:
  "b = redirect (drain_events evs a) \<Longrightarrow> active_tab b = TabConnect \<Longrightarrow> \<exists>ws. frame G evs a = Some (ws, b)"
  by (simp add: frame_parts central_panel_def)


definition demo_gui :: gui where
  "demo_gui = \<lparr>gui_crypto = toy_crypto, gui_lossy = map (\<lambda>b. char_of (unat b)), gui_lower = id,
     gui_identity = demo_identity\<rparr>"

definition demo_worker :: app where
  "demo_worker = (app_new toy_crypto demo_identity)\<lparr>node_mode := ModeWorker\<rparr>"

text \<open>A worker creates and funds a project with the button of the demo.\<close>

lemma worker_runs_demo:
  "gui_reaches demo_gui demo_identity demo_worker
   \<and> gui_step demo_gui demo_worker (fst (quick_demo_clicked toy_crypto demo_worker))
       (snd (quick_demo_clicked toy_crypto (handle_event Connected demo_worker)))"
proof
  have G: "gui_crypto demo_gui = toy_crypto"
    by (simp add: demo_gui_def)
  let ?a = "app_new toy_crypto demo_identity"
  have start: "redirect (drain_events [] ?a) = ?a" "active_tab ?a = TabConnect" "\<not> connected ?a"
    by (simp_all add: drain_events_def redirect_def app_new_def allowed_tabs_def)
  obtain ws where "frame demo_gui [] ?a = Some (ws, ?a)"
    using frame_connect [OF start(1) [symmetric] start(2)] by blast
  then have "gui_step demo_gui ?a [] demo_worker"
    by (rule gui_act [where act = "ChooseMode ModeWorker"]) (simp_all add: start demo_worker_def)
  moreover have "gui_reaches demo_gui demo_identity ?a"
    using gui_reaches.opens [of demo_gui demo_identity] by (simp add: G)
  ultimately show "gui_reaches demo_gui demo_identity demo_worker"
    by (rule gui_reaches.steps [rotated])
  let ?b = "handle_event Connected demo_worker"
  have b: "redirect (drain_events [Connected] demo_worker) = ?b" "active_tab ?b = TabConnect"
    "connected ?b" "node_mode ?b = ModeWorker" "\<not> quick_demo_done ?b"
    "encryption_pubkey ?b = encryption_pubkey demo_worker"
    by (simp_all add: drain_events_def redirect_def handle_event_def push_log_def demo_worker_def
        app_new_def allowed_tabs_def)
  obtain vs where "frame demo_gui [Connected] demo_worker = Some (vs, ?b)"
    using frame_connect [OF b(1) [symmetric] b(2)] by blast
  then show "gui_step demo_gui demo_worker (fst (quick_demo_clicked toy_crypto demo_worker))
      (snd (quick_demo_clicked toy_crypto ?b))"
    by (rule gui_act [where act = DoQuickDemo])
      (simp_all add: b G quick_demo_clicked_def)
qed


end
