(* ===== verification/Cli.thy ===== *)
theory Cli
  imports App
begin

text \<open>
  The headless client (src/src/bin/cli.rs): its arguments, the command that connects the node,
  and the commands it reads line by line.
\<close>

section \<open>Arguments\<close>

fun position :: "('a \<Rightarrow> bool) \<Rightarrow> 'a list \<Rightarrow> nat option" where
  "position P [] = None"
| "position P (x # xs) = (if P x then Some 0 else map_option Suc (position P xs))"

definition nth_opt :: "'a list \<Rightarrow> nat \<Rightarrow> 'a option" where
  "nth_opt xs i = (if i < length xs then Some (xs ! i) else None)"

definition arg_val :: "string list \<Rightarrow> string \<Rightarrow> string option" where
  "arg_val args key =
     Option.bind (position (\<lambda>a. a = key) args) (\<lambda>i. nth_opt args (i + 1))"

definition has_flag :: "string list \<Rightarrow> string \<Rightarrow> bool" where
  "has_flag args key \<longleftrightarrow> key \<in> set args"

definition arg_or :: "string list \<Rightarrow> string \<Rightarrow> string \<Rightarrow> string" where
  "arg_or args key dflt = (case arg_val args key of None \<Rightarrow> dflt | Some v \<Rightarrow> v)"

definition arg_list :: "string list \<Rightarrow> string \<Rightarrow> string list" where
  "arg_list args key =
     (case arg_val args key of
        None \<Rightarrow> []
      | Some s \<Rightarrow> filter (\<lambda>x. x \<noteq> []) (map trim (split_at (CHR '','') s)))"

text \<open>The command that connects the node; None prints the usage and exits.\<close>

definition cli_connect :: "string list \<Rightarrow> app_command option" where
  "cli_connect args =
     (let role = (case args of [] \<Rightarrow> [] | a # _ \<Rightarrow> a);
          name = arg_or args ''--name'' ''cli'';
          balance = (case Option.bind (arg_val args ''--balance'') parse_u64 of
                       None \<Rightarrow> 100 | Some b \<Rightarrow> b)
      in if role = ''coordinator'' then
           Some (ConnectCoordinator (arg_or args ''--listen'' ''127.0.0.1:7878'') name balance 2
                   (arg_list args ''--peers''))
         else if role = ''worker'' then
           Some (ConnectWorker (arg_or args ''--coord'' ''127.0.0.1:7878'') name balance
                   (arg_list args ''--packages''))
         else None)"

definition cli_executor :: app_command where
  "cli_executor = StartExecutor 95 2 default_allowed_packages"

definition cli_start :: "string list \<Rightarrow> app_command list option" where
  "cli_start args =
     map_option (\<lambda>c. c # (if has_flag args ''--exec'' then [cli_executor] else [])) (cli_connect args)"

section \<open>Lines\<close>

definition parse_arg :: "string list \<Rightarrow> nat \<Rightarrow> u64 option" where
  "parse_arg p i = Option.bind (nth_opt p i) parse_u64"

definition two_args :: "string list \<Rightarrow> (u64 \<Rightarrow> u64 \<Rightarrow> app_command) \<Rightarrow> app_command list" where
  "two_args p f =
     (case (parse_arg p 1, parse_arg p 2) of (Some a, Some b) \<Rightarrow> [f a b] | _ \<Rightarrow> [])"

text \<open>The commands a line sends, what it prints or waits for, and whether the client stops.\<close>

datatype cli_action =
    Sends "app_command list"
  | PrintsState
  | Prints string
  | Sleeps u64
  | Quits

definition cli_line :: "crypto \<Rightarrow> string \<Rightarrow> cli_action" where
  "cli_line C raw =
     (let line = trim raw in
      if line = [] \<or> starts_with ''#'' line then Sends []
      else
        let p = splitn 4 (CHR '' '') line; w = hd p in
        if w = ''project'' then
          Sends [CmdCreateProject (case nth_opt p 1 of None \<Rightarrow> ''P'' | Some nm \<Rightarrow> nm) None]
        else if w = ''fund'' then Sends (two_args p CmdFundProject)
        else if w = ''donate'' then Sends (two_args p CmdDonateToProject)
        else if w = ''task'' then
          Sends (two_args p (\<lambda>pid rew. CmdSubmitTask pid rew
            (python_payload C (case nth_opt p 3 of
               None \<Rightarrow> ''print('' @ single_quoted ''hello'' @ '')'' | Some code \<Rightarrow> code))))
        else if w = ''send'' then Sends (two_args p SendTokens)
        else if w = ''exec'' then
          (case nth_opt p 1 of
             Some a \<Rightarrow> if a = ''start'' then Sends [cli_executor]
                       else if a = ''stop'' then Sends [StopExecutor]
                       else Prints ''usage: exec start|stop''
           | None \<Rightarrow> Prints ''usage: exec start|stop'')
        else if w = ''state'' then PrintsState
        else if w = ''sleep'' then
          (case parse_arg p 1 of None \<Rightarrow> Sends [] | Some ms \<Rightarrow> Sleeps ms)
        else if w = ''quit'' \<or> w = ''exit'' then Quits
        else Prints (''unknown command: '' @ w))"

text \<open>The whole input: the commands sent, in order.\<close>

fun cli_session :: "crypto \<Rightarrow> string list \<Rightarrow> app_command list" where
  "cli_session C [] = []"
| "cli_session C (l # ls) =
     (case cli_line C l of
        Sends cmds \<Rightarrow> cmds @ cli_session C ls
      | Quits \<Rightarrow> [Disconnect]
      | _ \<Rightarrow> cli_session C ls)"

text \<open>What the client does with the events of the node: a printed line, or the new snapshot.\<close>

definition cli_event :: "app_event \<Rightarrow> network_snapshot \<Rightarrow> string option \<times> network_snapshot" where
  "cli_event ev s =
     (case ev of
        LogEvent m \<Rightarrow> (Some (''[log] '' @ m), s)
      | ErrorEvent m \<Rightarrow> (Some (''[err] '' @ m), s)
      | Connected \<Rightarrow> (Some ''[evt] connected'', s)
      | Disconnected reason \<Rightarrow> (Some (''[evt] disconnected: '' @ reason), s)
      | Registered i \<Rightarrow> (Some (''[evt] registered as #'' @ show_u64 i), s)
      | IdentityEvent signing _ \<Rightarrow> (Some (''[evt] identity '' @ signing), s)
      | ExecutorStarted \<Rightarrow> (Some ''[evt] executor started'', s)
      | ExecutorStopped \<Rightarrow> (Some ''[evt] executor stopped'', s)
      | StateUpdate s' \<Rightarrow> (None, s')
      | P2pUpdate _ \<Rightarrow> (None, s))"

section \<open>Printing\<close>

text \<open>The formats \<open>{:<k}\<close> and \<open>{:>k}\<close>, which count characters.\<close>

definition padding :: "nat \<Rightarrow> string \<Rightarrow> string" where
  "padding k s = replicate (k - length (chars_of s)) (CHR '' '')"

definition pad_right :: "nat \<Rightarrow> string \<Rightarrow> string" where
  "pad_right k s = s @ padding k s"

definition pad_left :: "nat \<Rightarrow> string \<Rightarrow> string" where
  "pad_left k s = padding k s @ s"

definition show_bool :: "bool \<Rightarrow> string" where
  "show_bool b = (if b then ''true'' else ''false'')"

definition state_lines :: "network_snapshot \<Rightarrow> string list" where
  "state_lines s =
     [''--- state: blocks='' @ show_u64 (sn_block_count s) @ '' valid='' @ show_bool (sn_valid s) @ '' ---'']
     @ map (\<lambda>p. ''  participant #'' @ pad_right 20 (show_u64 (pv_id p)) @ '' '' @ pad_right 8 (pv_name p)
           @ '' balance='' @ show_u64 (pv_balance p) @ '' rep='' @ show_u64 (pv_reputation p))
         (sn_participants s)
     @ map (\<lambda>p. ''  project   #'' @ show_u64 (prv_id p) @ '' '' @ pad_right 10 (prv_name p)
           @ '' quota avail='' @ show_u64 (prv_available p) @ '' locked='' @ show_u64 (prv_locked p))
         (sn_projects s)
     @ map (\<lambda>t. ''  task      #'' @ show_u64 (tkv_id t) @ '' project='' @ show_u64 (tkv_project t)
           @ '' reward='' @ show_u64 (tkv_reward t) @ '' ['' @ tkv_label t @ '']'')
         (sn_tasks s)
     @ [''------------------------------------'']"

end
