(* ===== verification/Smoke.thy ===== *)
theory Smoke
  imports Cli Driver
begin

text \<open>
  The verdict of the smoke test of the consensus (src/src/bin/consensus_smoke.rs): it starts nodes
  of the peer-to-peer mode in one process, sends a transfer from the first to the second, and polls
  the snapshots they report until all agree, at most 60 times.
\<close>

definition INITIAL_BALANCE :: u64 where "INITIAL_BALANCE = 100"
definition TRANSFER :: u64 where "TRANSFER = 30"

definition default_p2p :: p2p_snapshot where
  "default_p2p = \<lparr>ps_key_short = [], ps_peers = 0, ps_validators = 0, ps_mempool = 0,
     ps_block_count = 0, ps_valid = False, ps_balance = 0, ps_blocks = []\<rparr>"

text \<open>The number of nodes from the arguments after the program's name.\<close>

definition smoke_nodes :: "string list \<Rightarrow> nat" where
  "smoke_nodes args =
     max (case Option.bind (nth_opt args 0) parse_u64 of None \<Rightarrow> 4 | Some n \<Rightarrow> unat n) 2"

definition latest :: "app_event list \<Rightarrow> p2p_snapshot option" where
  "latest evs = fold (\<lambda>ev best. case ev of P2pUpdate s \<Rightarrow> Some s | _ \<Rightarrow> best) evs None"

definition smoke_head :: "p2p_snapshot \<Rightarrow> string" where
  "smoke_head s = (if ps_blocks s = [] then ''-'' else bv_hash (last (ps_blocks s)))"

text \<open>The nodes: each listens on a port of its own (the sum of 16 bits wraps in a release build) and
  all but the first dial the first.\<close>

definition BASE_PORT :: "16 word" where "BASE_PORT = 18000"

definition smoke_address :: "16 word \<Rightarrow> string" where
  "smoke_address port = ''127.0.0.1:'' @ digits_of 10 (unat port)"

definition smoke_launch :: "crypto \<Rightarrow> wire \<Rightarrow> nat \<Rightarrow> identity \<Rightarrow> string option \<Rightarrow> node option step" where
  "smoke_launch C W i identity bind_error =
     p2p_start C W identity (smoke_address (BASE_PORT + of_nat i)) bind_error
       (if i = 0 then [] else [smoke_address BASE_PORT]) (''node'' @ digits_of 10 i) INITIAL_BALANCE"

text \<open>The command for the first node, with the address of the second.\<close>

definition smoke_command :: "crypto \<Rightarrow> identity list \<Rightarrow> app_command" where
  "smoke_command C ids = SendTokens (node_address (public_key_bytes C (ids ! 1))) TRANSFER"

text \<open>The check of one poll, for at least two snapshots.\<close>

definition smoke_ok :: "p2p_snapshot list \<Rightarrow> bool" where
  "smoke_ok snaps =
     (let s0 = snaps ! 0; h0 = ps_block_count s0; head0 = smoke_head s0;
          same_chain = (2 \<le> h0 \<and> list_all (\<lambda>s. ps_block_count s = h0 \<and> smoke_head s = head0 \<and> ps_valid s) snaps);
          validators_ok = list_all (\<lambda>s. ps_validators s = usize_of (length snaps)) snaps;
          balances_ok = (ps_balance s0 = INITIAL_BALANCE - TRANSFER
            \<and> ps_balance (snaps ! 1) = INITIAL_BALANCE + TRANSFER
            \<and> list_all (\<lambda>s. ps_balance s = INITIAL_BALANCE) (drop 2 snaps))
      in same_chain \<and> validators_ok \<and> balances_ok)"

text \<open>The polls: each takes the events that have arrived at the nodes since the last.\<close>

fun smoke_poll :: "app_event list list list \<Rightarrow> p2p_snapshot list \<Rightarrow> bool \<times> p2p_snapshot list" where
  "smoke_poll [] snaps = (False, snaps)"
| "smoke_poll (polled # rounds) snaps =
     (let snaps = map (\<lambda>(evs, s). case latest evs of None \<Rightarrow> s | Some s' \<Rightarrow> s') (zip polled snaps)
      in if smoke_ok snaps then (True, snaps) else smoke_poll rounds snaps)"

definition smoke_test :: "nat \<Rightarrow> app_event list list list \<Rightarrow> bool \<times> p2p_snapshot list" where
  "smoke_test n rounds = smoke_poll (take 60 rounds) (replicate n default_p2p)"

text \<open>A row of the report; the head is cut at byte 16, which may panic.\<close>

definition smoke_row :: "nat \<Rightarrow> p2p_snapshot \<Rightarrow> string option" where
  "smoke_row i s =
     map_option (\<lambda>head.
         pad_right 8 (''node'' @ digits_of 10 i) @ '' '' @ pad_left 6 (show_u64 (ps_peers s)) @ '' ''
         @ pad_left 6 (show_u64 (ps_validators s)) @ '' '' @ pad_left 7 (show_u64 (ps_block_count s)) @ '' ''
         @ pad_left 8 (show_u64 (ps_mempool s)) @ '' '' @ pad_left 10 (show_u64 (ps_balance s)) @ '' ''
         @ pad_left 6 (if ps_valid s then [CHR 0xE2, CHR 0x9C, CHR 0x93] else [CHR 0xE2, CHR 0x9C, CHR 0x97])
         @ ''  '' @ head)
       (slice_to (smoke_head s) (min (length (smoke_head s)) 16))"

text \<open>The last line and the exit code.\<close>

definition smoke_verdict :: "bool \<Rightarrow> string \<times> nat" where
  "smoke_verdict converged =
     (if converged then
        ([CHR 0x0A] @ ''SMOKE TEST PASSED: all nodes share one valid chain, balances correct.'', 0)
      else
        ([CHR 0x0A] @ ''SMOKE TEST FAILED: nodes did not converge (expected node0=''
           @ show_u64 (INITIAL_BALANCE - TRANSFER) @ '', node1='' @ show_u64 (INITIAL_BALANCE + TRANSFER)
           @ '', rest='' @ show_u64 INITIAL_BALANCE @ '').'', 1))"

text \<open>A run that passes has lost and created no token.\<close>

lemma smoke_ok_balances:
  assumes "smoke_ok snaps" and "2 \<le> length snaps"
  shows "sum_list (map (unat \<circ> ps_balance) snaps) = 100 * length snaps"
proof -
  obtain a b ss where snaps: "snaps = a # b # ss"
    using assms(2) by (auto simp: numeral_2_eq_2 Suc_le_length_iff)
  have all: "list_all (\<lambda>s. ps_balance s = 100) ss" and ab: "ps_balance a = 70" "ps_balance b = 130"
    using assms(1) by (simp_all add: snaps smoke_ok_def Let_def INITIAL_BALANCE_def TRANSFER_def)
  from all have "sum_list (map (unat \<circ> ps_balance) ss) = 100 * length ss"
    by (induction ss) simp_all
  then show ?thesis
    by (simp add: snaps ab)
qed

lemma smoke_poll_passes:
  "list_all (\<lambda>r. length r = n) rounds \<Longrightarrow> length snaps = n \<Longrightarrow>
   length (snd (smoke_poll rounds snaps)) = n
   \<and> (fst (smoke_poll rounds snaps) \<longrightarrow> smoke_ok (snd (smoke_poll rounds snaps)))"
  by (induction rounds arbitrary: snaps) (simp_all add: Let_def)

lemma smoke_ok_heads:
  "smoke_ok snaps \<Longrightarrow> s \<in> set snaps \<Longrightarrow> ps_valid s \<and> smoke_head s = smoke_head (snaps ! 0)"
  by (auto simp: smoke_ok_def Let_def list_all_iff)

theorem smoke_test_sound:
  assumes "list_all (\<lambda>r. length r = n) rounds" and "2 \<le> n" and "smoke_test n rounds = (True, snaps)"
  shows "sum_list (map (unat \<circ> ps_balance) snaps) = 100 * n
    \<and> (\<forall>s\<in>set snaps. ps_valid s \<and> smoke_head s = smoke_head (snaps ! 0))"
proof -
  have "list_all (\<lambda>r. length r = n) (take 60 rounds)"
    using assms(1) by (auto simp: list_all_iff dest: in_set_takeD)
  then have ok: "length snaps = n" "smoke_ok snaps"
    using smoke_poll_passes [of n "take 60 rounds" "replicate n default_p2p"] assms(3)
    unfolding smoke_test_def by simp_all
  then have "sum_list (map (unat \<circ> ps_balance) snaps) = 100 * n"
    using smoke_ok_balances [OF ok(2)] assms(2) by simp
  then show ?thesis
    using smoke_ok_heads [OF ok(2)] by blast
qed

text \<open>At most 47536 nodes have ports of their own; the next would listen on port 0.\<close>

lemma smoke_ports_distinct:
  assumes "i < 47536" and "j < 47536" and "BASE_PORT + of_nat i = BASE_PORT + of_nat j"
  shows "i = j"
proof -
  have "of_nat i = (of_nat j :: 16 word)"
    using assms(3) by simp
  then have "i mod 2 ^ 16 = j mod 2 ^ 16"
    by (simp add: word_of_nat_eq_iff take_bit_eq_mod)
  then show ?thesis
    using assms(1,2) by simp
qed

end
