(* ===== verification/Style.thy ===== *)
theory Style
  imports Snapshot Text
begin

text \<open>
  The palette of the desktop application and the colours that carry a meaning: of a line of the log
  and of the status of a task (src/src/app/style.rs). The frames and badges around them are
  drawing.
\<close>

text \<open>A colour as the source writes it, with or without a share of opacity.\<close>

datatype color = Rgb u8 u8 u8 | Rgba u8 u8 u8 u8

definition BG_APP :: color where "BG_APP = Rgb 15 17 23"
definition BG_SURFACE :: color where "BG_SURFACE = Rgb 22 27 34"
definition BG_CARD :: color where "BG_CARD = Rgb 30 36 48"
definition BG_INPUT :: color where "BG_INPUT = Rgb 13 17 23"
definition ACCENT :: color where "ACCENT = Rgb 88 166 255"
definition ACCENT_DIM :: color where "ACCENT_DIM = Rgb 31 111 235"
definition C_SUCCESS :: color where "C_SUCCESS = Rgb 63 185 80"
definition C_WARNING :: color where "C_WARNING = Rgb 210 153 34"
definition C_DANGER :: color where "C_DANGER = Rgb 248 81 73"
definition C_MUTED :: color where "C_MUTED = Rgb 110 118 129"
definition TEXT_PRI :: color where "TEXT_PRI = Rgb 230 237 243"
definition TEXT_SEC :: color where "TEXT_SEC = Rgb 139 148 158"

definition log_line_color :: "string \<Rightarrow> color" where
  "log_line_color line =
     (if starts_with ''ERROR'' line then C_DANGER
      else if starts_with ''WARN'' line then C_WARNING
      else TEXT_SEC)"

text \<open>The background and the text of a badge.\<close>

definition task_status_colors :: "string \<Rightarrow> color \<times> color" where
  "task_status_colors status =
     (if status = ''Pending'' then (Rgba 210 153 34 35, C_WARNING)
      else if starts_with ''Assigned'' status then (Rgba 88 166 255 35, ACCENT)
      else if starts_with ''Done'' status then (Rgba 63 185 80 35, C_SUCCESS)
      else if status = ''Quota exhausted'' then (Rgba 210 153 34 35, C_WARNING)
      else (Rgba 248 81 73 35, C_DANGER))"

text \<open>The label of a snapshot gets the colour of its status: the danger colour exactly when the task
  was rejected.\<close>

lemma status_color:
  "snd (task_status_colors (fst (status_label st))) =
     (case st of Pending \<Rightarrow> C_WARNING | Assigned _ _ \<Rightarrow> ACCENT | Completed _ _ \<Rightarrow> C_SUCCESS
      | QuotaExhausted _ _ \<Rightarrow> C_WARNING | Rejected \<Rightarrow> C_DANGER)"
  by (cases st) (simp_all add: task_status_colors_def status_label_def starts_with_def)

lemma rejected_in_danger_color:
  "snd (task_status_colors (fst (status_label st))) = C_DANGER \<longleftrightarrow> st = Rejected"
  unfolding status_color
  by (cases st) (simp_all add: C_DANGER_def C_WARNING_def C_SUCCESS_def ACCENT_def)

end
