(* ===== verification/Suite_Ledger.thy ===== *)
theory Suite_Ledger
  imports Outcomes
begin

text \<open>
  The unit tests of src/src/blockchain.rs and src/src/network.rs, as the functions they are: each
  runs the operations of its source on the model and is True when all its assertions hold. They
  are evaluated here, which checks the definitions of the ledger and of the replicated state
  machine on every case the authors thought of.
\<close>

unbundle bit_operations_syntax

section \<open>Harness\<close>

text \<open>\<open>unwrap\<close>: an error is a panic, which fails the test.\<close>

abbreviation unwrap :: "('e + 'a) \<times> 's \<Rightarrow> ('a \<Rightarrow> 's \<Rightarrow> bool) \<Rightarrow> bool" where
  "unwrap r k \<equiv> (case r of (Inl e, s) \<Rightarrow> False | (Inr x, s) \<Rightarrow> k x s)"

text \<open>A hash for the evaluation: the sum of the bytes.\<close>

definition byte_sum :: hash_fun where
  "byte_sum bs = [sum_list bs]"

section \<open>The token ledger\<close>

definition genesis_block_has_zero_prev_hash :: "hash_fun \<Rightarrow> bool" where
  "genesis_block_has_zero_prev_hash H =
     (let bc = blockchain_new H in b_prev_hash (bc ! 0) = zero32 \<and> length bc = 1)"

definition balance_of_accumulates_mint :: "hash_fun \<Rightarrow> bool" where
  "balance_of_accumulates_mint H =
     (let bc = commit_block H 1 [Mint 1 100] (blockchain_new H);
          bc = commit_block H 2 [Mint 1 50] bc
      in balance_of bc 1 = 150)"

definition transfer_moves_balance_between_accounts :: "hash_fun \<Rightarrow> bool" where
  "transfer_moves_balance_between_accounts H =
     (let bc = commit_block H 1 [Mint 1 100] (blockchain_new H);
          bc = commit_block H 2 [Transfer 1 2 40 ''pay''] bc
      in balance_of bc 1 = 60 \<and> balance_of bc 2 = 40)"

definition burn_reduces_balance :: "hash_fun \<Rightarrow> bool" where
  "burn_reduces_balance H =
     (let bc = commit_block H 1 [Mint 5 20] (blockchain_new H);
          bc = commit_block H 2 [Burn 5 8] bc
      in balance_of bc 5 = 12)"

definition balance_never_goes_negative :: "hash_fun \<Rightarrow> bool" where
  "balance_never_goes_negative H =
     (let bc = commit_block H 1 [Burn 99 1000] (blockchain_new H) in balance_of bc 99 = 0)"

definition verify_integrity_passes_valid_chain :: "hash_fun \<Rightarrow> bool" where
  "verify_integrity_passes_valid_chain H =
     (let bc = commit_block H 1 [Mint 1 10] (blockchain_new H);
          bc = commit_block H 2 [Transfer 1 2 5 ''t''] bc
      in verify_integrity H bc)"

text \<open>Tampering with the amount of the first transaction of block 1, and with the link of block 2.\<close>

definition verify_integrity_fails_on_tampered_amount :: "hash_fun \<Rightarrow> bool" where
  "verify_integrity_fails_on_tampered_amount H =
     (let bc = commit_block H 1 [Mint 1 10] (blockchain_new H);
          b = bc ! 1;
          txs = (case b_transactions b of Mint to amount # txs \<Rightarrow> Mint to 9999 # txs | txs \<Rightarrow> txs)
      in \<not> verify_integrity H (bc[1 := b\<lparr>b_transactions := txs\<rparr>]))"

definition verify_integrity_fails_on_broken_prev_hash :: "hash_fun \<Rightarrow> bool" where
  "verify_integrity_fails_on_broken_prev_hash H =
     (let bc = commit_block H 1 [Mint 1 10] (blockchain_new H);
          bc = commit_block H 2 [Mint 2 5] bc;
          b = bc ! 2;
          prev = b_prev_hash b
      in \<not> verify_integrity H (bc[2 := b\<lparr>b_prev_hash := prev[0 := prev ! 0 XOR 0xFF]\<rparr>]))"

definition history_for_returns_only_relevant_transactions :: "hash_fun \<Rightarrow> bool" where
  "history_for_returns_only_relevant_transactions H =
     (let bc = commit_block H 1 [Mint 1 100, Mint 2 50] (blockchain_new H);
          bc = commit_block H 2 [Transfer 1 2 10 ''x''] bc
      in length (history_for bc 1) = 2 \<and> length (history_for bc 2) = 2)"


text \<open>The tests pass with every hash function, and those that need two hashes to differ with the sum
  of the bytes; the tests of the state machine, whose terms are large, are all run with the latter.\<close>

lemma ledger_suite:
  "genesis_block_has_zero_prev_hash H
   \<and> balance_of_accumulates_mint H
   \<and> transfer_moves_balance_between_accounts H
   \<and> burn_reduces_balance H
   \<and> balance_never_goes_negative H
   \<and> verify_integrity_passes_valid_chain H
   \<and> verify_integrity_fails_on_tampered_amount byte_sum
   \<and> verify_integrity_fails_on_broken_prev_hash byte_sum
   \<and> history_for_returns_only_relevant_transactions H"
  by (intro conjI; code_simp)

section \<open>The replicated state machine\<close>

definition config_of :: "u64 \<Rightarrow> u64 \<Rightarrow> usize \<Rightarrow> u64 \<Rightarrow> network_config" where
  "config_of timeout quorum reports slash =
     \<lparr>lease_timeout_ticks = timeout, consensus_quorum = quorum, max_reports_per_task = reports,
      lease_slash = slash, reputation_reward = 1, reputation_penalty = 1\<rparr>"

definition task_status_is :: "(task_status \<Rightarrow> bool) \<Rightarrow> task_id \<Rightarrow> network \<Rightarrow> bool" where
  "task_status_is P tid n = (case hm_get (tasks n) tid of None \<Rightarrow> False | Some t \<Rightarrow> P (t_status t))"

definition is_completed :: "task_status \<Rightarrow> bool" where
  "is_completed s = (case s of Completed _ _ \<Rightarrow> True | _ \<Rightarrow> False)"

definition project_has :: "(project \<Rightarrow> bool) \<Rightarrow> project_id \<Rightarrow> network \<Rightarrow> bool" where
  "project_has P pid n = (case hm_get (projects n) pid of None \<Rightarrow> False | Some p \<Rightarrow> P p)"

text \<open>A log that touches every kind of operation; the last tick lets two leases expire together.\<close>

definition representative_log :: "ledger_op list" where
  "representative_log =
     [RegisterParticipant 100 ''Owner'' (replicate 32 1) 200,
      RegisterParticipant 1 ''W1'' (replicate 32 2) 5,
      RegisterParticipant 2 ''W2'' (replicate 32 3) 5,
      CreateProject 100 ''P'' None,
      FundProject 100 1 100,
      SubmitTask 100 1 10 ''a'',
      SubmitTask 100 1 10 ''b'',
      SubmitTask 100 1 10 ''c'',
      RequestTask 1 1,
      RequestTask 2 2,
      SubmitResult 1 1 ''done'' 0 None,
      RequestTask 1 3,
      Tick 5]"

definition replica :: "hash_fun \<Rightarrow> network_config \<Rightarrow> ledger_op list \<Rightarrow> network" where
  "replica H cfg log = fold (apply_op H) log (with_config H cfg)"

definition identical_op_log_yields_identical_state_across_replicas :: "hash_fun \<Rightarrow> bool" where
  "identical_op_log_yields_identical_state_across_replicas H =
     (let cfg = default_config\<lparr>consensus_quorum := 1, lease_timeout_ticks := 2, lease_slash := 1\<rparr>;
          n = replica H cfg representative_log;
          reference = state_fingerprint H n
      in list_all (\<lambda>_. state_fingerprint H (replica H cfg representative_log) = reference) [0..<5]
         \<and> reference \<noteq> state_fingerprint H (with_config H cfg)
         \<and> task_status_is is_completed 1 n \<and> verify_integrity H (chain n))"

definition donation_reduces_supporter_balance_and_increases_project_quota :: "hash_fun \<Rightarrow> bool" where
  "donation_reduces_supporter_balance_and_increases_project_quota H =
     (let (alice, n) = register_participant H ''Alice'' 100 None (network_default H);
          (owner, n) = register_participant H ''Owner'' 0 None n
      in unwrap (create_project owner ''Climate'' None n) (\<lambda>p n.
         unwrap (donate_to_project H alice p 40 n) (\<lambda>_ n.
           network_balance_of alice n = 60 \<and> project_has (\<lambda>pr. quota_available pr = 40) p n)))"

definition cannot_submit_task_when_project_has_not_enough_quota :: "hash_fun \<Rightarrow> bool" where
  "cannot_submit_task_when_project_has_not_enough_quota H =
     (let (owner, n) = register_participant H ''Owner'' 0 None (network_default H)
      in unwrap (create_project owner ''Protein'' None n) (\<lambda>p n.
           case fst (submit_task owner p 1 ''job'' n) of
             Inl (NotEnoughProjectQuota _ requested available) \<Rightarrow> requested = 1 \<and> available = 0
           | _ \<Rightarrow> False))"

definition scheduler_prefers_project_with_higher_priority_score :: "hash_fun \<Rightarrow> bool" where
  "scheduler_prefers_project_with_higher_priority_score H =
     (let (owner1, n) = register_participant H ''Owner1'' 100 None (network_default H);
          (owner2, n) = register_participant H ''Owner2'' 100 None n;
          (worker, n) = register_participant H ''Worker'' 0 None n
      in unwrap (create_project owner1 ''Big'' None n) (\<lambda>p1 n.
         unwrap (create_project owner2 ''Small'' None n) (\<lambda>p2 n.
         unwrap (fund_project_from_owner H owner1 p1 60 n) (\<lambda>_ n.
         unwrap (fund_project_from_owner H owner2 p2 20 n) (\<lambda>_ n.
         unwrap (submit_task owner1 p1 10 ''task-big'' n) (\<lambda>t1 n.
         unwrap (submit_task owner2 p2 10 ''task-small'' n) (\<lambda>t2 n.
         unwrap (request_task H worker n) (\<lambda>assigned n. t_id assigned = t1))))))))"

definition consensus_rewards_winning_workers_and_unlocks_project_quota :: "hash_fun \<Rightarrow> bool" where
  "consensus_rewards_winning_workers_and_unlocks_project_quota H =
     (let (owner, n) = register_participant H ''Owner'' 20 None (with_config H (config_of 3 2 5 1));
          (w1, n) = register_participant H ''W1'' 0 None n;
          (w2, n) = register_participant H ''W2'' 0 None n
      in unwrap (create_project owner ''Astro'' None n) (\<lambda>p n.
         unwrap (fund_project_from_owner H owner p 10 n) (\<lambda>_ n.
         unwrap (submit_task owner p 8 ''fft'' n) (\<lambda>tid n.
         unwrap (request_task H w1 n) (\<lambda>_ n.
         unwrap (submit_result H w1 tid ''digest-ok'' 0 None n) (\<lambda>finalized n. \<not> finalized \<and>
         unwrap (request_task H w2 n) (\<lambda>_ n.
         unwrap (submit_result H w2 tid ''digest-ok'' 0 None n) (\<lambda>finalized n. finalized
           \<and> network_balance_of w1 n = 4 \<and> network_balance_of w2 n = 4
           \<and> project_has (\<lambda>pr. quota_locked pr = 0) p n
           \<and> task_status_is is_completed tid n))))))))"

definition expired_lease_returns_task_back_to_queue :: "hash_fun \<Rightarrow> bool" where
  "expired_lease_returns_task_back_to_queue H =
     (let (owner, n) = register_participant H ''Owner'' 20 None (with_config H (config_of 2 2 5 2));
          (w1, n) = register_participant H ''W1'' 0 None n;
          (w2, n) = register_participant H ''W2'' 0 None n
      in unwrap (create_project owner ''Geo'' None n) (\<lambda>p n.
         unwrap (fund_project_from_owner H owner p 10 n) (\<lambda>_ n.
         unwrap (submit_task owner p 6 ''map'' n) (\<lambda>_ n.
         unwrap (request_task H w1 n) (\<lambda>_ n.
         unwrap (request_task H w2 (tick H 2 n)) (\<lambda>reassigned n.
           t_project reassigned = p \<and> pending_count n = 0 \<and> network_balance_of w1 n = 0))))))"

definition weighted_consensus_can_finalize_with_high_reputation_executor :: "hash_fun \<Rightarrow> bool" where
  "weighted_consensus_can_finalize_with_high_reputation_executor H =
     (let (owner, n) = register_participant H ''Owner'' 30 None (with_config H (config_of 3 4 5 1));
          (high_rep, n) = register_participant H ''HighRep'' 0 None n
      in unwrap (create_project owner ''Chem'' None n) (\<lambda>p n.
         unwrap (set_participant_reputation high_rep 4 n) (\<lambda>_ n.
         unwrap (fund_project_from_owner H owner p 20 n) (\<lambda>_ n.
         unwrap (submit_task owner p 12 ''mol'' n) (\<lambda>tid n.
         unwrap (request_task H high_rep n) (\<lambda>_ n.
         unwrap (submit_result H high_rep tid ''digest-stable'' 0 None n) (\<lambda>finalized n. finalized
           \<and> network_balance_of high_rep n = 12 \<and> task_status_is is_completed tid n)))))))"

definition task_is_auto_rejected_when_max_reports_reached_without_consensus :: "hash_fun \<Rightarrow> bool" where
  "task_is_auto_rejected_when_max_reports_reached_without_consensus H =
     (let (owner, n) = register_participant H ''Owner'' 20 None (with_config H (config_of 3 10 2 1));
          (w1, n) = register_participant H ''W1'' 0 None n;
          (w2, n) = register_participant H ''W2'' 0 None n
      in unwrap (create_project owner ''Math'' None n) (\<lambda>p n.
         unwrap (fund_project_from_owner H owner p 10 n) (\<lambda>_ n.
         unwrap (submit_task owner p 8 ''integral'' n) (\<lambda>tid n.
         unwrap (request_task H w1 n) (\<lambda>_ n.
         unwrap (submit_result H w1 tid ''digest-a'' 0 None n) (\<lambda>finalized n. \<not> finalized \<and>
         unwrap (request_task H w2 n) (\<lambda>_ n.
         unwrap (submit_result H w2 tid ''digest-b'' 0 None n) (\<lambda>finalized n. finalized
           \<and> task_status_is (\<lambda>s. s = Rejected) tid n
           \<and> project_has (\<lambda>pr. quota_locked pr = 0) p n
           \<and> project_has (\<lambda>pr. quota_available pr = 10) p n))))))))"

definition budget_exhausted_consensus_burns_reward_without_paying_workers :: "hash_fun \<Rightarrow> bool" where
  "budget_exhausted_consensus_burns_reward_without_paying_workers H =
     (let (owner, n) = register_participant H ''Owner'' 20 None
            (with_config H (default_config\<lparr>consensus_quorum := 2\<rparr>));
          (w1, n) = register_participant H ''W1'' 0 None n;
          (w2, n) = register_participant H ''W2'' 0 None n
      in unwrap (create_project owner ''Budget'' None n) (\<lambda>p n.
         unwrap (fund_project_from_owner H owner p 10 n) (\<lambda>_ n.
         unwrap (submit_task owner p 8 ''python-loop'' n) (\<lambda>tid n.
         unwrap (request_task H w1 n) (\<lambda>_ n.
         unwrap (submit_result H w1 tid ''python-budget-exhausted-1'' 8 None n) (\<lambda>finalized n. \<not> finalized \<and>
         unwrap (request_task H w2 n) (\<lambda>_ n.
         unwrap (submit_result H w2 tid ''python-budget-exhausted-1'' 8 None n) (\<lambda>finalized n. finalized
           \<and> network_balance_of w1 n = 0 \<and> network_balance_of w2 n = 0
           \<and> project_has (\<lambda>pr. quota_locked pr = 0) p n
           \<and> project_has (\<lambda>pr. quota_available pr = 2) p n
           \<and> balance_of (chain n) (project_address p) = 2
           \<and> task_status_is (\<lambda>s. case s of QuotaExhausted _ _ \<Rightarrow> True | _ \<Rightarrow> False) tid n))))))))"

definition lease_timeout_slashes_worker_balance_and_reputation :: "hash_fun \<Rightarrow> bool" where
  "lease_timeout_slashes_worker_balance_and_reputation H =
     (let (owner, n) = register_participant H ''Owner'' 20 None (with_config H (config_of 1 2 5 2));
          (w1, n) = register_participant H ''W1'' 5 None n
      in unwrap (create_project owner ''Geo'' None n) (\<lambda>p n.
         unwrap (set_participant_reputation w1 3 n) (\<lambda>_ n.
         unwrap (fund_project_from_owner H owner p 10 n) (\<lambda>_ n.
         unwrap (submit_task owner p 6 ''mesh'' n) (\<lambda>_ n.
         unwrap (request_task H w1 n) (\<lambda>_ n.
           let n = tick H 1 n
           in network_balance_of w1 n = 3
              \<and> (case hm_get (participants n) w1 of None \<Rightarrow> False | Some pt \<Rightarrow> reputation pt = 2)
              \<and> pending_count n = 1))))))"

subsection \<open>The ledger inside a replica\<close>

definition blockchain_balance_matches_initial_mint :: "hash_fun \<Rightarrow> bool" where
  "blockchain_balance_matches_initial_mint H =
     (let (alice, n) = register_participant H ''Alice'' 150 None (network_default H)
      in network_balance_of alice n = 150 \<and> verify_integrity H (chain n))"

definition funding_project_reduces_participant_balance_on_chain :: "hash_fun \<Rightarrow> bool" where
  "funding_project_reduces_participant_balance_on_chain H =
     (let (owner, n) = register_participant H ''Owner'' 100 None (network_default H)
      in unwrap (create_project owner ''Proj'' None n) (\<lambda>p n.
         unwrap (fund_project_from_owner H owner p 60 n) (\<lambda>_ n.
           network_balance_of owner n = 40 \<and> verify_integrity H (chain n))))"

definition task_reward_increases_worker_balance_on_chain :: "hash_fun \<Rightarrow> bool" where
  "task_reward_increases_worker_balance_on_chain H =
     (let (owner, n) = register_participant H ''Owner'' 50 None
            (with_config H (default_config\<lparr>consensus_quorum := 1\<rparr>));
          (worker, n) = register_participant H ''Worker'' 0 None n
      in unwrap (create_project owner ''P'' None n) (\<lambda>p n.
         unwrap (fund_project_from_owner H owner p 20 n) (\<lambda>_ n.
         unwrap (submit_task owner p 10 ''work'' n) (\<lambda>tid n.
         unwrap (request_task H worker n) (\<lambda>_ n.
         unwrap (submit_result H worker tid ''ok'' 0 None n) (\<lambda>_ n.
           network_balance_of worker n = 10 \<and> verify_integrity H (chain n)))))))"

definition slash_reduces_worker_balance_on_chain :: "hash_fun \<Rightarrow> bool" where
  "slash_reduces_worker_balance_on_chain H =
     (let (owner, n) = register_participant H ''Owner'' 30 None
            (with_config H (default_config\<lparr>lease_timeout_ticks := 1, lease_slash := 3\<rparr>));
          (worker, n) = register_participant H ''Worker'' 10 None n
      in unwrap (create_project owner ''P'' None n) (\<lambda>p n.
         unwrap (fund_project_from_owner H owner p 15 n) (\<lambda>_ n.
         unwrap (submit_task owner p 10 ''job'' n) (\<lambda>_ n.
         unwrap (request_task H worker n) (\<lambda>_ n.
           let n = tick H 1 n
           in network_balance_of worker n = 7 \<and> verify_integrity H (chain n))))))"

definition blockchain_integrity_holds_after_full_lifecycle :: "hash_fun \<Rightarrow> bool" where
  "blockchain_integrity_holds_after_full_lifecycle H =
     (let (owner, n) = register_participant H ''Owner'' 100 None (with_config H (config_of 10 2 5 1));
          (w1, n) = register_participant H ''W1'' 0 None n;
          (w2, n) = register_participant H ''W2'' 0 None n
      in unwrap (create_project owner ''Full'' None n) (\<lambda>p n.
         unwrap (fund_project_from_owner H owner p 50 n) (\<lambda>_ n.
         unwrap (submit_task owner p 20 ''calc'' n) (\<lambda>tid n.
         unwrap (request_task H w1 n) (\<lambda>_ n.
         unwrap (submit_result H w1 tid ''res'' 0 None n) (\<lambda>_ n.
         unwrap (request_task H w2 n) (\<lambda>_ n.
         unwrap (submit_result H w2 tid ''res'' 0 None n) (\<lambda>_ n.
           verify_integrity H (chain n) \<and> network_balance_of w1 n + network_balance_of w2 n = 20))))))))"

lemma replicas_suite: "identical_op_log_yields_identical_state_across_replicas byte_sum"
  by code_simp

lemma scheduler_suite: "scheduler_prefers_project_with_higher_priority_score byte_sum"
  by code_simp

lemma lifecycle_suite:
  "donation_reduces_supporter_balance_and_increases_project_quota byte_sum
   \<and> cannot_submit_task_when_project_has_not_enough_quota byte_sum
   \<and> consensus_rewards_winning_workers_and_unlocks_project_quota byte_sum
   \<and> expired_lease_returns_task_back_to_queue byte_sum"
  by (intro conjI; code_simp)

lemma voting_suite:
  "weighted_consensus_can_finalize_with_high_reputation_executor byte_sum
   \<and> task_is_auto_rejected_when_max_reports_reached_without_consensus byte_sum
   \<and> budget_exhausted_consensus_burns_reward_without_paying_workers byte_sum
   \<and> lease_timeout_slashes_worker_balance_and_reputation byte_sum"
  by (intro conjI; code_simp)

lemma on_chain_suite:
  "blockchain_balance_matches_initial_mint byte_sum
   \<and> funding_project_reduces_participant_balance_on_chain byte_sum
   \<and> task_reward_increases_worker_balance_on_chain byte_sum
   \<and> slash_reduces_worker_balance_on_chain byte_sum
   \<and> blockchain_integrity_holds_after_full_lifecycle byte_sum"
  by (intro conjI; code_simp)

end
