(* ===== verification/Suite_Consensus.thy ===== *)
theory Suite_Consensus
  imports Cluster
begin

text \<open>
  The unit tests of src/src/consensus.rs, as the functions they are, with their harness: engines
  that exchange messages until none is left. A test takes the cryptography and the identities that
  the source generates at random, and is True when all its assertions hold.
\<close>

section \<open>Harness\<close>

text \<open>The other engines handle a message in turn; what they produce goes to the end of the queue.\<close>

fun broadcast ::
  "crypto \<Rightarrow> nat \<Rightarrow> consensus_msg \<Rightarrow> nat \<Rightarrow> engine list \<Rightarrow> (nat \<times> consensus_msg) list \<times> engine list" where
  "broadcast C origin msg i [] = ([], [])"
| "broadcast C origin msg i (e # es) =
     (let (out, e) = (if i = origin then ([], e) else on_message C msg e);
          (outs, es) = broadcast C origin msg (Suc i) es
      in (map (Pair i) out @ outs, e # es))"

text \<open>The queue is popped from its end; None is the panic after 100000 messages.\<close>

function run_to_quiescence ::
  "crypto \<Rightarrow> int \<Rightarrow> (nat \<times> consensus_msg) list \<Rightarrow> engine list \<Rightarrow> engine list option" where
  "run_to_quiescence C guard queue es =
     (if queue = [] then Some es
      else
        let (origin, msg) = last queue; guard = guard + 1
        in if \<not> guard < 100000 then None
           else let (outs, es) = broadcast C origin msg 0 es
                in run_to_quiescence C guard (butlast queue @ outs) es)"
  by pat_completeness auto
termination
  by (relation "measure (\<lambda>(C, guard, queue, es). nat (100000 - guard))") auto

declare run_to_quiescence.simps [simp del]

definition settle_from :: "crypto \<Rightarrow> nat \<Rightarrow> consensus_msg list \<Rightarrow> engine list \<Rightarrow> engine list option" where
  "settle_from C i out es = run_to_quiescence C 0 (map (Pair i) out) es"

definition keys_of :: "engine list \<Rightarrow> node_key list" where
  "keys_of es = map me es"

definition make_network :: "crypto \<Rightarrow> identity list \<Rightarrow> engine list" where
  "make_network C ids = (let all = map (public_key_bytes C) ids in map (\<lambda>i. engine_new C i all) ids)"

fun position :: "('a \<Rightarrow> bool) \<Rightarrow> 'a list \<Rightarrow> nat option" where
  "position P [] = None"
| "position P (x # xs) = (if P x then Some 0 else map_option Suc (position P xs))"

text \<open>The proposer of the next height proposes, then all settle.\<close>

definition propose_and_settle :: "crypto \<Rightarrow> engine list \<Rightarrow> engine list option" where
  "propose_and_settle C es =
     (case proposer_for (hd es) (e_next_index (hd es)) of
        None \<Rightarrow> None
      | Some proposer \<Rightarrow>
          (case position (\<lambda>k. k = proposer) (keys_of es) of
             None \<Rightarrow> None
           | Some p \<Rightarrow> let (out, e) = try_propose C (es ! p) in settle_from C p out (es[p := e])))"

text \<open>The first engine submits an operation, all settle, the proposer proposes, all settle.\<close>

definition submit_and_settle :: "crypto \<Rightarrow> ledger_op \<Rightarrow> engine list \<Rightarrow> engine list option" where
  "submit_and_settle C op es =
     (let (out, e) = submit_local_op op (hd es)
      in Option.bind (settle_from C 0 out (es[0 := e])) (propose_and_settle C))"

definition commit_solo :: "crypto \<Rightarrow> ledger_op \<Rightarrow> engine \<Rightarrow> engine" where
  "commit_solo C op e = snd (try_propose C (snd (submit_local_op op e)))"

definition passes :: "engine list option \<Rightarrow> (engine list \<Rightarrow> bool) \<Rightarrow> bool" where
  "passes r P = (case r of None \<Rightarrow> False | Some es \<Rightarrow> P es)"

definition e_balance :: "engine \<Rightarrow> participant_id \<Rightarrow> u64" where
  "e_balance e i = network_balance_of i (e_state e)"

definition e_fingerprint :: "crypto \<Rightarrow> engine \<Rightarrow> bytes" where
  "e_fingerprint C e = state_fingerprint (sha256 C) (e_state e)"

section \<open>Tests\<close>

definition quorum_thresholds :: bool where
  "quorum_thresholds \<longleftrightarrow> quorum_for 1 = 1 \<and> quorum_for 2 = 2 \<and> quorum_for 3 = 3 \<and> quorum_for 4 = 3
     \<and> quorum_for 7 = 5"

definition single_node_commits_register_op :: "crypto \<Rightarrow> identity list \<Rightarrow> bool" where
  "single_node_commits_register_op C ids =
     passes (submit_and_settle C (RegisterParticipant 42 ''A'' (replicate 32 9) 100) (make_network C (take 1 ids)))
       (\<lambda>es. length (e_chain (hd es)) = 2 \<and> e_balance (hd es) 42 = 100)"

definition divergent_chain_reorgs_to_longer_via_sync :: "crypto \<Rightarrow> identity list \<Rightarrow> bool" where
  "divergent_chain_reorgs_to_longer_via_sync C ids =
     (let a = engine_new C (ids ! 0) [];
          b = engine_new C (ids ! 1) [];
          a = commit_solo C (RegisterParticipant 1 ''A'' (replicate 32 1) 100) a;
          a = commit_solo C (RegisterParticipant 2 ''B'' (replicate 32 2) 50) a;
          b = commit_solo C (RegisterParticipant 9 ''Z'' (replicate 32 9) 7) b;
          (out, b') = on_message C (SyncResponse (e_chain a)) b
      in length (e_chain a) = 3 \<and> length (e_chain b) = 2 \<and> e_head_hash a \<noteq> e_head_hash b
         \<and> out = [] \<and> length (e_chain b') = length (e_chain a) \<and> e_head_hash b' = e_head_hash a
         \<and> e_fingerprint C b' = e_fingerprint C a
         \<and> e_balance b' 1 = 100 \<and> e_balance b' 2 = 50 \<and> e_balance b' 9 = 0)"

definition equal_length_fork_is_not_adopted :: "crypto \<Rightarrow> identity list \<Rightarrow> bool" where
  "equal_length_fork_is_not_adopted C ids =
     (let a = commit_solo C (RegisterParticipant 1 ''A'' (replicate 32 1) 100) (engine_new C (ids ! 0) []);
          b = commit_solo C (RegisterParticipant 2 ''B'' (replicate 32 2) 50) (engine_new C (ids ! 1) []);
          (out, a') = on_message C (SyncResponse (e_chain b)) a
      in length (e_chain a) = length (e_chain b) \<and> out = [] \<and> e_head_hash a' = e_head_hash a
         \<and> e_fingerprint C a' = e_fingerprint C a \<and> e_balance a' 1 = 100 \<and> e_balance a' 2 = 0)"

definition four_nodes_converge_on_identical_state :: "crypto \<Rightarrow> identity list \<Rightarrow> bool" where
  "four_nodes_converge_on_identical_state C ids =
     (let ops = [RegisterParticipant 1 ''A'' (replicate 32 1) 100, RegisterParticipant 2 ''B'' (replicate 32 2) 100,
            TransferOp 1 2 30 ''pay''];
          es = foldl (\<lambda>es op. Option.bind es (submit_and_settle C op)) (Some (make_network C (take 4 ids))) ops
      in passes es (\<lambda>es. list_all (\<lambda>e. length (e_chain e) = length (e_chain (hd es))
           \<and> e_head_hash e = e_head_hash (hd es) \<and> e_fingerprint C e = e_fingerprint C (hd es)
           \<and> e_balance e 1 = 70 \<and> e_balance e 2 = 130) es))"

definition forged_vote_is_rejected_by_certificate_check :: "crypto \<Rightarrow> identity list \<Rightarrow> bool" where
  "forged_vote_is_rejected_by_certificate_check C ids =
     (let es = make_network C (take 4 ids);
          b = op_block_proposed C 1 (e_head_hash (hd es)) (me (hd es)) [] 3;
          b = b\<lparr>ob_votes := map (\<lambda>e. \<lparr>voter = me e, signature = replicate 64 0\<rparr>) es\<rparr>
      in \<not> verify_certificate C (hd es) b)"

definition inactive_validators_shrink_quorum :: "crypto \<Rightarrow> identity list \<Rightarrow> bool" where
  "inactive_validators_shrink_quorum C ids =
     (let others = map (public_key_bytes C) (take 2 (drop 1 ids));
          e = engine_new C (ids ! 0) others;
          e' = fold mark_inactive others e;
          e'' = commit_solo C (RegisterParticipant 5 ''S'' (replicate 32 5) 42) e'
      in length (active e) = 3 \<and> e_quorum e = quorum_for 3
         \<and> length (active e') = 1 \<and> length (validators e') = 3 \<and> e_quorum e' = 1
         \<and> length (e_chain e'') = 2 \<and> e_balance e'' 5 = 42)"

definition restore_does_not_reactivate_offline_validators :: "crypto \<Rightarrow> identity list \<Rightarrow> bool" where
  "restore_does_not_reactivate_offline_validators C ids =
     (let donor = commit_solo C (RegisterParticipant 1 ''A'' (replicate 32 1) 100) (engine_new C (ids ! 0) []);
          e = restore_chain C (e_chain donor) (engine_new C (ids ! 1) []);
          e' = commit_solo C (RegisterParticipant 2 ''B'' (replicate 32 2) 7) e
      in length (e_chain e) = 2 \<and> length (active e) = 1 \<and> e_quorum e = 1 \<and> 2 \<le> length (validators e)
         \<and> length (e_chain e') = 3 \<and> e_balance e' 2 = 7)"

definition late_joiner_catches_up_via_sync :: "crypto \<Rightarrow> identity list \<Rightarrow> bool" where
  "late_joiner_catches_up_via_sync C ids =
     passes (submit_and_settle C (RegisterParticipant 7 ''X'' (replicate 32 7) 9) (make_network C (take 3 ids)))
       (\<lambda>es. let joiner = engine_new C (ids ! 3) (keys_of es @ [public_key_bytes C (ids ! 3)]);
                 (reply, e) = on_message C (SyncRequest 0) (hd es);
                 joiner = fold (\<lambda>m e. snd (on_message C m e)) reply joiner
             in length (e_chain joiner) = length (e_chain e) \<and> e_fingerprint C joiner = e_fingerprint C e
                \<and> e_balance joiner 7 = 9)"

text \<open>The cryptography and the identities for the evaluation.\<close>

definition suite_crypto :: crypto where
  "suite_crypto = toy_crypto\<lparr>sha256 := (\<lambda>bs. [fold (\<lambda>b h. h * 31 + b) bs 7]), ed_key_ok := (\<lambda>k. True),
     ed_sign := (\<lambda>seed m. replicate 64 (hd seed + hd m)),
     ed_verify := (\<lambda>key m sig. sig = replicate 64 (hd key + hd m))\<rparr>"

definition suite_ids :: "identity list" where
  "suite_ids = map (\<lambda>k. \<lparr>signing_key = [k], encryption_secret = [k]\<rparr>) [1, 2, 3, 4]"

text \<open>All tests pass.\<close>

lemma engine_suite:
  "quorum_thresholds \<and> single_node_commits_register_op suite_crypto suite_ids
   \<and> forged_vote_is_rejected_by_certificate_check suite_crypto suite_ids
   \<and> inactive_validators_shrink_quorum suite_crypto suite_ids
   \<and> restore_does_not_reactivate_offline_validators suite_crypto suite_ids"
  by (intro conjI; code_simp)

lemma fork_choice_suite:
  "divergent_chain_reorgs_to_longer_via_sync suite_crypto suite_ids
   \<and> equal_length_fork_is_not_adopted suite_crypto suite_ids"
  by (intro conjI; code_simp)

lemma late_joiner_suite: "late_joiner_catches_up_via_sync suite_crypto suite_ids"
  by code_simp

lemma convergence_suite: "four_nodes_converge_on_identical_state suite_crypto suite_ids"
  by code_simp

end
