(* ===== verification/Suite_Worker.thy ===== *)
theory Suite_Worker
  imports Nodes Suite_Ledger Execution
begin

text \<open>
  Unit tests of src/src/identity.rs, src/src/estimator.rs and src/src/executor.rs: those that do not
  rest on what a real interpreter prints. Those of the keys hold for every cryptography that
  does what is assumed of it; where a test expects a failure, one cryptography shows it.
\<close>

section \<open>Keys\<close>

definition sign_and_verify_roundtrip :: "crypto \<Rightarrow> identity \<Rightarrow> bool" where
  "sign_and_verify_roundtrip C i =
     (let nonce = replicate 32 42; sig = sign_nonce C i nonce
      in verify_sig C (public_key_bytes C i) nonce sig)"

definition wrong_nonce_fails_verification :: "crypto \<Rightarrow> identity \<Rightarrow> bool" where
  "wrong_nonce_fails_verification C i =
     (let nonce = replicate 32 1; sig = sign_nonce C i nonce; wrong_nonce = replicate 32 2
      in \<not> verify_sig C (public_key_bytes C i) wrong_nonce sig)"

definition truncated_signature_fails_verification :: "crypto \<Rightarrow> identity \<Rightarrow> bool" where
  "truncated_signature_fails_verification C i =
     (let nonce = replicate 32 7; sig = take 32 (sign_nonce C i nonce)
      in \<not> verify_sig C (public_key_bytes C i) nonce sig)"

definition encrypt_decrypt_roundtrip :: "crypto \<Rightarrow> bytes32 \<Rightarrow> bytes \<Rightarrow> identity \<Rightarrow> bool" where
  "encrypt_decrypt_roundtrip C ephemeral nonce recipient =
     (let plaintext = str_bytes ''hello, this is a secret task result with some bytes 0123456789''
      in case encrypt_for C ephemeral nonce (encryption_pubkey_bytes C recipient) plaintext of
           None \<Rightarrow> False
         | Some b \<Rightarrow> decrypt_blob C recipient b = Inr plaintext)"

definition decrypt_with_wrong_key_fails ::
  "crypto \<Rightarrow> bytes32 \<Rightarrow> bytes \<Rightarrow> identity \<Rightarrow> identity \<Rightarrow> bool" where
  "decrypt_with_wrong_key_fails C ephemeral nonce recipient attacker =
     (let plaintext = str_bytes ''top secret''
      in case encrypt_for C ephemeral nonce (encryption_pubkey_bytes C recipient) plaintext of
           None \<Rightarrow> False
         | Some b \<Rightarrow> isl (decrypt_blob C attacker b))"

lemma signature_suite:
  assumes "signatures_ok C" and "length (signing_key i) = 32"
  shows "sign_and_verify_roundtrip C i \<and> truncated_signature_fails_verification C i"
  using assms by (auto simp: sign_and_verify_roundtrip_def truncated_signature_fails_verification_def
      Let_def verify_sig_def sign_nonce_def public_key_bytes_def signatures_ok_def)

lemma sealing_suite:
  assumes "sealing_ok C" and "length nonce = 12"
  shows "encrypt_decrypt_roundtrip C ephemeral nonce recipient"
proof -
  obtain key where "hkdf_expand C (x_shared C ephemeral (encryption_pubkey_bytes C recipient)) RESULT_ENCRYPTION_INFO = Some key"
    using assms(1) unfolding sealing_ok_def by blast
  then show ?thesis
    using assms by (simp add: encrypt_decrypt_roundtrip_def Let_def encrypt_for_def decrypt_blob_def
        encryption_pubkey_bytes_def sealing_ok_def)
qed

text \<open>Keys that matter: a signature carries its message, a sealed text its key.\<close>

definition strict_crypto :: crypto where
  "strict_crypto = toy_crypto\<lparr>
     ed_sign := (\<lambda>seed m. seed @ take 32 (m @ zero32)),
     ed_verify := (\<lambda>key m sig. sig = key @ take 32 (m @ zero32)),
     x_shared := (\<lambda>a b. map (\<lambda>(x, y). x + y) (zip a b)),
     aead_decrypt := (\<lambda>k n c. if take (length k) c = k then Some (drop (length k) c) else None)\<rparr>"

lemma refusal_suite:
  "wrong_nonce_fails_verification strict_crypto demo_identity
   \<and> decrypt_with_wrong_key_fails strict_crypto (replicate 32 3) (replicate 12 0) demo_identity
       \<lparr>signing_key = replicate 32 4, encryption_secret = replicate 32 4\<rparr>"
  by (intro conjI; code_simp)

section \<open>Costs\<close>

definition calculate_cost_formula :: bool where
  "calculate_cost_formula \<longleftrightarrow>
     calculate_cost \<lparr>base_fee = 5, cpu_rate = 10, memory_rate = 2\<rparr>
       \<lparr>cpu_seconds = 2, peak_memory_mb = 100, wall_clock_seconds = 3\<rparr> = 225"

definition estimate_flags_obvious_infinite_loop :: bool where
  "estimate_flags_obvious_infinite_loop \<longleftrightarrow>
     unbounded_reason (estimate_python default_costs (''while True:'' @ [CHR 0x0A] @ ''    pass'' @ [CHR 0x0A]))
       = Some ''unbounded while loop''"

section \<open>The executor\<close>

definition executor_becomes_idle_when_no_tasks_left :: "crypto \<Rightarrow> text_ops \<Rightarrow> python \<Rightarrow> bool" where
  "executor_becomes_idle_when_no_tasks_left C U P =
     (let (w, n) = register_participant (sha256 C) ''Worker'' 0 None (network_default (sha256 C));
          ex = executor_new w ''w3'' 100 1 1 default_allowed_packages
      in case process_next_task C U P 1 [] [] ex n of
           None \<Rightarrow> False
         | Some r \<Rightarrow> unwrap r (\<lambda>event n. event = IdleEvent))"

definition reward_budget_stops_obvious_infinite_python :: "crypto \<Rightarrow> text_ops \<Rightarrow> python \<Rightarrow> bool" where
  "reward_budget_stops_obvious_infinite_python C U P =
     (let ex = executor_new 1 ''w4'' 100 1 1 default_allowed_packages;
          p = ''python:'' @ b64_encode C (str_bytes (''while True:'' @ [CHR 0x0A] @ ''    pass'' @ [CHR 0x0A]))
      in case execute_task_payload C U P 1 ex 42 p 1 of
           None \<Rightarrow> False
         | Some (res, cost) \<Rightarrow> cr_digest res = ''python-budget-exhausted-2a'' \<and> budget_exhausted res \<and> cost = 1)"

lemma cost_suite: "calculate_cost_formula \<and> estimate_flags_obvious_infinite_loop"
  by (intro conjI; code_simp)

lemma idle_suite:
  "executor_becomes_idle_when_no_tasks_left (toy_crypto\<lparr>sha256 := byte_sum\<rparr>) (w_text toy_world) toy_python"
  by code_simp

text \<open>The endless loop meets an interpreter that does not come back in time.\<close>

lemma reliable: "\<not> (100::u64) \<le> x mod 100"
  by (simp add: not_le word_less_nat_alt unat_mod)

lemma budget_suite:
  assumes "base64_ok C" and "\<And>bs. utf8_ok U bs" and "\<And>code t. py_thread P code t = ThreadTooLate"
  shows "reward_budget_stops_obvious_infinite_python C U P"
proof -
  let ?code = "''while True:'' @ [CHR 0x0A] @ ''    pass'' @ [CHR 0x0A]"
  have parse: "payload_parse (''python:'' @ x) = PythonPayload x False" for x
    by (simp add: payload_parse_def strip_prefix_def)
  have decode: "decode_python_source C U 42 (b64_encode C (str_bytes ?code)) ''python'' = Inr ?code"
    using assms(1,2) by (simp add: decode_python_source_def base64_ok_def)
  have honest: "\<not> generates_corrupted_result (executor_new 1 ''w4'' 100 1 1 default_allowed_packages) 42 c" for c
    using reliable by (simp add: generates_corrupted_result_def executor_new_def Let_def)
  have hex: "hex_u64 42 = ''2a''"
    by code_simp
  show ?thesis
    unfolding reward_budget_stops_obvious_infinite_python_def Let_def execute_task_payload_def compute_result_with_budget_def
      parse payload.case run_python_payload_def decode
    using assms(3) honest
    by (simp add: executor_new_def measure_via_sandbox_def run_python_sandboxed_def python_timeout_result_def hex actual_cost_of_def Let_def)
qed

end
